(* ===== verification/Prelude.thy ===== *)
theory Prelude
  imports Main "HOL-Library.Word"
begin

text \<open>
  Shared vocabulary of the development: machine integers at their width, the
  error-carrying result type and its sequencing operators, decimal text of integers, and the
  placeholder substitution of the standard formatting function (\<open>std::format\<close>, which the
  code calls through \<open>fmt::format\<close> with plain \<open>{}\<close> placeholders only).  The lemmas are the
  ones several components use: bounded counting loops, list updates, association lists that
  model \<open>std::map\<close> and \<open>std::unordered_map\<close>, and splitting of strings.
\<close>

section \<open>Types and collections of facts\<close>

type_synonym u64 = "64 word"
type_synonym u32 = "32 word"

named_theorems loop_simps \<open>closed forms of the counting loops\<close>
named_theorems alist_simps \<open>lookup after update and delete\<close>
named_theorems result_simps \<open>sequencing of fallible computations\<close>

section \<open>Fallible computations\<close>

text \<open>\<open>rbind m f\<close> runs \<open>m\<close> and continues with \<open>f\<close> unless \<open>m\<close> has thrown.\<close>

definition rbind :: "'e + 'a \<Rightarrow> ('a \<Rightarrow> 'e + 'b) \<Rightarrow> 'e + 'b" where
  "rbind m f = (case m of Inl e \<Rightarrow> Inl e | Inr x \<Rightarrow> f x)"

lemma rbind_Inl [simp, result_simps]: "rbind (Inl e) f = Inl e"
  by (simp add: rbind_def)

lemma rbind_Inr [simp, result_simps]: "rbind (Inr x) f = f x"
  by (simp add: rbind_def)

lemma rbind_eq_Inr [result_simps]:
  "rbind m f = Inr y \<longleftrightarrow> (\<exists>x. m = Inr x \<and> f x = Inr y)"
  by (cases m) simp_all

lemma rbind_eq_Inl [result_simps]:
  "rbind m f = Inl e \<longleftrightarrow> m = Inl e \<or> (\<exists>x. m = Inr x \<and> f x = Inl e)"
  by (cases m) simp_all

lemma rbind_assoc: "rbind (rbind m f) g = rbind m (\<lambda>x. rbind (f x) g)"
  by (cases m) simp_all

text \<open>\<open>require b e\<close> is the guard \<open>if (!b) throw e;\<close>.\<close>

definition require :: "bool \<Rightarrow> 'e \<Rightarrow> 'e + unit" where
  "require b e = (if b then Inr () else Inl e)"

lemma require_simps [simp, result_simps]:
  "require True e = Inr ()"
  "require False e = Inl e"
  by (simp_all add: require_def)

lemma require_eq_Inr [result_simps]: "require b e = Inr u \<longleftrightarrow> b"
  by (simp add: require_def)

text \<open>\<open>of_opt e x\<close> turns a missing value into the exception \<open>e\<close>.\<close>

definition of_opt :: "'e \<Rightarrow> 'a option \<Rightarrow> 'e + 'a" where
  "of_opt e x = (case x of None \<Rightarrow> Inl e | Some y \<Rightarrow> Inr y)"

lemma of_opt_simps [simp, result_simps]:
  "of_opt e None = Inl e"
  "of_opt e (Some y) = Inr y"
  by (simp_all add: of_opt_def)

lemma of_opt_eq_Inr [result_simps]: "of_opt e x = Inr y \<longleftrightarrow> x = Some y"
  by (cases x) simp_all

text \<open>A loop over a list whose body may throw: the first exception ends it.\<close>

fun rmap :: "('a \<Rightarrow> 'e + 'b) \<Rightarrow> 'a list \<Rightarrow> 'e + 'b list" where
  "rmap f [] = Inr []"
| "rmap f (x # xs) = rbind (f x) (\<lambda>y. rbind (rmap f xs) (\<lambda>ys. Inr (y # ys)))"

lemma rmap_all_Inr: "(\<And>x. x \<in> set xs \<Longrightarrow> f x = Inr (g x)) \<Longrightarrow> rmap f xs = Inr (map g xs)"
  by (induction xs) simp_all

lemma rmap_length: "rmap f xs = Inr ys \<Longrightarrow> length ys = length xs"
  by (induction xs arbitrary: ys) (auto simp: rbind_eq_Inr)

lemma rmap_nth: "rmap f xs = Inr ys \<Longrightarrow> i < length xs \<Longrightarrow> f (xs ! i) = Inr (ys ! i)"
  by (induction xs arbitrary: ys i) (auto simp: rbind_eq_Inr nth_Cons split: nat.splits)

text \<open>A loop that updates a state and may throw.\<close>

fun rfold :: "('a \<Rightarrow> 's \<Rightarrow> 'e + 's) \<Rightarrow> 'a list \<Rightarrow> 's \<Rightarrow> 'e + 's" where
  "rfold f [] s = Inr s"
| "rfold f (x # xs) s = rbind (f x s) (rfold f xs)"

lemma rfold_append: "rfold f (xs @ ys) s = rbind (rfold f xs s) (rfold f ys)"
  by (induction xs arbitrary: s) (simp_all add: rbind_def split: sum.splits)

section \<open>Fallible computations over a state\<close>

text \<open>
  Code that talks to a server or mutates an object and may throw: the state reached so far is
  kept when an exception leaves the function.
\<close>

type_synonym ('w, 'e, 'a) action = "'w \<Rightarrow> ('e + 'a) \<times> 'w"

definition sret :: "'a \<Rightarrow> ('w, 'e, 'a) action" where
  "sret x = (\<lambda>w. (Inr x, w))"

definition sbind :: "('w, 'e, 'a) action \<Rightarrow> ('a \<Rightarrow> ('w, 'e, 'b) action) \<Rightarrow> ('w, 'e, 'b) action" where
  "sbind m f = (\<lambda>w. case m w of (Inl e, w') \<Rightarrow> (Inl e, w') | (Inr x, w') \<Rightarrow> f x w')"

definition slift :: "'e + 'a \<Rightarrow> ('w, 'e, 'a) action" where
  "slift r = (\<lambda>w. (r, w))"

definition scatch :: "('w, 'e, 'a) action \<Rightarrow> ('e \<Rightarrow> ('w, 'e, 'a) action) \<Rightarrow> ('w, 'e, 'a) action" where
  "scatch m h = (\<lambda>w. case m w of (Inl e, w') \<Rightarrow> h e w' | (Inr x, w') \<Rightarrow> (Inr x, w'))"

lemma sret_apply [simp, result_simps]: "sret x w = (Inr x, w)"
  by (simp add: sret_def)

lemma slift_apply [simp, result_simps]: "slift r w = (r, w)"
  by (simp add: slift_def)

lemma sbind_apply [result_simps]:
  "sbind m f w = (case m w of (Inl e, w') \<Rightarrow> (Inl e, w') | (Inr x, w') \<Rightarrow> f x w')"
  by (simp add: sbind_def)

lemma sbind_Inr: "m w = (Inr x, w') \<Longrightarrow> sbind m f w = f x w'"
  by (simp add: sbind_def)

lemma sbind_Inl: "m w = (Inl e, w') \<Longrightarrow> sbind m f w = (Inl e, w')"
  by (simp add: sbind_def)

lemma sbind_sret [simp]: "sbind (sret x) f = f x"
  by (simp add: sbind_def sret_def fun_eq_iff)

lemma sbind_slift_Inr [simp]: "sbind (slift (Inr x)) f = f x"
  by (simp add: sbind_def slift_def fun_eq_iff)

lemma sbind_slift_Inl [simp]: "sbind (slift (Inl e)) f = slift (Inl e)"
  by (simp add: sbind_def slift_def fun_eq_iff)

lemma sbind_eq_Inr:
  "sbind m f w = (Inr y, w2) \<longleftrightarrow> (\<exists>x w1. m w = (Inr x, w1) \<and> f x w1 = (Inr y, w2))"
  by (auto simp: sbind_def split: prod.splits sum.splits)

text \<open>A loop that collects the results of its iterations.\<close>

fun smap :: "('a \<Rightarrow> ('w, 'e, 'b) action) \<Rightarrow> 'a list \<Rightarrow> ('w, 'e, 'b list) action" where
  "smap f [] = sret []"
| "smap f (x # xs) = sbind (f x) (\<lambda>y. sbind (smap f xs) (\<lambda>ys. sret (y # ys)))"

text \<open>Actions that leave a part of their state alone.\<close>

definition keeps :: "('w \<Rightarrow> 'p) \<Rightarrow> ('w, 'e, 'a) action \<Rightarrow> bool" where
  "keeps part act \<longleftrightarrow> (\<forall>w. part (snd (act w)) = part w)"

lemma keeps_run: "keeps part act \<Longrightarrow> act w = (r, w') \<Longrightarrow> part w' = part w"
  by (metis keeps_def snd_conv)

lemma keeps_sret [intro]: "keeps part (sret x)" and keeps_slift [intro]: "keeps part (slift r)"
  by (simp_all add: keeps_def)

lemma keeps_sbind [intro]: "keeps part m \<Longrightarrow> (\<And>x. keeps part (f x)) \<Longrightarrow> keeps part (sbind m f)"
  unfolding keeps_def by (auto simp: sbind_apply split: prod.splits sum.splits) (metis snd_conv)+

lemma keeps_smap [intro]: "(\<And>x. keeps part (f x)) \<Longrightarrow> keeps part (smap f xs)"
  by (induction xs) (simp_all add: keeps_sret keeps_sbind)

lemma smap_length: "smap f xs w = (Inr ys, w') \<Longrightarrow> length ys = length xs"
  by (induction xs arbitrary: w ys) (auto simp: sbind_eq_Inr)

section \<open>Machine integers\<close>

lemma no_wrap_add:
  fixes a b :: u64
  assumes "uint a + uint b < 2 ^ 64"
  shows "uint (a + b) = uint a + uint b" and "unat (a + b) = unat a + unat b"
proof -
  have "uint (a + b) = (uint a + uint b) mod 2 ^ 64" using uint_word_ariths(1) [of a b] by simp
  also have "\<dots> = uint a + uint b"
    using assms by (intro mod_pos_pos_trivial) simp_all
  finally show 1: "uint (a + b) = uint a + uint b" .
  have "unat (a + b) = nat (uint a + uint b)" by (simp only: unat_eq_nat_uint 1)
  then show "unat (a + b) = unat a + unat b" by (simp add: nat_add_distrib)
qed

lemma unat_minus_1: "(n :: u64) \<noteq> 0 \<Longrightarrow> unat (n - 1) = unat n - 1"
  by (simp add: unat_gt_0 unat_sub word_le_nat_alt Suc_leI)

lemma ucast_ucast_32 [simp]: "ucast (ucast (w :: u32) :: u64) = w"
  by (rule ucast_up_ucast_id) (simp add: is_up)

lemma uint_ucast_32: "uint (ucast (w :: u32) :: u64) < 2 ^ 32"
proof -
  have "uint (ucast w :: u64) = uint w" by (rule uint_up_ucast) (simp add: is_up)
  then show ?thesis using uint_bounded [of w] by simp
qed

lemma ucast_ucast_64: "uint (w :: u64) < 2 ^ 32 \<Longrightarrow> ucast (ucast w :: u32) = w"
  by (rule word_uint_eqI) (simp add: unsigned_ucast_eq unsigned_take_bit_eq take_bit_int_eq_self)

section \<open>Counting loops\<close>

text \<open>
  \<open>for (i = 0; i < n; ++i) body(i)\<close> over a state, and the common body that writes slot
  \<open>i\<close> of a fixed-size array.
\<close>

definition for_loop :: "nat \<Rightarrow> (nat \<Rightarrow> 's \<Rightarrow> 's) \<Rightarrow> 's \<Rightarrow> 's" where
  "for_loop n body s = fold body [0..<n] s"

lemma for_loop_0 [simp]: "for_loop 0 body s = s"
  by (simp add: for_loop_def)

lemma for_loop_Suc [simp]: "for_loop (Suc n) body s = body n (for_loop n body s)"
  by (simp add: for_loop_def)

lemma for_loop_invariant:
  assumes "P 0 s"
    and "\<And>i t. i < n \<Longrightarrow> P i t \<Longrightarrow> P (Suc i) (body i t)"
  shows "P n (for_loop n body s)"
  using assms(2)
proof (induction n)
  case 0
  with assms(1) show ?case by simp
next
  case (Suc n)
  then show ?case by simp
qed

lemma for_loop_fill:
  assumes "n \<le> length xs"
  shows "for_loop n (\<lambda>i ys. ys[i := f i]) xs = map f [0..<n] @ drop n xs"
proof -
  have "n \<le> length xs \<Longrightarrow>
    for_loop n (\<lambda>i ys. ys[i := f i]) xs = map f [0..<n] @ drop n xs"
  proof (induction n)
    case 0
    then show ?case by simp
  next
    case (Suc n)
    then have "drop n xs = xs ! n # drop (Suc n) xs"
      by (simp add: Cons_nth_drop_Suc)
    with Suc show ?case by (simp add: list_update_append)
  qed
  with assms show ?thesis by simp
qed

lemma for_loop_fill_all [loop_simps]:
  "length xs = n \<Longrightarrow> for_loop n (\<lambda>i ys. ys[i := f i]) xs = map f [0..<n]"
  by (simp add: for_loop_fill)

lemma for_loop_sum [loop_simps]:
  "for_loop n (\<lambda>i a. a + f i) (c :: 'a::comm_monoid_add) = c + (\<Sum>i<n. f i)"
  by (induction n) (simp_all add: add.assoc)

lemma for_loop_append [loop_simps]:
  "for_loop n (\<lambda>i out. out @ f i) out0 = out0 @ concat (map f [0..<n])"
  by (induction n) simp_all

text \<open>Two nested loops that write slot \<open>i * m + j\<close> of an array of \<open>n * m\<close> elements.\<close>

lemma for_loop_length:
  "(\<And>i xs. length (body i xs) = length xs) \<Longrightarrow> length (for_loop n body xs) = length xs"
  by (induction n) simp_all

lemma for_loop_nth_update:
  assumes "k < length xs" and "b + n \<le> length xs"
  shows "for_loop n (\<lambda>j ys. ys[b + j := f j]) xs ! k = (if b \<le> k \<and> k < b + n then f (k - b) else xs ! k)"
  using assms
proof (induction n)
  case (Suc n)
  have "length (for_loop n (\<lambda>j ys. ys[b + j := f j]) xs) = length xs" by (rule for_loop_length) simp
  with Suc show ?case by (auto simp: nth_list_update)
qed auto

lemma for_loop_grid:
  assumes "length xs = n * m"
  shows "for_loop n (\<lambda>i. for_loop m (\<lambda>j ys. ys[i * m + j := f i j])) xs
    = map (\<lambda>k. f (k div m) (k mod m)) [0..<n * m]"
proof (rule nth_equalityI)
  let ?row = "\<lambda>i. for_loop m (\<lambda>j ys. ys[i * m + j := f i j])"
  have len: "length (for_loop r ?row xs) = length xs" for r
    by (rule for_loop_length, rule for_loop_length) simp
  have rows: "r \<le> n \<Longrightarrow> k < n * m \<Longrightarrow>
      for_loop r ?row xs ! k = (if k < r * m then f (k div m) (k mod m) else xs ! k)" for r k
  proof (induction r)
    case (Suc r)
    from Suc.prems have "Suc r * m \<le> n * m" by (intro mult_le_mono1) simp
    then have "for_loop (Suc r) ?row xs ! k =
        (if r * m \<le> k \<and> k < r * m + m then f r (k - r * m) else for_loop r ?row xs ! k)"
      using Suc.prems assms len [of r] by (simp add: for_loop_nth_update)
    moreover have "k div m = r \<and> k mod m = k - r * m" if "r * m \<le> k" "k < r * m + m"
    proof -
      from that obtain d where "k = r * m + d" "d < m" by (auto simp: le_iff_add)
      then show ?thesis by simp
    qed
    ultimately show ?case using Suc by auto
  qed simp
  show "length (for_loop n ?row xs) = length (map (\<lambda>k. f (k div m) (k mod m)) [0..<n * m])"
    using len [of n] assms by simp
  fix k assume "k < length (for_loop n ?row xs)"
  with len [of n] assms rows [of n k]
  show "for_loop n ?row xs ! k = map (\<lambda>k. f (k div m) (k mod m)) [0..<n * m] ! k" by simp
qed

lemma for_loop_pair:
  "for_loop n (\<lambda>i (x, y). (f i x, g i y)) (x, y) = (for_loop n f x, for_loop n g y)"
  by (induction n) simp_all

lemma for_loop_cong:
  "(\<And>i s. i < n \<Longrightarrow> f i s = g i s) \<Longrightarrow> for_loop n f s = for_loop n g s"
  by (induction n) simp_all

lemma grid_index:
  fixes i j n m :: nat
  assumes "i < n" and "j < m"
  shows "i * m + j < n * m" and "(i * m + j) div m = i" and "(i * m + j) mod m = j"
proof -
  have "i * m + j < Suc i * m" using assms(2) by simp
  also have "\<dots> \<le> n * m" using assms(1) by (intro mult_le_mono1) simp
  finally show "i * m + j < n * m" .
qed (use assms in simp_all)

text \<open>Rows of equal length laid out one after the other.\<close>

lemma length_concat_uniform:
  "(\<And>row. row \<in> set xss \<Longrightarrow> length row = m) \<Longrightarrow> length (concat xss) = length xss * m"
  by (induction xss) simp_all

lemma nth_concat_uniform:
  "(\<And>row. row \<in> set xss \<Longrightarrow> length row = m) \<Longrightarrow> i < length xss \<Longrightarrow> j < m \<Longrightarrow>
    concat xss ! (i * m + j) = xss ! i ! j"
proof (induction xss arbitrary: i)
  case (Cons row xss)
  then show ?case by (cases i) (simp_all add: nth_append add.assoc)
qed simp

section \<open>Maps with an iteration order\<close>

text \<open>
  \<open>aput\<close> is \<open>m[k] = v\<close> (replaces in place or appends), \<open>adel\<close> is \<open>erase\<close>; the order of
  the list is the container's iteration order.
\<close>

fun aput :: "'k \<Rightarrow> 'v \<Rightarrow> ('k \<times> 'v) list \<Rightarrow> ('k \<times> 'v) list" where
  "aput k v [] = [(k, v)]"
| "aput k v ((k', v') # m) = (if k = k' then (k, v) # m else (k', v') # aput k v m)"

definition adel :: "'k \<Rightarrow> ('k \<times> 'v) list \<Rightarrow> ('k \<times> 'v) list" where
  "adel k m = filter (\<lambda>(k', v). k' \<noteq> k) m"

lemma map_of_aput [simp, alist_simps]: "map_of (aput k v m) = (map_of m)(k \<mapsto> v)"
  by (induction m) auto

lemma map_of_adel [simp, alist_simps]: "map_of (adel k m) = (map_of m)(k := None)"
  by (induction m) (auto simp: adel_def)

lemma keys_aput [simp]: "fst ` set (aput k v m) = insert k (fst ` set m)"
  by (induction k v m rule: aput.induct) (auto split: if_splits)

lemma keys_adel [simp]: "fst ` set (adel k m) = fst ` set m - {k}"
  by (auto simp: adel_def image_iff)

lemma set_map_fst_aput [simp]: "set (map fst (aput k v m)) = insert k (set (map fst m))"
  using keys_aput [of k v m] by simp

lemma distinct_aput [simp]: "distinct (map fst (aput k v m)) \<longleftrightarrow> distinct (map fst m)"
  by (induction k v m rule: aput.induct) (simp_all del: set_map)

lemma distinct_adel [simp]: "distinct (map fst m) \<Longrightarrow> distinct (map fst (adel k m))"
  by (induction m) (auto simp: adel_def image_iff)

lemma map_of_None_iff: "map_of m k = None \<longleftrightarrow> k \<notin> fst ` set m"
  by (simp add: map_of_eq_None_iff)

lemma aput_fresh: "k \<notin> fst ` set m \<Longrightarrow> aput k v m = m @ [(k, v)]"
  by (induction m) auto

lemma adel_fresh: "k \<notin> fst ` set m \<Longrightarrow> adel k m = m"
  by (induction m) (auto simp: adel_def)

lemma foldl_aput_map:
  "map_of (foldl (\<lambda>m (k, v). aput k v m) m0 (map (\<lambda>k. (k, h k)) ks))
    = (\<lambda>k. if k \<in> set ks then Some (h k) else map_of m0 k)"
  by (induction ks arbitrary: m0) (auto simp: fun_eq_iff)

lemma map_of_rev_distinct:
  assumes "distinct (map fst xs)"
  shows "map_of (rev xs) = map_of xs"
proof -
  have "distinct (map fst (rev xs))" using assms by (simp add: rev_map [symmetric])
  from map_of_inject_set [OF this assms] show ?thesis by simp
qed

lemma sum_list_aput_fresh:
  "k \<notin> fst ` set m \<Longrightarrow>
    sum_list (map (f \<circ> snd) (aput k v m)) = sum_list (map (f \<circ> snd) m) + (f v :: 'a::comm_monoid_add)"
  by (simp add: aput_fresh add.commute)

lemma sum_list_adel:
  assumes "distinct (map fst m)" and "map_of m k = Some v"
  shows "sum_list (map (f \<circ> snd) m) = sum_list (map (f \<circ> snd) (adel k m)) + (f v :: 'a::comm_monoid_add)"
  using assms
proof (induction m)
  case Nil
  then show ?case by simp
next
  case (Cons p m)
  obtain k' v' where p: "p = (k', v')" by fastforce
  show ?case
  proof (cases "k' = k")
    case True
    with Cons.prems p have "adel k (p # m) = m" and "v' = v"
      using adel_fresh [of k m] by (simp_all add: adel_def)
    with p show ?thesis by (simp add: add.commute)
  next
    case False
    with p have del: "adel k (p # m) = p # adel k m" by (simp add: adel_def)
    from False p Cons.prems have "distinct (map fst m)" "map_of m k = Some v" by simp_all
    from Cons.IH [OF this] show ?thesis by (simp only: del) (simp add: p add.assoc)
  qed
qed

section \<open>Ordered maps\<close>

text \<open>\<open>std::map\<close>: the list is sorted by key, an assignment replaces or inserts in order.\<close>

fun oput :: "'k::linorder \<Rightarrow> 'v \<Rightarrow> ('k \<times> 'v) list \<Rightarrow> ('k \<times> 'v) list" where
  "oput k v [] = [(k, v)]"
| "oput k v ((k', v') # m) =
     (if k < k' then (k, v) # (k', v') # m else if k' < k then (k', v') # oput k v m else (k, v) # m)"

definition ordered :: "('k::linorder \<times> 'v) list \<Rightarrow> bool" where
  "ordered m \<longleftrightarrow> sorted_wrt (<) (map fst m)"

lemma ordered_Nil [simp]: "ordered []"
  by (simp add: ordered_def)

lemma ordered_distinct: "ordered m \<Longrightarrow> distinct (map fst m)"
  unfolding ordered_def using strict_sorted_iff by blast

lemma keys_oput [simp]: "fst ` set (oput k v m) = insert k (fst ` set m)"
  by (induction k v m rule: oput.induct) auto

lemma ordered_oput [simp]: "ordered m \<Longrightarrow> ordered (oput k v m)"
proof (induction k v m rule: oput.induct)
  case (2 k v k' v' m)
  have "x \<in> set (map fst (oput k v m)) \<longleftrightarrow> x = k \<or> x \<in> set (map fst m)" for x
    using keys_oput [of k v m] by auto
  with 2 show ?case by (auto simp: ordered_def simp del: set_map)
qed (simp add: ordered_def)

lemma map_of_oput [simp, alist_simps]: "ordered m \<Longrightarrow> map_of (oput k v m) = (map_of m)(k \<mapsto> v)"
proof (induction k v m rule: oput.induct)
  case (2 k v k' v' m)
  then show ?case by (auto simp: ordered_def fun_eq_iff)
qed simp

lemma ordered_adel [simp]: "ordered m \<Longrightarrow> ordered (adel k m)"
proof (induction m)
  case (Cons p m)
  have "set (map fst (adel k m)) \<subseteq> set (map fst m)" by (auto simp: adel_def)
  with Cons show ?case by (auto simp: ordered_def adel_def)
qed (simp add: adel_def)

lemma adel_oput_fresh: "ordered m \<Longrightarrow> map_of m k = None \<Longrightarrow> adel k (oput k v m) = m"
proof (induction k v m rule: oput.induct)
  case (2 k v k' v' m)
  then have "k \<notin> fst ` set m" "k' \<noteq> k" by (auto simp: map_of_None_iff split: if_splits)
  then have "adel k m = m" by (simp add: adel_fresh)
  with 2 \<open>k' \<noteq> k\<close> show ?case by (auto simp: adel_def ordered_def)
qed (simp add: adel_def)

lemma sum_list_oput:
  "ordered m \<Longrightarrow> sum_list (map (f \<circ> snd) (oput k v m)) + (case map_of m k of None \<Rightarrow> 0 | Some w \<Rightarrow> f w) =
    sum_list (map (f \<circ> snd) m) + (f v :: nat)"
proof (induction k v m rule: oput.induct)
  case (2 k v k' v' m)
  have "map_of ((k', v') # m) k = None" if "k < k'"
  proof -
    have "k \<notin> fst ` set ((k', v') # m)" using that 2(2) by (auto simp: ordered_def)
    then show ?thesis by (simp only: map_of_None_iff not_False_eq_True)
  qed
  with 2 show ?case by (auto simp: ordered_def)
qed simp

section \<open>Text\<close>

text \<open>Decimal digits of a natural number, as the standard streams and formatters print it.\<close>

definition digit_char :: "nat \<Rightarrow> char" where
  "digit_char d = char_of (48 + d)"

fun show_nat :: "nat \<Rightarrow> string" where
  "show_nat n = (if n < 10 then [digit_char n] else show_nat (n div 10) @ [digit_char (n mod 10)])"

declare show_nat.simps [simp del]

definition show_int :: "int \<Rightarrow> string" where
  "show_int i = (if i < 0 then CHR ''-'' # show_nat (nat (- i)) else show_nat (nat i))"

definition is_digit :: "char \<Rightarrow> bool" where
  "is_digit c \<longleftrightarrow> 48 \<le> (of_char c :: nat) \<and> (of_char c :: nat) \<le> 57"

definition digit_val :: "char \<Rightarrow> nat" where
  "digit_val c = of_char c - 48"

definition read_digits :: "string \<Rightarrow> nat" where
  "read_digits s = foldl (\<lambda>n c. 10 * n + digit_val c) 0 s"

lemma of_char_digit_char: "d < 10 \<Longrightarrow> of_char (digit_char d) = (48 + d :: nat)"
  by (simp add: digit_char_def)

lemma is_digit_digit_char [simp]: "d < 10 \<Longrightarrow> is_digit (digit_char d)"
  by (simp add: is_digit_def of_char_digit_char)

lemma digit_val_digit_char [simp]: "d < 10 \<Longrightarrow> digit_val (digit_char d) = d"
  by (simp add: digit_val_def of_char_digit_char)

lemma show_nat_nonempty [simp]: "show_nat n \<noteq> []"
  by (subst show_nat.simps) simp

lemma show_nat_digits: "c \<in> set (show_nat n) \<Longrightarrow> is_digit c"
proof (induction n rule: show_nat.induct)
  case (1 n)
  then show ?case
    by (subst (asm) (2) show_nat.simps) (auto split: if_splits)
qed

lemma read_digits_append:
  "read_digits (s @ [c]) = 10 * read_digits s + digit_val c"
  by (simp add: read_digits_def)

lemma read_show_nat [simp]: "read_digits (show_nat n) = n"
proof (induction n rule: show_nat.induct)
  case (1 n)
  show ?case
  proof (cases "n < 10")
    case True
    then show ?thesis by (subst show_nat.simps) (simp add: read_digits_def)
  next
    case False
    with 1 show ?thesis by (subst show_nat.simps) (simp add: read_digits_append)
  qed
qed

lemma show_nat_inj: "show_nat m = show_nat n \<Longrightarrow> m = n"
  by (metis read_show_nat)

text \<open>
  \<open>fmt_format f args\<close> substitutes the arguments, already converted to text, for the
  successive \<open>{}\<close> of the format string; a missing argument makes the call ill-formed and
  leaves the placeholder.
\<close>

fun fmt_format :: "string \<Rightarrow> string list \<Rightarrow> string" where
  "fmt_format [] args = []"
| "fmt_format [c] args = [c]"
| "fmt_format (c # d # cs) args =
    (if c = CHR ''{'' \<and> d = CHR ''}''
     then (case args of [] \<Rightarrow> c # d # fmt_format cs [] | a # as \<Rightarrow> a @ fmt_format cs as)
     else c # fmt_format (d # cs) args)"

text \<open>Joining of printed elements with a separator.\<close>

fun join :: "string \<Rightarrow> string list \<Rightarrow> string" where
  "join sep [] = []"
| "join sep [x] = x"
| "join sep (x # y # xs) = x @ sep @ join sep (y # xs)"

definition tab :: string where "tab = [char_of (9 :: nat)]"

definition newline :: string where "newline = [char_of (10 :: nat)]"

text \<open>White space as \<open>std::isspace\<close> in the default locale.\<close>

definition isspace :: "char \<Rightarrow> bool" where
  "isspace c \<longleftrightarrow> (of_char c :: nat) \<in> {9, 10, 11, 12, 13, 32}"

lemma digit_not_space: "is_digit c \<Longrightarrow> \<not> isspace c"
  by (auto simp: is_digit_def isspace_def)

definition skip_ws :: "string \<Rightarrow> string" where
  "skip_ws s = dropWhile isspace s"

definition starts_word :: "string \<Rightarrow> bool" where
  "starts_word s \<longleftrightarrow> (case s of [] \<Rightarrow> False | c # _ \<Rightarrow> \<not> isspace c)"

lemma skip_ws_word [simp]: "starts_word s \<Longrightarrow> skip_ws s = s"
  by (cases s) (simp_all add: skip_ws_def starts_word_def)

lemma takeWhile_all_append:
  assumes "\<forall>c\<in>set s. P c" and "t = [] \<or> \<not> P (hd t)"
  shows "takeWhile P (s @ t) = s" and "dropWhile P (s @ t) = t"
  using assms by (induction s) (cases t; auto)+

text \<open>
  Reading a decimal number as the scanning functions do: white space, an optional sign and
  digits; the rest of the text is returned.
\<close>

fun scan_unsigned :: "string \<Rightarrow> (nat \<times> string) option" where
  "scan_unsigned s = (let d = takeWhile is_digit s in if d = [] then None else Some (read_digits d, dropWhile is_digit s))"

definition scan_decimal :: "string \<Rightarrow> (int \<times> string) option" where
  "scan_decimal s =
    (case skip_ws s of
       [] \<Rightarrow> None
     | c # cs \<Rightarrow> if c = CHR ''-'' then map_option (\<lambda>(n, r). (- int n, r)) (scan_unsigned cs)
                else if c = CHR ''+'' then map_option (\<lambda>(n, r). (int n, r)) (scan_unsigned cs)
                else map_option (\<lambda>(n, r). (int n, r)) (scan_unsigned (c # cs)))"

lemma scan_decimal_digits:
  assumes "ds \<noteq> []" and "\<forall>c\<in>set ds. is_digit c" and "r = [] \<or> \<not> is_digit (hd r)"
  shows "scan_decimal (ds @ r) = Some (int (read_digits ds), r)"
proof -
  from assms(1) obtain c cs where ds: "ds = c # cs" by (cases ds) auto
  have c: "is_digit c" using assms(2) ds by simp
  then have "\<not> isspace c" "c \<noteq> CHR ''-''" "c \<noteq> CHR ''+''" by (auto simp: digit_not_space is_digit_def)
  moreover have "skip_ws (ds @ r) = ds @ r" using ds \<open>\<not> isspace c\<close> by (simp add: skip_ws_def)
  moreover have "scan_unsigned (ds @ r) = Some (read_digits ds, r)"
    using takeWhile_all_append [OF assms(2,3)] assms(1) by (simp add: Let_def)
  ultimately show ?thesis using ds by (simp add: scan_decimal_def)
qed

text \<open>Zero-padded decimals.\<close>

definition pad :: "nat \<Rightarrow> nat \<Rightarrow> string" where
  "pad w n = (let s = show_nat n in replicate (w - length s) (CHR ''0'') @ s)"

lemma read_digits_zeros: "read_digits (replicate k (CHR ''0'') @ s) = read_digits s"
  by (induction k) (simp_all add: read_digits_def digit_val_def)

lemma read_pad [simp]: "read_digits (pad w n) = n"
  by (simp add: pad_def Let_def read_digits_zeros)

lemma pad_digits: "c \<in> set (pad w n) \<Longrightarrow> is_digit c"
  by (auto simp: pad_def Let_def show_nat_digits is_digit_def dest: show_nat_digits split: if_splits)

lemma pad_nonempty [simp]: "pad w n \<noteq> []"
  by (simp add: pad_def Let_def)

lemma length_show_nat: "n < 10 ^ k \<Longrightarrow> 0 < k \<Longrightarrow> length (show_nat n) \<le> k"
proof (induction k arbitrary: n)
  case (Suc k)
  show ?case
  proof (cases "n < 10")
    case True
    then show ?thesis by (subst show_nat.simps) simp
  next
    case False
    with Suc.prems have "n div 10 < 10 ^ k" "0 < k" by (auto intro: gr0I)
    with False Suc.IH [of "n div 10"] show ?thesis by (subst show_nat.simps) simp
  qed
qed simp

lemma length_pad: "n < 10 ^ w \<Longrightarrow> 0 < w \<Longrightarrow> length (pad w n) = w"
  using length_show_nat [of n w] by (simp add: pad_def Let_def)

lemma scan_pad: "r = [] \<or> \<not> is_digit (hd r) \<Longrightarrow> scan_decimal (pad w n @ r) = Some (int n, r)"
  using scan_decimal_digits [of "pad w n" r] by (auto dest: pad_digits)

text \<open>\<open>std::string::substr\<close>.\<close>

definition substr :: "string \<Rightarrow> nat \<Rightarrow> nat \<Rightarrow> string option" where
  "substr s pos n = (if length s < pos then None else Some (take n (drop pos s)))"

text \<open>Length of a position search: \<open>std::string::find\<close> of a character.\<close>

fun find_char :: "char \<Rightarrow> string \<Rightarrow> nat option" where
  "find_char c [] = None"
| "find_char c (d # s) = (if c = d then Some 0 else map_option Suc (find_char c s))"

lemma find_char_None: "find_char c s = None \<longleftrightarrow> c \<notin> set s"
  by (induction s) auto

lemma find_char_append: "c \<notin> set s \<Longrightarrow> find_char c (s @ c # r) = Some (length s)"
  by (induction s) auto

lemma find_char_Some:
  "find_char c s = Some i \<Longrightarrow> i < length s \<and> s ! i = c \<and> c \<notin> set (take i s)"
  by (induction s arbitrary: i) (auto split: if_splits)

end
