(* ===== verification/ErrorHandling.thy ===== *)
theory ErrorHandling
  imports Prelude
begin

text \<open>
  \<open>utilLib/include/common/errorHandling.h\<close>: severities, the exceptions the program defines
  with \<open>DEFINE_EXCEPTION\<close>, their messages and stored parameters, and the table of scan error
  names.  The type \<open>fault\<close> is the left side of every fallible computation of the
  development: an exception of the program, one of the standard library, one a third-party
  library raises, or an operation whose behaviour C++ leaves undefined.  \<open>NonFinite\<close> marks a
  double that is infinite or not a number: the code goes on with it, the model, which
  idealises doubles as real numbers, stops.
\<close>

section \<open>Severities\<close>

datatype Severity = Sev_info | Sev_warning | Sev_error | Sev_fatal

definition kSevToStr :: "string list" where
  "kSevToStr = [''info'', ''warning'', ''error'', ''fatal'']"

definition kStrToSev :: "(string \<times> Severity) list" where
  "kStrToSev =
    [(''info'', Sev_info), (''warning'', Sev_warning), (''error'', Sev_error), (''fatal'', Sev_fatal)]"

text \<open>\<open>static_cast<unsigned long>(sev)\<close>.\<close>

fun sev_index :: "Severity \<Rightarrow> nat" where
  "sev_index Sev_info = 0"
| "sev_index Sev_warning = 1"
| "sev_index Sev_error = 2"
| "sev_index Sev_fatal = 3"

section \<open>Scan error names\<close>

text \<open>
  \<open>ScanErrorCode\<close> is scnlib's error enumeration; the code uses its underlying value as an
  index and its last enumerator \<open>max_error\<close>.
\<close>

definition ScanErrorStrings :: "string list" where
  "ScanErrorStrings =
    [''end_of_input'', ''invalid_format_string'', ''invalid_scanned_value'', ''invalid_literal'',
     ''invalid_fill'', ''length_too_short'', ''invalid_source_state'', ''value_positive_overflow'',
     ''value_negative_overflow'', ''value_positive_underflow'', ''value_negative_underflow'',
     ''max_error'']"

section \<open>Exceptions\<close>

text \<open>
  One constructor per class, with the constructor arguments; integers of any width are given
  by their value.  \<open>PlainException\<close> is \<open>MyException\<close> built from a message only, whose
  severity the code leaves unset.
\<close>

datatype my_exception =
    InvalidOption string
  | outOfRange int int int
  | zeroSize string
  | ioError string
  | mismatchedSizes int int
  | invalidSizes2 int int
  | RowDivisionError int int
  | HttpError int string
  | CurlError string
  | SQL_ERROR string string string
  | Already_Connected string string
  | Broken_Connection string string
  | ScanningError nat string
  | PlainException string

datatype std_exception =
    invalid_argument string
  | logic_error string
  | runtime_error string
  | out_of_range string
  | bad_variant_access
  | bad_optional_access

datatype fault =
    Thrown my_exception
  | Std std_exception
  | Library string
  | UB string
  | NonFinite string

definition ScanErrorCodeToString :: "nat \<Rightarrow> fault + string" where
  "ScanErrorCodeToString index =
    (if index \<le> length ScanErrorStrings
     then (if index < length ScanErrorStrings then Inr (ScanErrorStrings ! index)
           else Inl (UB ''array index out of bounds''))
     else Inr ''unknown_error'')"

text \<open>The parameter tuple \<open>args_\<close>: \<open>long\<close> and \<open>std::size_t\<close> members wrap to 64 bits.\<close>

datatype exc_param = P_long int | P_size int | P_str string | P_code nat

definition to_long :: "int \<Rightarrow> int" where
  "to_long i = sint (word_of_int i :: u64)"

definition to_size_t :: "int \<Rightarrow> int" where
  "to_size_t i = uint (word_of_int i :: u64)"

fun getParams :: "my_exception \<Rightarrow> exc_param list" where
  "getParams (InvalidOption s) = [P_str s]"
| "getParams (outOfRange v lo hi) = [P_long (to_long v), P_long (to_long lo), P_long (to_long hi)]"
| "getParams (zeroSize s) = [P_str s]"
| "getParams (ioError s) = [P_str s]"
| "getParams (mismatchedSizes a b) = [P_long (to_long a), P_long (to_long b)]"
| "getParams (invalidSizes2 a b) = [P_long (to_long a), P_long (to_long b)]"
| "getParams (RowDivisionError n r) = [P_size (to_size_t n), P_size (to_size_t r)]"
| "getParams (HttpError c r) = [P_long (to_long c), P_str r]"
| "getParams (CurlError s) = [P_str s]"
| "getParams (SQL_ERROR a b c) = [P_str a, P_str b, P_str c]"
| "getParams (Already_Connected s c) = [P_str s, P_str c]"
| "getParams (Broken_Connection s c) = [P_str s, P_str c]"
| "getParams (ScanningError c m) = [P_code c, P_str m]"
| "getParams (PlainException m) = []"

text \<open>
  The message: the format string of the class applied to the arguments as passed.  A code
  that \<open>ScanErrorCodeToString\<close> cannot read leaves the message undefined.
\<close>

fun fmt_string :: "my_exception \<Rightarrow> string" where
  "fmt_string (InvalidOption _) = ''Option {} does not exist!''"
| "fmt_string (outOfRange _ _ _) = ''Value {} is out of range[{},{}]!''"
| "fmt_string (zeroSize _) = ''Zero collection {} size!''"
| "fmt_string (ioError _) = ''Io error state:{}!''"
| "fmt_string (mismatchedSizes _ _) =
     ''Mismatched container sizes for input : a.size = {}, b.size() = {} !''"
| "fmt_string (invalidSizes2 _ _) = ''Invalid sizes sz1 = {}, sz2 = {} received!''"
| "fmt_string (RowDivisionError _ _) =
     ''The total collection size {} cannot be evenly divided by the specified number of rows {}.''"
| "fmt_string (HttpError _ _) = ''HTTP error: code {} , reason \"{}\" !''"
| "fmt_string (CurlError _) = ''Curl error: \"{}\" !''"
| "fmt_string (SQL_ERROR _ _ _) = ''SQL Error: {}. Query: {}. SQL State: {}!''"
| "fmt_string (Already_Connected _ _) = ''Service {} is already connected to {}!''"
| "fmt_string (Broken_Connection _ _) = ''Service {} is unable to connect to {}!''"
| "fmt_string (ScanningError _ _) = ''Scanning error! Reason = \"{}\" Message = \"{}\"!''"
| "fmt_string (PlainException m) = m"

fun exc_args :: "my_exception \<Rightarrow> fault + string list" where
  "exc_args (InvalidOption s) = Inr [s]"
| "exc_args (outOfRange v lo hi) = Inr [show_int v, show_int lo, show_int hi]"
| "exc_args (zeroSize s) = Inr [s]"
| "exc_args (ioError s) = Inr [s]"
| "exc_args (mismatchedSizes a b) = Inr [show_int a, show_int b]"
| "exc_args (invalidSizes2 a b) = Inr [show_int a, show_int b]"
| "exc_args (RowDivisionError n r) = Inr [show_int n, show_int r]"
| "exc_args (HttpError c r) = Inr [show_int c, r]"
| "exc_args (CurlError s) = Inr [s]"
| "exc_args (SQL_ERROR a b c) = Inr [a, b, c]"
| "exc_args (Already_Connected s c) = Inr [s, c]"
| "exc_args (Broken_Connection s c) = Inr [s, c]"
| "exc_args (ScanningError c m) = rbind (ScanErrorCodeToString c) (\<lambda>s. Inr [s, m])"
| "exc_args (PlainException m) = Inr []"

definition exc_what :: "my_exception \<Rightarrow> fault + string" where
  "exc_what e =
    (case e of PlainException m \<Rightarrow> Inr m
     | _ \<Rightarrow> rbind (exc_args e) (\<lambda>args. Inr (fmt_format (fmt_string e) args)))"

fun declared_severity :: "my_exception \<Rightarrow> Severity option" where
  "declared_severity (RowDivisionError _ _) = Some Sev_error"
| "declared_severity (PlainException _) = None"
| "declared_severity _ = Some Sev_info"

text \<open>The exception object: its message and the mutable severity \<open>m_sev_\<close>.\<close>

record MyException =
  exc_of :: my_exception
  m_sev :: "Severity option"

definition make_MyException :: "my_exception \<Rightarrow> MyException" where
  "make_MyException e = \<lparr>exc_of = e, m_sev = declared_severity e\<rparr>"

definition SetSeverity :: "Severity \<Rightarrow> MyException \<Rightarrow> MyException" where
  "SetSeverity s e = e\<lparr>m_sev := Some s\<rparr>"

definition getSev :: "MyException \<Rightarrow> fault + Severity" where
  "getSev e = of_opt (UB ''read of an uninitialised severity'') (m_sev e)"

section \<open>Facts\<close>

text \<open>\<open>max_error\<close> is the last valid code, with value 11.\<close>

lemma ScanErrorCodeToString_valid:
  "index \<le> 11 \<Longrightarrow> ScanErrorCodeToString index = Inr (ScanErrorStrings ! index)"
  by (simp add: ScanErrorCodeToString_def ScanErrorStrings_def)

lemma ScanErrorCodeToString_12: "ScanErrorCodeToString 12 = Inl (UB ''array index out of bounds'')"
  by (simp add: ScanErrorCodeToString_def ScanErrorStrings_def)

lemma ScanErrorCodeToString_unknown:
  "12 < index \<Longrightarrow> ScanErrorCodeToString index = Inr ''unknown_error''"
  by (simp add: ScanErrorCodeToString_def ScanErrorStrings_def)

lemma kSevToStr_kStrToSev: "map_of kStrToSev (kSevToStr ! sev_index s) = Some s"
  by (cases s) (simp_all add: kStrToSev_def kSevToStr_def)

lemma to_long_small [simp]: "- (2 ^ 63) \<le> i \<Longrightarrow> i < 2 ^ 63 \<Longrightarrow> to_long i = i"
  by (simp add: to_long_def sint_sbintrunc' signed_take_bit_int_eq_self)

text \<open>
  Every exception the code builds with a scan code that scnlib defines has a defined message.
\<close>

lemma exc_what_defined:
  assumes "\<And>c m. e = ScanningError c m \<Longrightarrow> c \<le> 11"
  shows "\<exists>s. exc_what e = Inr s"
  using assms by (cases e) (auto simp: exc_what_def ScanErrorCodeToString_valid)

end
