(* ===== verification/ConnectionString.thy ===== *)
theory ConnectionString
  imports ErrorHandling
begin

text \<open>
  \<open>connectionString.h/.cpp\<close>: the PostgreSQL and AMQP connection strings.  An object keeps
  its fields and the formatted text, which every setter recomputes.  \<open>FromString\<close> reads the
  fields back through scnlib, a third-party scanner that is an argument here; the locale
  \<open>scn_laws\<close> states what it does with the two format strings of the code, and
  \<open>scan_model\<close> is an executable scanner with that behaviour.
\<close>

section \<open>The scanner\<close>

datatype scn_kind = K_string | K_uint

datatype scn_value = SV_string string | SV_uint u32

text \<open>A failed scan gives scnlib's error code (by value) and message.\<close>

type_synonym scn_scan = "string \<Rightarrow> string \<Rightarrow> scn_kind list \<Rightarrow> (nat \<times> string) + scn_value list"

definition pg_format :: string where
  "pg_format = ''postgresql   {} {} {} {} {}''"

definition pg_kinds :: "scn_kind list" where
  "pg_kinds = [K_string, K_string, K_string, K_uint, K_string]"

definition amqp_format :: string where
  "amqp_format = ''{}   {} {} {} {} ''"

definition amqp_kinds :: "scn_kind list" where
  "amqp_kinds = [K_string, K_string, K_string, K_string, K_string]"

definition word_text :: "string \<Rightarrow> bool" where
  "word_text s \<longleftrightarrow> s \<noteq> [] \<and> (\<forall>c\<in>set s. \<not> isspace c)"

locale scn_laws =
  fixes scan :: scn_scan
  assumes scan_pg:
    "word_text u \<Longrightarrow> word_text p \<Longrightarrow> word_text h \<Longrightarrow> word_text d \<Longrightarrow>
      scan (''postgresql   '' @ u @ '' '' @ p @ '' '' @ h @ '' '' @ show_nat (unat n) @ '' '' @ d)
        pg_format pg_kinds
      = Inr [SV_string u, SV_string p, SV_string h, SV_uint n, SV_string d]"
    and scan_amqp:
    "word_text c \<Longrightarrow> word_text u \<Longrightarrow> word_text p \<Longrightarrow> word_text h \<Longrightarrow> word_text d \<Longrightarrow>
      scan (c @ ''   '' @ u @ '' '' @ p @ '' '' @ h @ '' '' @ d @ '' '') amqp_format amqp_kinds
      = Inr [SV_string c, SV_string u, SV_string p, SV_string h, SV_string d]"
    and scan_amqp_short:
    "word_text c \<Longrightarrow> word_text u \<Longrightarrow> word_text p \<Longrightarrow> word_text h \<Longrightarrow>
      \<exists>msg. scan (c @ ''   '' @ u @ '' '' @ p @ '' '' @ h @ '' '') amqp_format amqp_kinds = Inl (0, msg)"

section \<open>Delimiters\<close>

definition kDelimiters :: string where
  "kDelimiters = ''/@:?&=#''"

definition UrlDecode :: "string \<Rightarrow> string" where
  "UrlDecode url = map (\<lambda>c. if c \<in> set kDelimiters then CHR '' '' else c) url"

section \<open>PostgreSQL\<close>

record PostgreSQLCStr =
  pg_formatted :: string
  pg_user :: string
  pg_password :: string
  pg_host :: string
  pg_dbname :: string
  pg_port :: u32

text \<open>The default constructor leaves the formatted string empty.\<close>

definition default_pg :: PostgreSQLCStr where
  "default_pg = \<lparr>pg_formatted = [], pg_user = [], pg_password = [], pg_host = [], pg_dbname = [],
     pg_port = 5432\<rparr>"

definition pg_UpdateFormat :: "PostgreSQLCStr \<Rightarrow> PostgreSQLCStr" where
  "pg_UpdateFormat c = c\<lparr>pg_formatted := fmt_format (''postgresql://{}:{}@'' @ ''{}:{}/{}'')
     [pg_user c, pg_password c, pg_host c, show_nat (unat (pg_port c)), pg_dbname c]\<rparr>"

definition make_pg :: "string \<Rightarrow> string \<Rightarrow> string \<Rightarrow> string \<Rightarrow> u32 \<Rightarrow> PostgreSQLCStr" where
  "make_pg user password host dbname port =
    pg_UpdateFormat \<lparr>pg_formatted = [], pg_user = user, pg_password = password, pg_host = host,
      pg_dbname = dbname, pg_port = port\<rparr>"

definition pg_SetUser :: "string \<Rightarrow> PostgreSQLCStr \<Rightarrow> PostgreSQLCStr" where
  "pg_SetUser v c = pg_UpdateFormat (c\<lparr>pg_user := v\<rparr>)"

definition pg_SetPassword :: "string \<Rightarrow> PostgreSQLCStr \<Rightarrow> PostgreSQLCStr" where
  "pg_SetPassword v c = pg_UpdateFormat (c\<lparr>pg_password := v\<rparr>)"

definition pg_SetHost :: "string \<Rightarrow> PostgreSQLCStr \<Rightarrow> PostgreSQLCStr" where
  "pg_SetHost v c = pg_UpdateFormat (c\<lparr>pg_host := v\<rparr>)"

definition pg_SetPort :: "u32 \<Rightarrow> PostgreSQLCStr \<Rightarrow> PostgreSQLCStr" where
  "pg_SetPort v c = pg_UpdateFormat (c\<lparr>pg_port := v\<rparr>)"

definition pg_SetDbname :: "string \<Rightarrow> PostgreSQLCStr \<Rightarrow> PostgreSQLCStr" where
  "pg_SetDbname v c = pg_UpdateFormat (c\<lparr>pg_dbname := v\<rparr>)"

definition pg_GetVerboseName :: "PostgreSQLCStr \<Rightarrow> string" where
  "pg_GetVerboseName c = fmt_format ''{}:{} db:{}'' [pg_host c, show_nat (unat (pg_port c)), pg_dbname c]"

definition pg_FromString :: "scn_scan \<Rightarrow> string \<Rightarrow> PostgreSQLCStr \<Rightarrow> fault + PostgreSQLCStr" where
  "pg_FromString scan s c =
    (case scan (UrlDecode s) pg_format pg_kinds of
       Inl (code, msg) \<Rightarrow> Inl (Thrown (ScanningError code msg))
     | Inr vs \<Rightarrow>
         (case vs of
            [SV_string user, SV_string password, SV_string host, SV_uint port, SV_string dbname] \<Rightarrow>
              Inr (pg_UpdateFormat (c\<lparr>pg_user := user, pg_password := password, pg_host := host,
                     pg_port := port, pg_dbname := dbname\<rparr>))
          | _ \<Rightarrow> Inl (Library ''scn::scan'')))"

section \<open>AMQP\<close>

record AMQPSQLCStr =
  am_formatted :: string
  am_host_port :: string
  am_user :: string
  am_password :: string
  am_secure :: bool

definition default_amqp :: AMQPSQLCStr where
  "default_amqp = \<lparr>am_formatted = [], am_host_port = [], am_user = [], am_password = [], am_secure = False\<rparr>"

definition am_UpdateFormat :: "AMQPSQLCStr \<Rightarrow> AMQPSQLCStr" where
  "am_UpdateFormat c = c\<lparr>am_formatted := fmt_format (''amqp{}://{}:{}@'' @ ''{}/'')
     [if am_secure c then ''s'' else [], am_user c, am_password c, am_host_port c]\<rparr>"

definition make_amqp :: "string \<Rightarrow> string \<Rightarrow> string \<Rightarrow> bool \<Rightarrow> AMQPSQLCStr" where
  "make_amqp host_port user password secure =
    am_UpdateFormat \<lparr>am_formatted = [], am_host_port = host_port, am_user = user,
      am_password = password, am_secure = secure\<rparr>"

definition am_SetHostPort :: "string \<Rightarrow> AMQPSQLCStr \<Rightarrow> AMQPSQLCStr" where
  "am_SetHostPort v c = am_UpdateFormat (c\<lparr>am_host_port := v\<rparr>)"

definition am_SetUser :: "string \<Rightarrow> AMQPSQLCStr \<Rightarrow> AMQPSQLCStr" where
  "am_SetUser v c = am_UpdateFormat (c\<lparr>am_user := v\<rparr>)"

definition am_SetPassword :: "string \<Rightarrow> AMQPSQLCStr \<Rightarrow> AMQPSQLCStr" where
  "am_SetPassword v c = am_UpdateFormat (c\<lparr>am_password := v\<rparr>)"

definition am_SetSecure :: "bool \<Rightarrow> AMQPSQLCStr \<Rightarrow> AMQPSQLCStr" where
  "am_SetSecure v c = am_UpdateFormat (c\<lparr>am_secure := v\<rparr>)"

definition am_GetVerboseName :: "AMQPSQLCStr \<Rightarrow> string" where
  "am_GetVerboseName c = fmt_format ''{} secure:{}'' [am_host_port c, if am_secure c then ''1'' else ''0'']"

definition am_FromString :: "scn_scan \<Rightarrow> string \<Rightarrow> AMQPSQLCStr \<Rightarrow> fault + AMQPSQLCStr" where
  "am_FromString scan s a =
    (case scan (UrlDecode s) amqp_format amqp_kinds of
       Inl (code, msg) \<Rightarrow> Inl (Thrown (ScanningError code msg))
     | Inr vs \<Rightarrow>
         (case vs of
            [SV_string c, SV_string user, SV_string password, SV_string host, SV_string port] \<Rightarrow>
              if c = [] then Inl (UB ''back() of an empty string'')
              else Inr (am_UpdateFormat (a\<lparr>am_user := user, am_password := password,
                     am_host_port := host @ '':'' @ port, am_secure := (last c = CHR ''s'')\<rparr>))
          | _ \<Rightarrow> Inl (Library ''scn::scan'')))"

text \<open>\<open>AbstractConnectionString::operator==\<close> compares the formatted strings.\<close>

definition pg_eq :: "PostgreSQLCStr \<Rightarrow> PostgreSQLCStr \<Rightarrow> bool" where
  "pg_eq a b \<longleftrightarrow> pg_formatted a = pg_formatted b"

definition am_eq :: "AMQPSQLCStr \<Rightarrow> AMQPSQLCStr \<Rightarrow> bool" where
  "am_eq a b \<longleftrightarrow> am_formatted a = am_formatted b"

section \<open>The contract of a connection string\<close>

text \<open>
  \<open>render\<close> is the text the fields denote.  An object is in step when its stored text is the
  rendering of its fields; whatever ends with \<open>UpdateFormat\<close> establishes that.
\<close>

locale connection_string =
  fixes stored :: "'c \<Rightarrow> string" and UpdateFormat :: "'c \<Rightarrow> 'c" and render :: "'c \<Rightarrow> string"
  assumes stored_update: "stored (UpdateFormat c) = render c"
    and render_update: "render (UpdateFormat c) = render c"
begin

definition in_step :: "'c \<Rightarrow> bool" where
  "in_step c \<longleftrightarrow> stored c = render c"

lemma in_step_update [simp]: "in_step (UpdateFormat c)"
  by (simp add: in_step_def stored_update render_update)

lemma stored_update_idem: "stored (UpdateFormat (UpdateFormat c)) = stored (UpdateFormat c)"
  by (simp add: stored_update render_update)

lemma in_step_eq: "in_step a \<Longrightarrow> in_step b \<Longrightarrow> stored a = stored b \<longleftrightarrow> render a = render b"
  by (simp add: in_step_def)

end

definition pg_render :: "PostgreSQLCStr \<Rightarrow> string" where
  "pg_render c = ''postgresql://'' @ pg_user c @ '':'' @ pg_password c @ ''@'' @ pg_host c @ '':''
     @ show_nat (unat (pg_port c)) @ ''/'' @ pg_dbname c"

definition am_render :: "AMQPSQLCStr \<Rightarrow> string" where
  "am_render c = ''amqp'' @ (if am_secure c then ''s'' else []) @ ''://'' @ am_user c @ '':''
     @ am_password c @ ''@'' @ am_host_port c @ ''/''"

interpretation pg: connection_string pg_formatted pg_UpdateFormat pg_render
  by unfold_locales (simp_all add: pg_UpdateFormat_def pg_render_def)

interpretation am: connection_string am_formatted am_UpdateFormat am_render
  by unfold_locales (simp_all add: am_UpdateFormat_def am_render_def)

section \<open>An executable scanner\<close>

definition scan_word :: "string \<Rightarrow> string \<times> string" where
  "scan_word s = (takeWhile (\<lambda>c. \<not> isspace c) (skip_ws s), dropWhile (\<lambda>c. \<not> isspace c) (skip_ws s))"

definition scan_uint :: "string \<Rightarrow> (nat \<times> string) + (scn_value \<times> string)" where
  "scan_uint s =
    (let t = skip_ws s; d = takeWhile is_digit t
     in if t = [] then Inl (0, ''EOF'') else if d = [] then Inl (2, ''invalid value'')
        else if 2 ^ 32 \<le> read_digits d then Inl (7, ''out of range'')
        else Inr (SV_uint (of_nat (read_digits d)), dropWhile is_digit t))"

definition scan_value :: "scn_kind \<Rightarrow> string \<Rightarrow> (nat \<times> string) + (scn_value \<times> string)" where
  "scan_value k s =
    (case k of
       K_uint \<Rightarrow> scan_uint s
     | K_string \<Rightarrow> (case scan_word s of (w, r) \<Rightarrow>
         if w = [] then Inl (0, ''EOF'') else Inr (SV_string w, r)))"

fun scan_fmt :: "string \<Rightarrow> string \<Rightarrow> scn_kind list \<Rightarrow> (nat \<times> string) + scn_value list" where
  "scan_fmt [] s ks = Inr []"
| "scan_fmt (c # f) s ks =
    (if c = CHR ''{'' then
       (case ks of [] \<Rightarrow> Inl (1, ''argument missing'')
        | k # ks' \<Rightarrow> rbind (scan_value k s) (\<lambda>(v, r). rbind (scan_fmt (drop 1 f) r ks') (\<lambda>vs. Inr (v # vs))))
     else if isspace c then scan_fmt f (skip_ws s) ks
     else (case s of [] \<Rightarrow> Inl (0, ''EOF'')
           | d # s' \<Rightarrow> if c = d then scan_fmt f s' ks else Inl (3, ''literal mismatch'')))"

definition scan_model :: scn_scan where
  "scan_model s f ks = scan_fmt f s ks"

lemma isspace_space [simp]: "isspace CHR '' ''"
  by (simp add: isspace_def)

lemma skip_ws_space [simp]: "skip_ws (CHR '' '' # s) = skip_ws s"
  by (simp add: skip_ws_def)

lemma skip_ws_Nil [simp]: "skip_ws [] = []"
  by (simp add: skip_ws_def)

lemma skip_ws_word_text [simp]: "word_text w \<Longrightarrow> skip_ws (w @ s) = w @ s"
  by (cases w) (simp_all add: word_text_def skip_ws_def)

lemma scan_word_text:
  assumes "word_text w" and "s = [] \<or> isspace (hd s)"
  shows "scan_word (w @ s) = (w, s)"
  using assms takeWhile_all_append [of w "\<lambda>c. \<not> isspace c" s]
  by (auto simp: scan_word_def word_text_def skip_ws_word_text [OF assms(1)])

lemma scan_value_text:
  assumes "word_text w" and "s = [] \<or> isspace (hd s)"
  shows "scan_value K_string (w @ s) = Inr (SV_string w, s)"
  using scan_word_text [OF assms] assms(1) by (simp add: scan_value_def word_text_def)

lemma scan_value_last: "word_text w \<Longrightarrow> scan_value K_string w = Inr (SV_string w, [])"
  using scan_value_text [of w "[]"] by simp

lemma scan_value_empty [simp]: "scan_value K_string [] = Inl (0, ''EOF'')"
  by (simp add: scan_value_def scan_word_def)

lemma show_nat_word: "word_text (show_nat n)"
  by (auto simp: word_text_def dest: show_nat_digits digit_not_space)

lemma scan_value_uint:
  assumes "s = [] \<or> isspace (hd s)"
  shows "scan_value K_uint (show_nat (unat (n :: u32)) @ s) = Inr (SV_uint n, s)"
proof -
  have d: "\<forall>c\<in>set (show_nat (unat n)). is_digit c" using show_nat_digits by blast
  have s: "s = [] \<or> \<not> is_digit (hd s)" using assms digit_not_space by blast
  have "unat n < 2 ^ 32" using unsigned_less [of n] by simp
  then show ?thesis
    using takeWhile_all_append [OF d s] show_nat_word [of "unat n"]
    by (simp add: scan_value_def scan_uint_def Let_def)
qed

lemmas scan_simps = scan_value_text scan_value_last scan_value_uint scan_value_empty

interpretation scan_model: scn_laws scan_model
proof
  fix u p h d c :: string and n :: u32
  assume u: "word_text u" and p: "word_text p" and h: "word_text h"
  note uph = scan_value_text [OF u] scan_value_text [OF p] scan_value_text [OF h]
    skip_ws_word_text [OF u] skip_ws_word_text [OF p] skip_ws_word_text [OF h]
  have lit: "\<not> isspace CHR ''p''" "\<not> isspace CHR ''o''" "\<not> isspace CHR ''s''" "\<not> isspace CHR ''t''"
    "\<not> isspace CHR ''g''" "\<not> isspace CHR ''r''" "\<not> isspace CHR ''e''" "\<not> isspace CHR ''q''"
    "\<not> isspace CHR ''l''" by (simp_all add: isspace_def)
  {
    assume d: "word_text d"
    show "scan_model (''postgresql   '' @ u @ '' '' @ p @ '' '' @ h @ '' '' @ show_nat (unat n) @ '' '' @ d)
        pg_format pg_kinds = Inr [SV_string u, SV_string p, SV_string h, SV_uint n, SV_string d]"
      using scan_value_last [OF d] skip_ws_word_text [OF d, of "[]"]
      by (simp add: scan_model_def pg_format_def pg_kinds_def lit uph scan_value_uint
          skip_ws_word_text [OF show_nat_word])
  }
  {
    assume c: "word_text c" and d: "word_text d"
    show "scan_model (c @ ''   '' @ u @ '' '' @ p @ '' '' @ h @ '' '' @ d @ '' '') amqp_format amqp_kinds
        = Inr [SV_string c, SV_string u, SV_string p, SV_string h, SV_string d]"
      by (simp add: scan_model_def amqp_format_def amqp_kinds_def uph scan_value_text [OF c]
          scan_value_text [OF d] skip_ws_word_text [OF d])
  }
  {
    assume c: "word_text c"
    show "\<exists>msg. scan_model (c @ ''   '' @ u @ '' '' @ p @ '' '' @ h @ '' '') amqp_format amqp_kinds = Inl (0, msg)"
      by (simp add: scan_model_def amqp_format_def amqp_kinds_def uph scan_value_text [OF c])
  }
qed

section \<open>Reading back\<close>

text \<open>A clean field is a non-empty word without whitespace and without URL delimiters.\<close>

definition clean :: "string \<Rightarrow> bool" where
  "clean s \<longleftrightarrow> word_text s \<and> (\<forall>c\<in>set s. c \<notin> set kDelimiters)"

lemma clean_word: "clean s \<Longrightarrow> word_text s"
  by (simp add: clean_def)

lemma UrlDecode_append [simp]: "UrlDecode (a @ b) = UrlDecode a @ UrlDecode b"
  by (simp add: UrlDecode_def)

lemma UrlDecode_clean [simp]: "clean s \<Longrightarrow> UrlDecode s = s"
  by (auto simp: UrlDecode_def clean_def intro: map_idI)

lemma UrlDecode_length [simp]: "length (UrlDecode s) = length s"
  by (simp add: UrlDecode_def)

lemma UrlDecode_no_delimiter: "c \<in> set kDelimiters \<Longrightarrow> c \<notin> set (UrlDecode s)"
  by (auto simp: UrlDecode_def kDelimiters_def)

lemma UrlDecode_lits:
  "UrlDecode ''postgresql://'' = ''postgresql   ''" "UrlDecode '':'' = '' ''" "UrlDecode ''@'' = '' ''"
  "UrlDecode ''/'' = '' ''" "UrlDecode ''amqp://'' = ''amqp   ''" "UrlDecode ''amqps://'' = ''amqps   ''"
  by (simp_all add: UrlDecode_def kDelimiters_def)

lemma digit_not_delimiter: "is_digit c \<Longrightarrow> c \<notin> set kDelimiters"
  by (auto simp: is_digit_def kDelimiters_def)

lemma clean_show_nat [simp]: "clean (show_nat n)"
  using show_nat_word [of n] by (auto simp: clean_def dest: show_nat_digits digit_not_delimiter)

definition clean_pg :: "PostgreSQLCStr \<Rightarrow> bool" where
  "clean_pg c \<longleftrightarrow> clean (pg_user c) \<and> clean (pg_password c) \<and> clean (pg_host c) \<and> clean (pg_dbname c)"

lemma pg_FromString_render:
  assumes "scn_laws scan" and "clean_pg c"
  shows "pg_FromString scan (pg_render c) c0 = Inr (pg_UpdateFormat c)"
proof -
  have "UrlDecode (pg_render c) = ''postgresql   '' @ pg_user c @ '' '' @ pg_password c @ '' ''
      @ pg_host c @ '' '' @ show_nat (unat (pg_port c)) @ '' '' @ pg_dbname c"
    using assms(2) UrlDecode_lits unfolding pg_render_def clean_pg_def by (simp only: UrlDecode_append
      UrlDecode_clean clean_show_nat)
  then show ?thesis
    using assms scn_laws.scan_pg [OF assms(1), of "pg_user c" "pg_password c" "pg_host c" "pg_dbname c" "pg_port c"]
    by (simp add: pg_FromString_def clean_pg_def clean_word pg_UpdateFormat_def)
qed

definition amqp_scheme :: "bool \<Rightarrow> string" where
  "amqp_scheme b = (if b then ''amqps'' else ''amqp'')"

lemma amqp_scheme_word: "word_text (amqp_scheme b)"
  by (simp add: word_text_def amqp_scheme_def isspace_def)

lemma UrlDecode_am_render:
  assumes "clean (am_user c)" and "clean (am_password c)"
  shows "UrlDecode (am_render c) = amqp_scheme (am_secure c) @ ''   '' @ am_user c @ '' '' @ am_password c
    @ '' '' @ UrlDecode (am_host_port c) @ '' ''"
proof -
  have "am_render c = (if am_secure c then ''amqps://'' else ''amqp://'') @ am_user c @ '':''
     @ am_password c @ ''@'' @ am_host_port c @ ''/''"
    by (simp add: am_render_def)
  then show ?thesis using assms
    by (cases "am_secure c")
      (simp_all only: UrlDecode_append UrlDecode_clean UrlDecode_lits amqp_scheme_def if_True if_False
        append_assoc, simp_all)
qed

lemma am_FromString_render:
  assumes "scn_laws scan" and "clean (am_user c)" and "clean (am_password c)"
    and "am_host_port c = host @ '':'' @ port" and "clean host" and "clean port"
  shows "am_FromString scan (am_render c) c0 = Inr (am_UpdateFormat c)"
proof -
  have "UrlDecode (am_render c) = amqp_scheme (am_secure c) @ ''   '' @ am_user c @ '' '' @ am_password c
      @ '' '' @ host @ '' '' @ port @ '' ''"
    using UrlDecode_am_render [OF assms(2,3)] assms(5,6) UrlDecode_lits(2)
    by (simp only: assms(4) UrlDecode_append UrlDecode_clean append_assoc)
  then show ?thesis
    using assms scn_laws.scan_amqp [OF assms(1) amqp_scheme_word, of "am_user c" "am_password c" host port "am_secure c"]
    by (simp add: am_FromString_def clean_word am_UpdateFormat_def amqp_scheme_def)
qed

lemma am_FromString_no_port:
  assumes "scn_laws scan" and "clean (am_user c)" and "clean (am_password c)" and "clean (am_host_port c)"
  shows "\<exists>msg. am_FromString scan (am_render c) c0 = Inl (Thrown (ScanningError 0 msg))"
proof -
  obtain msg where "scan (UrlDecode (am_render c)) amqp_format amqp_kinds = Inl (0, msg)"
    using scn_laws.scan_amqp_short [OF assms(1) amqp_scheme_word clean_word clean_word clean_word,
        OF assms(2,3,4), of "am_secure c"] assms
    by (auto simp: UrlDecode_am_render)
  then show ?thesis by (simp add: am_FromString_def)
qed

lemma pg_update_self: "pg.in_step c \<Longrightarrow> pg_UpdateFormat c = c"
  by (cases c) (simp add: pg.in_step_def pg_UpdateFormat_def pg_render_def)

lemma am_update_self: "am.in_step a \<Longrightarrow> am_UpdateFormat a = a"
  by (cases a) (simp add: am.in_step_def am_UpdateFormat_def am_render_def)

lemma pg_FromString_self:
  assumes "scn_laws scan" and "pg.in_step c" and "clean_pg c"
  shows "pg_FromString scan (pg_formatted c) c0 = Inr c"
  using pg_FromString_render [OF assms(1,3), of c0] pg_update_self [OF assms(2)]
  by (simp only: assms(2) [unfolded pg.in_step_def])

lemma setters_in_step_pg: "pg.in_step (make_pg u p h d n)"
  by (simp add: make_pg_def)

section \<open>Properties\<close>

text \<open>Whatever setter is called last, the stored text is the rendering of the object's fields,
for both kinds of connection string.\<close>

theorem setters_in_step:
  "pg.in_step (make_pg u p h d n) \<and> pg.in_step (pg_SetUser v c) \<and> pg.in_step (pg_SetPassword v c) \<and>
   pg.in_step (pg_SetHost v c) \<and> pg.in_step (pg_SetDbname v c) \<and> pg.in_step (pg_SetPort n c) \<and>
   am.in_step (make_amqp h u p b) \<and> am.in_step (am_SetUser v a) \<and> am.in_step (am_SetPassword v a) \<and>
   am.in_step (am_SetHostPort v a) \<and> am.in_step (am_SetSecure b a)"
  by (simp_all add: make_pg_def pg_SetUser_def pg_SetPassword_def pg_SetHost_def pg_SetDbname_def
      pg_SetPort_def make_amqp_def am_SetUser_def am_SetPassword_def am_SetHostPort_def am_SetSecure_def)

text \<open>C8: parsing the text of a connection string restores every field when the fields are
non-empty words without URL delimiters; an AMQP string also needs a port, and one without it
(the main node builds such strings) is refused with a scanning error.\<close>

theorem connection_string_round_trip:
  assumes "scn_laws scan"
  shows "(pg.in_step c \<and> clean_pg c \<longrightarrow> pg_FromString scan (pg_formatted c) c0 = Inr c) \<and>
    (am.in_step a \<and> clean (am_user a) \<and> clean (am_password a) \<and>
      am_host_port a = host @ '':'' @ port \<and> clean host \<and> clean port \<longrightarrow>
      am_FromString scan (am_formatted a) a0 = Inr a) \<and>
    (am.in_step a \<and> clean (am_user a) \<and> clean (am_password a) \<and> clean (am_host_port a) \<longrightarrow>
      (\<exists>msg. am_FromString scan (am_formatted a) a0 = Inl (Thrown (ScanningError 0 msg))))"
proof (intro conjI impI; elim conjE)
  show "pg_FromString scan (pg_formatted c) c0 = Inr c" if "pg.in_step c" "clean_pg c"
    by (rule pg_FromString_self [OF assms that])
  show "am_FromString scan (am_formatted a) a0 = Inr a"
    if "am.in_step a" "clean (am_user a)" "clean (am_password a)" "am_host_port a = host @ '':'' @ port"
      "clean host" "clean port"
    using am_FromString_render [OF assms that(2-6), of a0] am_update_self [OF that(1)]
    by (simp only: that(1) [unfolded am.in_step_def])
  show "\<exists>msg. am_FromString scan (am_formatted a) a0 = Inl (Thrown (ScanningError 0 msg))"
    if "am.in_step a" "clean (am_user a)" "clean (am_password a)" "clean (am_host_port a)"
    using am_FromString_no_port [OF assms that(2-4)] that(1) by (simp add: am.in_step_def)
qed

lemma clean_sample: "clean_pg (make_pg ''u'' ''p'' ''h'' ''db'' n)"
  by (simp add: clean_pg_def make_pg_def pg_UpdateFormat_def clean_def word_text_def isspace_def
      kDelimiters_def)

theorem connection_string_round_trip_witness:
  "pg_FromString scan_model (pg_formatted (make_pg ''u'' ''p'' ''h'' ''db'' 5432)) default_pg
    = Inr (make_pg ''u'' ''p'' ''h'' ''db'' 5432)"
proof (rule connection_string_round_trip [OF scan_model.scn_laws_axioms, THEN conjunct1, THEN mp], rule conjI)
  show "pg.in_step (make_pg ''u'' ''p'' ''h'' ''db'' 5432)" by (simp add: make_pg_def)
qed (rule clean_sample)

text \<open>Comparison of PostgreSQL connection strings by their text decides equality of all
five fields, once both objects are in step and their fields are clean.\<close>

theorem pg_eq_fields:
  assumes "pg.in_step a" "pg.in_step b" "clean_pg a" "clean_pg b"
  shows "pg_eq a b \<longleftrightarrow> a = b"
proof
  assume "pg_eq a b"
  then have same: "pg_formatted a = pg_formatted b" by (simp only: pg_eq_def)
  have "Inr a = pg_FromString scan_model (pg_formatted a) default_pg"
    by (rule pg_FromString_self [OF scan_model.scn_laws_axioms assms(1,3), symmetric])
  also have "\<dots> = Inr b"
    unfolding same by (rule pg_FromString_self [OF scan_model.scn_laws_axioms assms(2,4)])
  finally show "a = b" by (rule sum.inject(2) [THEN iffD1])
qed (simp add: pg_eq_def)

theorem pg_eq_fields_witness:
  "pg_eq (make_pg ''u'' ''p'' ''h'' ''db'' 1) (make_pg ''u'' ''p'' ''h'' ''db'' 2)
    \<longleftrightarrow> make_pg ''u'' ''p'' ''h'' ''db'' 1 = make_pg ''u'' ''p'' ''h'' ''db'' 2"
  by (rule pg_eq_fields [OF setters_in_step_pg setters_in_step_pg clean_sample clean_sample])

end
