(* ===== verification/Amqp.thy ===== *)
theory Amqp
  imports ConnectionString
begin

text \<open>
  \<open>amqpCommon.h/.cpp\<close>, \<open>AMQPPublisherService\<close> and \<open>AMQPConsumerService\<close>: the connection
  life cycle of a RabbitMQ client.  \<open>Connect\<close> starts an event loop on a thread and blocks on
  a promise that the library's callbacks fulfil; \<open>Disconnect\<close> posts a close, joins the
  thread and drops the channel and connection.  The library (AMQP-CPP, Boost.Asio) is the
  environment: it calls the callbacks in any order while the loop's thread exists, except
  that it reports a connection as established only before it reports its end.  The steps of
  the client and of the environment are one transition relation; \<open>Reconnect\<close> and
  \<open>ServiceName\<close>, virtual in the code, are its parameters, and the locale \<open>amqp_client\<close> is
  the contract the two subclasses meet.
\<close>

section \<open>URLs\<close>

fun find_str :: "string \<Rightarrow> string \<Rightarrow> nat option" where
  "find_str p [] = (if p = [] then Some 0 else None)"
| "find_str p (c # s) =
    (if take (length p) (c # s) = p then Some 0 else map_option Suc (find_str p s))"

definition ExtractHost :: "string \<Rightarrow> string option" where
  "ExtractHost url =
    (case find_str ''://'' url of
       None \<Rightarrow> None
     | Some protocolEnd \<Rightarrow>
         let hostStart = protocolEnd + 3
         in if length url \<le> hostStart then None
            else Some (takeWhile (\<lambda>c. c \<notin> set '':/?'') (drop hostStart url)))"

definition ConstructCString :: "string \<Rightarrow> string \<Rightarrow> string \<Rightarrow> bool \<Rightarrow> string" where
  "ConstructCString host_port user password secure =
    am_formatted (make_amqp host_port user password secure)"

section \<open>State\<close>

text \<open>
  \<open>phase\<close> is where the client thread is: outside the service, blocked in
  \<open>connection_future.get()\<close>, blocked in \<open>join\<close> (with the error to throw afterwards, if
  any), or after \<open>std::terminate\<close>.  \<open>pending_close\<close> counts posted close handlers that the
  loop has not run.
\<close>

datatype client_phase = Idle | Waiting | Joining "string option" | Terminated

record service =
  handler_connected :: bool
  work :: bool
  has_connection :: bool
  has_channel :: bool
  c_string :: AMQPSQLCStr
  joinable :: bool
  promise_value :: "string option"
  promise_set :: bool
  callbacks :: bool
  pending_close :: nat
  phase :: client_phase

record 'm publisher = service +
  default_exchange :: string
  published :: "(string \<times> string \<times> 'm) list"

record 'm consumer = service +
  queue_name :: string
  message_callback :: "('m \<Rightarrow> fault + unit) option"
  consuming :: bool
  acked :: "u64 list"

definition new_service :: service where
  "new_service = \<lparr>handler_connected = False, work = False, has_connection = False,
     has_channel = False, c_string = default_amqp, joinable = False, promise_value = None,
     promise_set = False, callbacks = False, pending_close = 0, phase = Idle\<rparr>"

definition new_publisher :: "'m publisher" where
  "new_publisher = service.extend new_service \<lparr>default_exchange = [], published = []\<rparr>"

definition new_consumer :: "'m consumer" where
  "new_consumer = service.extend new_service
     \<lparr>queue_name = [], message_callback = None, consuming = False, acked = []\<rparr>"

section \<open>Handler callbacks\<close>

definition MyHandler_ResetLoop :: "'a service_scheme \<Rightarrow> 'a service_scheme" where
  "MyHandler_ResetLoop s = s\<lparr>work := False, handler_connected := False\<rparr>"

definition MyHandler_onClosed :: "'a service_scheme \<Rightarrow> 'a service_scheme" where
  "MyHandler_onClosed s = MyHandler_ResetLoop s"

definition MyHandler_onError :: "string \<Rightarrow> 'a service_scheme \<Rightarrow> 'a service_scheme" where
  "MyHandler_onError msg s = MyHandler_ResetLoop s"

definition MyHandler_onConnected :: "'a service_scheme \<Rightarrow> 'a service_scheme" where
  "MyHandler_onConnected s = s\<lparr>handler_connected := True\<rparr>"

text \<open>\<open>handler_\<close> is created in every constructor, so the null test always succeeds.\<close>

definition IsConnected :: "'a service_scheme \<Rightarrow> bool" where
  "IsConnected s = handler_connected s"

text \<open>\<open>std::promise::set_value\<close> throws when the promise already holds a value.\<close>

definition set_value :: "string \<Rightarrow> 'a service_scheme \<Rightarrow> fault + 'a service_scheme" where
  "set_value v s =
    (if promise_value s = None then Inr (s\<lparr>promise_value := Some v\<rparr>)
     else Inl (Library ''std::future_error: promise already satisfied''))"

text \<open>The body shared by the channel's error, ready and consume-success callbacks.\<close>

definition signal :: "string \<Rightarrow> 'a service_scheme \<Rightarrow> fault + 'a service_scheme" where
  "signal v s =
    (if \<not> promise_set s then rbind (set_value v s) (\<lambda>s'. Inr (s'\<lparr>promise_set := True\<rparr>)) else Inr s)"

section \<open>The operations of the base class\<close>

definition Connect_begin ::
    "(bool \<Rightarrow> 'a service_scheme \<Rightarrow> fault + 'a service_scheme) \<Rightarrow> string \<Rightarrow> bool \<Rightarrow>
     ('a service_scheme, fault, unit) action" where
  "Connect_begin Reconnect ServiceName ready = (\<lambda>s.
    if IsConnected s
    then (Inl (Thrown (Already_Connected ServiceName (am_formatted (c_string s)))), s)
    else let s1 = s\<lparr>work := True, promise_set := False, promise_value := None\<rparr>
         in case Reconnect ready s1 of
              Inl e \<Rightarrow> (Inl e, s1)
            | Inr s2 \<Rightarrow>
                if joinable s2 then (Inl (UB ''std::terminate''), s2\<lparr>phase := Terminated\<rparr>)
                else (Inr (), s2\<lparr>joinable := True, phase := Waiting\<rparr>))"

definition Disconnect_begin :: "string option \<Rightarrow> 'a service_scheme \<Rightarrow> 'a service_scheme" where
  "Disconnect_begin err s = s\<lparr>pending_close := pending_close s + 1, phase := Joining err\<rparr>"

text \<open>The end of \<open>Connect\<close>: an empty message is success, another one disconnects first.\<close>

definition Connect_end :: "string \<Rightarrow> 'a service_scheme \<Rightarrow> 'a service_scheme" where
  "Connect_end error s =
    (if error \<noteq> [] then Disconnect_begin (Some error) s else s\<lparr>phase := Idle\<rparr>)"

definition Disconnect_end :: "string option \<Rightarrow> ('a service_scheme, fault, unit) action" where
  "Disconnect_end err = (\<lambda>s.
    (case err of None \<Rightarrow> Inr () | Some e \<Rightarrow> Inl (Std (runtime_error e)),
     s\<lparr>joinable := False, work := False, has_channel := False, has_connection := False, phase := Idle\<rparr>))"

section \<open>The two subclasses\<close>

text \<open>\<open>ready\<close> is the answer of \<open>connection_->ready()\<close>.\<close>

definition open_channel :: "bool \<Rightarrow> 'a service_scheme \<Rightarrow> fault + 'a service_scheme" where
  "open_channel ready s =
    (if \<not> has_connection s \<or> \<not> ready
     then (if am_formatted (c_string s) = [] then Inl (Thrown (zeroSize ''c_string_''))
           else Inr (s\<lparr>has_connection := True, has_channel := True\<rparr>))
     else Inr s)"

definition pub_Reconnect :: "bool \<Rightarrow> 'm publisher \<Rightarrow> fault + 'm publisher" where
  "pub_Reconnect ready s =
    (if IsConnected s then Inr s
     else rbind (open_channel ready s)
       (\<lambda>s'. if has_channel s' then Inr (s'\<lparr>callbacks := True\<rparr>) else Inl (UB ''null channel'')))"

definition con_Reconnect :: "bool \<Rightarrow> 'm consumer \<Rightarrow> fault + 'm consumer" where
  "con_Reconnect ready s =
    (if IsConnected s then Inr s
     else rbind (open_channel ready s)
       (\<lambda>s'. if has_channel s' then Inr (s'\<lparr>callbacks := True, consuming := True\<rparr>)
             else Inl (UB ''null channel'')))"

definition pub_ServiceName :: string where
  "pub_ServiceName = ''AMQPPublisherService''"

definition con_ServiceName :: string where
  "con_ServiceName = ''AMQPConsumerService''"

definition pub_SetParameters :: "AMQPSQLCStr \<Rightarrow> string \<Rightarrow> 'm publisher \<Rightarrow> 'm publisher" where
  "pub_SetParameters c exch s = s\<lparr>c_string := c, default_exchange := exch\<rparr>"

definition con_SetParameters :: "AMQPSQLCStr \<Rightarrow> string \<Rightarrow> 'm consumer \<Rightarrow> 'm consumer" where
  "con_SetParameters c q s = s\<lparr>c_string := c, queue_name := q\<rparr>"

definition con_SetMessageCallback :: "('m \<Rightarrow> fault + unit) \<Rightarrow> 'm consumer \<Rightarrow> 'm consumer" where
  "con_SetMessageCallback cb s = s\<lparr>message_callback := Some cb\<rparr>"

text \<open>\<open>Publish\<close> hands the message to the channel under the default exchange.\<close>

definition Publish :: "'m \<Rightarrow> string \<Rightarrow> 'm publisher \<Rightarrow> fault + 'm publisher" where
  "Publish m qname s =
    (if has_channel s then Inr (s\<lparr>published := published s @ [(default_exchange s, qname, m)]\<rparr>)
     else Inl (UB ''null channel''))"

text \<open>The requests \<open>DeclareQueue\<close> sends on a channel, in order.\<close>

datatype channel_request = Declare_queue string | Bind_queue string string string

definition DeclareQueue :: "string \<Rightarrow> string \<Rightarrow> channel_request list" where
  "DeclareQueue queue1 exchange1 = [Declare_queue queue1, Bind_queue exchange1 queue1 queue1]"

definition AddQueue :: "string \<Rightarrow> bool \<Rightarrow> 'm publisher \<Rightarrow> fault + channel_request list" where
  "AddQueue queue create s =
    (if create then (if has_channel s then Inr (DeclareQueue queue (default_exchange s))
                     else Inl (UB ''null channel''))
     else Inr [])"

text \<open>
  Delivery of a message: the callback, or the printing default when none is set, then the
  acknowledgement; an exception of the callback leaves the message unacknowledged.
\<close>

definition onReceived :: "'m \<Rightarrow> u64 \<Rightarrow> 'm consumer \<Rightarrow> fault + 'm consumer" where
  "onReceived m delivery_tag s =
    rbind (case message_callback s of Some f \<Rightarrow> f m | None \<Rightarrow> Inr ())
      (\<lambda>_. if has_channel s then Inr (s\<lparr>acked := acked s @ [delivery_tag]\<rparr>) else Inl (UB ''null channel''))"

section \<open>The transition relation\<close>

text \<open>
  One step of the client or of the environment.  \<open>Rec\<close> and \<open>name\<close> are the subclass's
  \<open>Reconnect\<close> and \<open>ServiceName\<close>.  The loop may run callbacks whenever a thread exists; the
  join succeeds once \<open>run()\<close> can return, that is when no work object is held.
  \<open>st_configure\<close> changes what the subclass adds to the state (its exchange or queue, the
  messages handed to the channel).
\<close>

inductive svc_step ::
    "(bool \<Rightarrow> 'a service_scheme \<Rightarrow> fault + 'a service_scheme) \<Rightarrow> string \<Rightarrow>
     'a service_scheme \<Rightarrow> 'a service_scheme \<Rightarrow> bool"
  for Rec :: "bool \<Rightarrow> 'a service_scheme \<Rightarrow> fault + 'a service_scheme" and name :: string where
  st_connect: "phase s = Idle \<Longrightarrow> s' = snd (Connect_begin Rec name ready s) \<Longrightarrow> svc_step Rec name s s'"
| st_connected: "phase s = Waiting \<Longrightarrow> promise_value s = Some error \<Longrightarrow>
    svc_step Rec name s (Connect_end error s)"
| st_disconnect: "phase s = Idle \<Longrightarrow> svc_step Rec name s (Disconnect_begin None s)"
| st_joined: "phase s = Joining err \<Longrightarrow> \<not> joinable s \<or> \<not> work s \<Longrightarrow>
    s' = snd (Disconnect_end err s) \<Longrightarrow> svc_step Rec name s s'"
| st_set_c_string: "phase s = Idle \<Longrightarrow> svc_step Rec name s (s\<lparr>c_string := c\<rparr>)"
| st_configure: "phase s = Idle \<Longrightarrow> svc_step Rec name s (service.more_update (\<lambda>_. m) s)"
| ev_connected: "joinable s \<Longrightarrow> work s \<Longrightarrow> phase s \<noteq> Terminated \<Longrightarrow>
    svc_step Rec name s (MyHandler_onConnected s)"
| ev_closed: "joinable s \<Longrightarrow> phase s \<noteq> Terminated \<Longrightarrow> svc_step Rec name s (MyHandler_onClosed s)"
| ev_error: "joinable s \<Longrightarrow> phase s \<noteq> Terminated \<Longrightarrow> svc_step Rec name s (MyHandler_onError msg s)"
| ev_signal: "joinable s \<Longrightarrow> callbacks s \<Longrightarrow> phase s \<noteq> Terminated \<Longrightarrow> signal msg s = Inr s' \<Longrightarrow>
    svc_step Rec name s s'"
| ev_run_close: "joinable s \<Longrightarrow> phase s \<noteq> Terminated \<Longrightarrow> 0 < pending_close s \<Longrightarrow>
    svc_step Rec name s (s\<lparr>pending_close := pending_close s - 1\<rparr>)"

inductive_cases svc_stepE: "svc_step Rec name s s'"

inductive svc_reachable ::
    "(bool \<Rightarrow> 'a service_scheme \<Rightarrow> fault + 'a service_scheme) \<Rightarrow> string \<Rightarrow>
     'a service_scheme \<Rightarrow> 'a service_scheme \<Rightarrow> bool"
  for Rec :: "bool \<Rightarrow> 'a service_scheme \<Rightarrow> fault + 'a service_scheme" and name :: string
    and s0 :: "'a service_scheme" where
  reach_init: "svc_reachable Rec name s0 s0"
| reach_step: "svc_reachable Rec name s0 s \<Longrightarrow> svc_step Rec name s s' \<Longrightarrow> svc_reachable Rec name s0 s'"

section \<open>The contract of a subclass\<close>

text \<open>
  What \<open>Connect\<close> relies on: \<open>Reconnect\<close> touches neither the handler's state nor the promise,
  the thread or the phase, and succeeds on a disconnected service only with a channel whose
  callbacks are registered.
\<close>

locale amqp_client =
  fixes Rec :: "bool \<Rightarrow> 'a service_scheme \<Rightarrow> fault + 'a service_scheme"
    and name :: string
  assumes rec_frame: "Rec ready s = Inr s' \<Longrightarrow>
      handler_connected s' = handler_connected s \<and> work s' = work s \<and> joinable s' = joinable s \<and>
      promise_value s' = promise_value s \<and> promise_set s' = promise_set s \<and> phase s' = phase s \<and>
      pending_close s' = pending_close s \<and> c_string s' = c_string s"
    and rec_callbacks: "Rec ready s = Inr s' \<Longrightarrow> \<not> handler_connected s \<Longrightarrow> has_channel s' \<and> callbacks s'"
begin

text \<open>What holds between any two steps.\<close>

definition svc_inv :: "'a service_scheme \<Rightarrow> bool" where
  "svc_inv s \<longleftrightarrow> (promise_set s \<longleftrightarrow> promise_value s \<noteq> None) \<and>
     (handler_connected s \<longrightarrow> work s \<and> joinable s) \<and>
     (joinable s \<longrightarrow> callbacks s \<and> has_channel s) \<and> (phase s = Waiting \<longrightarrow> joinable s)"

lemma inv_Connect_begin:
  assumes "svc_inv s" and "phase s = Idle"
  shows "svc_inv (snd (Connect_begin Rec name ready s))"
proof (cases "handler_connected s")
  case True
  with assms show ?thesis by (simp add: Connect_begin_def IsConnected_def)
next
  case False
  let ?s1 = "s\<lparr>work := True, promise_set := False, promise_value := None\<rparr>"
  show ?thesis
  proof (cases "Rec ready ?s1")
    case (Inl e)
    with assms False show ?thesis by (simp add: Connect_begin_def IsConnected_def svc_inv_def Let_def)
  next
    case (Inr s2)
    have cb: "has_channel s2 \<and> callbacks s2" using rec_callbacks [OF Inr] False by simp
    have fr: "handler_connected s2 = handler_connected s" "promise_value s2 = None" "promise_set s2 = False"
      using rec_frame [OF Inr] by simp_all
    have eq: "snd (Connect_begin Rec name ready s) =
        (if joinable s2 then s2\<lparr>phase := Terminated\<rparr> else s2\<lparr>joinable := True, phase := Waiting\<rparr>)"
      using False Inr by (simp add: Connect_begin_def IsConnected_def Let_def)
    show ?thesis unfolding eq using cb fr False by (simp add: svc_inv_def)
  qed
qed

lemma signal_inv: "svc_inv s \<Longrightarrow> \<exists>s'. signal msg s = Inr s' \<and> svc_inv s'"
  by (auto simp: signal_def set_value_def svc_inv_def)

lemma inv_facts:
  assumes "svc_inv s"
  shows "(promise_set s \<longleftrightarrow> promise_value s \<noteq> None) \<and> (IsConnected s \<longrightarrow> work s \<and> joinable s \<and> has_channel s) \<and>
    (phase s = Waiting \<longrightarrow> joinable s \<and> callbacks s) \<and> (\<forall>msg. \<exists>s'. signal msg s = Inr s')"
proof (intro conjI)
  show "\<forall>msg. \<exists>s'. signal msg s = Inr s'" using signal_inv [OF assms] by blast
qed (use assms in \<open>auto simp: svc_inv_def IsConnected_def\<close>)

lemma inv_step: "svc_step Rec name s s' \<Longrightarrow> svc_inv s \<Longrightarrow> svc_inv s'"
proof (induction rule: svc_step.induct)
  case (st_connect s s' ready)
  then show ?case by (simp add: inv_Connect_begin)
next
  case (ev_signal s msg s')
  then show ?case using signal_inv [of s msg] by auto
qed (auto simp: svc_inv_def Connect_end_def Disconnect_begin_def Disconnect_end_def MyHandler_onClosed_def
    MyHandler_onError_def MyHandler_onConnected_def MyHandler_ResetLoop_def)

lemma inv_reachable: "svc_reachable Rec name s0 s \<Longrightarrow> svc_inv s0 \<Longrightarrow> svc_inv s"
  by (induction rule: svc_reachable.induct) (auto intro: inv_step)

lemma joined_disconnected:
  assumes "svc_inv s" and "\<not> joinable s \<or> \<not> work s"
  shows "\<not> IsConnected (snd (Disconnect_end err s))" and "\<not> joinable (snd (Disconnect_end err s))"
  using assms by (auto simp: svc_inv_def IsConnected_def Disconnect_end_def)

lemma connect_after_join:
  assumes "\<not> handler_connected s" and "\<not> joinable s" and "phase s = Idle"
  shows "phase (snd (Connect_begin Rec name ready s)) \<noteq> Terminated"
    and "fst (Connect_begin Rec name ready s) = Inr () \<or>
      (\<exists>e. Rec ready (s\<lparr>work := True, promise_set := False, promise_value := None\<rparr>) = Inl e)"
proof -
  let ?s1 = "s\<lparr>work := True, promise_set := False, promise_value := None\<rparr>"
  have f: "joinable s2 = joinable s" if "Rec ready ?s1 = Inr s2" for s2
    using rec_frame [OF that] by simp
  show "phase (snd (Connect_begin Rec name ready s)) \<noteq> Terminated"
    using assms f by (cases "Rec ready ?s1") (simp_all add: Connect_begin_def IsConnected_def Let_def)
  show "fst (Connect_begin Rec name ready s) = Inr () \<or> (\<exists>e. Rec ready ?s1 = Inl e)"
    using assms f by (cases "Rec ready ?s1") (simp_all add: Connect_begin_def IsConnected_def Let_def)
qed

lemma connect_lost_terminates:
  assumes "\<not> handler_connected s" and "joinable s"
    and "Rec ready (s\<lparr>work := True, promise_set := False, promise_value := None\<rparr>) = Inr s2"
  shows "fst (Connect_begin Rec name ready s) = Inl (UB ''std::terminate'')"
  using assms rec_frame [OF assms(3)] by (simp add: Connect_begin_def IsConnected_def Let_def)

text \<open>A caller blocked in \<open>join\<close> is released by the end of the connection, one blocked in
\<open>get\<close> by any channel callback.\<close>

lemma joining_returns:
  assumes "phase s = Joining err"
  shows "\<exists>n s'. n \<le> 2 \<and> (svc_step Rec name ^^ n) s s' \<and> phase s' = Idle"
proof (cases "joinable s")
  case True
  let ?s1 = "MyHandler_onClosed s"
  have 1: "phase ?s1 = Joining err" "\<not> work ?s1" using assms by (simp_all add: MyHandler_onClosed_def MyHandler_ResetLoop_def)
  have "svc_step Rec name s ?s1" using True assms by (intro ev_closed) simp_all
  moreover have "svc_step Rec name ?s1 (snd (Disconnect_end err ?s1))" by (rule st_joined [OF 1(1) _ refl]) (simp add: 1)
  ultimately have "(svc_step Rec name ^^ Suc (Suc 0)) s (snd (Disconnect_end err ?s1))" by auto
  then show ?thesis by (intro exI [of _ 2] exI [of _ "snd (Disconnect_end err ?s1)"]) (simp add: numeral_2_eq_2 Disconnect_end_def)
next
  case False
  then have "svc_step Rec name s (snd (Disconnect_end err s))" by (intro st_joined [OF assms _ refl]) simp
  then have "(svc_step Rec name ^^ 1) s (snd (Disconnect_end err s))" by (simp only: relpowp_1)
  then show ?thesis by (intro exI [of _ 1] exI [of _ "snd (Disconnect_end err s)"]) (simp add: Disconnect_end_def)
qed

lemma answered_returns:
  assumes "phase s = Waiting" and "promise_value s = Some error"
  shows "\<exists>n s'. n \<le> 3 \<and> (svc_step Rec name ^^ n) s s' \<and> phase s' = Idle"
proof -
  have st: "svc_step Rec name s (Connect_end error s)" by (rule st_connected [OF assms])
  show ?thesis
  proof (cases "error = []")
    case True
    from st have "(svc_step Rec name ^^ 1) s (Connect_end error s)" by (simp only: relpowp_1)
    moreover have "phase (Connect_end error s) = Idle" using True by (simp add: Connect_end_def)
    ultimately show ?thesis by (intro exI [of _ 1] exI [of _ "Connect_end error s"]) simp
  next
    case False
    then have "phase (Connect_end error s) = Joining (Some error)" by (simp add: Connect_end_def Disconnect_begin_def)
    from joining_returns [OF this] obtain n s' where "n \<le> 2" "(svc_step Rec name ^^ n) (Connect_end error s) s'" "phase s' = Idle"
      by blast
    with st show ?thesis by (intro exI [of _ "Suc n"] exI [of _ s'] conjI relpowp_Suc_I2) simp_all
  qed
qed

lemma calls_return:
  assumes "svc_inv s" and "phase s \<noteq> Terminated"
  shows "\<exists>n s'. n \<le> 4 \<and> (svc_step Rec name ^^ n) s s' \<and> phase s' = Idle"
proof (cases "phase s")
  case Idle
  then show ?thesis by (intro exI [of _ 0] exI [of _ s]) simp
next
  case Waiting
  show ?thesis
  proof (cases "promise_value s")
    case None
    with assms(1) Waiting have i: "joinable s" "callbacks s" "\<not> promise_set s" by (auto simp: svc_inv_def)
    then obtain s1 where s1: "signal [] s = Inr s1" "phase s1 = Waiting" "promise_value s1 = Some []"
      using None Waiting by (simp add: signal_def set_value_def)
    have "svc_step Rec name s s1" using i s1(1) Waiting by (intro ev_signal [of s]) simp_all
    moreover obtain n s' where "n \<le> 3" "(svc_step Rec name ^^ n) s1 s'" "phase s' = Idle"
      using answered_returns [OF s1(2,3)] by blast
    ultimately show ?thesis by (intro exI [of _ "Suc n"] exI [of _ s'] conjI relpowp_Suc_I2) simp_all
  next
    case (Some error)
    from answered_returns [OF Waiting Some] obtain n s' where "n \<le> 3" "(svc_step Rec name ^^ n) s s'" "phase s' = Idle" by blast
    then show ?thesis by (intro exI [of _ n] exI [of _ s']) simp
  qed
next
  case (Joining err)
  from joining_returns [OF this] obtain n s' where "n \<le> 2" "(svc_step Rec name ^^ n) s s'" "phase s' = Idle" by blast
  then show ?thesis by (intro exI [of _ n] exI [of _ s']) simp
qed (use assms in simp)

end

lemmas reconnect_defs = pub_Reconnect_def con_Reconnect_def open_channel_def IsConnected_def

interpretation pub: amqp_client pub_Reconnect pub_ServiceName
  by unfold_locales (auto simp: reconnect_defs rbind_eq_Inr split: if_splits)

interpretation con: amqp_client con_Reconnect con_ServiceName
  by unfold_locales (auto simp: reconnect_defs rbind_eq_Inr split: if_splits)

lemma find_str_scheme:
  "CHR '':'' \<notin> set a \<Longrightarrow> find_str ''://'' (a @ '':'' @ ''//'' @ r) = Some (length a)"
  by (induction a) auto

lemma ExtractHost_url:
  assumes "CHR '':'' \<notin> set a" and "\<forall>c\<in>set host. c \<notin> set '':/?''" and "host @ rest \<noteq> []"
    and "rest = [] \<or> hd rest \<in> set '':/?''"
  shows "ExtractHost (a @ ''://'' @ host @ rest) = Some host"
  using assms find_str_scheme [OF assms(1), of "host @ rest"]
    takeWhile_all_append(1) [of host "\<lambda>c. c \<notin> set '':/?''" rest]
  by (simp add: ExtractHost_def Let_def)

lemma new_publisher_inv: "pub.svc_inv new_publisher"
  by (simp add: pub.svc_inv_def new_publisher_def new_service_def service.extend_def)

lemma new_consumer_inv: "con.svc_inv new_consumer"
  by (simp add: con.svc_inv_def new_consumer_def new_service_def service.extend_def)

section \<open>Properties\<close>

text \<open>C6: in every state a publisher or a consumer can reach, whatever the order of calls and
callbacks, the promise of \<open>Connect\<close> has been fulfilled exactly when \<open>promise_set_\<close> says so, so
no callback can fulfil it a second time; a connected service has a running loop and a channel,
and a caller
blocked in \<open>Connect\<close> has a thread that can answer.\<close>

theorem service_lifecycle:
  shows "(svc_reachable pub_Reconnect pub_ServiceName new_publisher s \<longrightarrow>
      (promise_set s \<longleftrightarrow> promise_value s \<noteq> None) \<and> (IsConnected s \<longrightarrow> work s \<and> joinable s \<and> has_channel s) \<and>
      (phase s = Waiting \<longrightarrow> joinable s \<and> callbacks s) \<and> (\<forall>msg. \<exists>s'. signal msg s = Inr s')) \<and>
    (svc_reachable con_Reconnect con_ServiceName new_consumer t \<longrightarrow>
      (promise_set t \<longleftrightarrow> promise_value t \<noteq> None) \<and> (IsConnected t \<longrightarrow> work t \<and> joinable t \<and> has_channel t) \<and>
      (phase t = Waiting \<longrightarrow> joinable t \<and> callbacks t) \<and> (\<forall>msg. \<exists>t'. signal msg t = Inr t'))"
  by (rule conjI; rule impI)
    (rule pub.inv_facts [OF pub.inv_reachable [OF _ new_publisher_inv]], assumption,
     rule con.inv_facts [OF con.inv_reachable [OF _ new_consumer_inv]], assumption)

theorem service_lifecycle_witness:
  "(promise_set (new_publisher :: unit publisher) \<longleftrightarrow> promise_value (new_publisher :: unit publisher) \<noteq> None)"
  using service_lifecycle [THEN conjunct1, THEN mp, OF reach_init] by blast

text \<open>When \<open>Disconnect\<close> has joined its thread, the service reports itself disconnected, and
the next \<open>Connect\<close> starts a fresh connection attempt unless the connection string is empty.\<close>

theorem disconnect_then_connect:
  fixes s :: "'m publisher"
  assumes "svc_reachable pub_Reconnect pub_ServiceName new_publisher s"
    and "phase s = Joining err" and "\<not> joinable s \<or> \<not> work s"
  shows "\<not> IsConnected (snd (Disconnect_end err s)) \<and>
    fst (Connect_begin pub_Reconnect pub_ServiceName ready (snd (Disconnect_end err s))) =
      (if am_formatted (c_string s) = [] then Inl (Thrown (zeroSize ''c_string_'')) else Inr ())"
proof (rule conjI)
  have i: "pub.svc_inv s" by (rule pub.inv_reachable [OF assms(1) new_publisher_inv])
  show 1: "\<not> IsConnected (snd (Disconnect_end err s))"
    by (rule pub.joined_disconnected(1) [OF i assms(3)])
  then show "fst (Connect_begin pub_Reconnect pub_ServiceName ready (snd (Disconnect_end err s))) =
      (if am_formatted (c_string s) = [] then Inl (Thrown (zeroSize ''c_string_'')) else Inr ())"
    by (simp add: Connect_begin_def Disconnect_end_def reconnect_defs Let_def)
qed

text \<open>A run of a publisher: a connection that is established, used and lost.\<close>

definition sample_cstr :: AMQPSQLCStr where
  "sample_cstr = make_amqp ''h:5672'' ''u'' ''p'' False"

definition lost_publisher :: "unit publisher" where
  "lost_publisher = new_publisher\<lparr>c_string := sample_cstr, has_connection := True, has_channel := True,
     joinable := True, promise_set := True, promise_value := Some [], callbacks := True\<rparr>"

lemma sample_cstr_nonempty: "am_formatted sample_cstr \<noteq> []"
  by (simp add: sample_cstr_def make_amqp_def am_UpdateFormat_def)

lemma lost_reachable: "svc_reachable pub_Reconnect pub_ServiceName new_publisher lost_publisher"
proof -
  let ?R = "svc_reachable pub_Reconnect pub_ServiceName (new_publisher :: unit publisher)"
  note n = new_publisher_def new_service_def service.extend_def
  let ?s1 = "new_publisher\<lparr>c_string := sample_cstr\<rparr> :: unit publisher"
  let ?s2 = "?s1\<lparr>work := True, has_connection := True, has_channel := True, callbacks := True,
    joinable := True, phase := Waiting\<rparr>"
  let ?s3 = "?s2\<lparr>handler_connected := True\<rparr>"
  let ?s4 = "?s3\<lparr>promise_set := True, promise_value := Some []\<rparr>"
  let ?s5 = "?s4\<lparr>phase := Idle\<rparr>"
  have "svc_step pub_Reconnect pub_ServiceName ?s4 (Connect_end [] ?s4)"
    by (rule st_connected) (simp_all add: n)
  then have step5: "svc_step pub_Reconnect pub_ServiceName ?s4 ?s5" by (simp only: Connect_end_def if_False not_True_eq_False simp_thms)
  have "?R ?s1" by (rule reach_step [OF reach_init st_set_c_string]) (simp add: n)
  then have "?R ?s2"
    by (rule reach_step) (rule st_connect [where ready = False],
        simp_all add: n Connect_begin_def reconnect_defs sample_cstr_nonempty)
  then have "?R ?s3"
    by (rule reach_step [OF _ ev_connected [of ?s2, unfolded MyHandler_onConnected_def]])
      (simp_all add: n)
  then have "?R ?s4"
    by (rule reach_step) (rule ev_signal [where msg = "[]"], simp_all add: n signal_def set_value_def)
  then have "?R ?s5"
    by (rule reach_step) (rule step5)
  then have "?R (MyHandler_onClosed ?s5)"
    by (rule reach_step [OF _ ev_closed]) (simp_all add: n)
  moreover have "MyHandler_onClosed ?s5 = lost_publisher"
    by (simp add: lost_publisher_def MyHandler_onClosed_def MyHandler_ResetLoop_def n)
  ultimately show ?thesis by simp
qed

theorem disconnect_then_connect_witness:
  "fst (Connect_begin pub_Reconnect pub_ServiceName True
     (snd (Disconnect_end None (Disconnect_begin None lost_publisher)))) = Inr ()"
proof -
  have "svc_reachable pub_Reconnect pub_ServiceName new_publisher (Disconnect_begin None lost_publisher)"
    by (rule reach_step [OF lost_reachable st_disconnect])
      (simp add: lost_publisher_def new_publisher_def new_service_def service.extend_def)
  from disconnect_then_connect [OF this, of None True]
  show ?thesis
    by (simp add: Disconnect_begin_def lost_publisher_def new_publisher_def new_service_def
        service.extend_def sample_cstr_nonempty)
qed

text \<open>A service whose connection was lost still owns a joinable thread, and calling
\<open>Connect\<close> again without \<open>Disconnect\<close> assigns over it, which ends the process
(\<open>std::terminate\<close>); such a state is reachable.\<close>

theorem lost_connection_terminates:
  fixes s :: "'m publisher"
  assumes "\<not> IsConnected s" and "joinable s" and "has_channel s" and "am_formatted (c_string s) \<noteq> []"
  shows "fst (Connect_begin pub_Reconnect pub_ServiceName ready s) = Inl (UB ''std::terminate'')"
  using assms by (simp add: Connect_begin_def reconnect_defs Let_def)

theorem lost_connection_terminates_witness:
  "svc_reachable pub_Reconnect pub_ServiceName new_publisher lost_publisher \<and>
   fst (Connect_begin pub_Reconnect pub_ServiceName False lost_publisher) = Inl (UB ''std::terminate'')"
  by (rule conjI [OF lost_reachable lost_connection_terminates])
    (simp_all add: lost_publisher_def new_publisher_def new_service_def service.extend_def
      IsConnected_def sample_cstr_nonempty)



text \<open>\<open>ExtractHost\<close> returns what stands between the first \<open>://\<close> and the next of
\<open>:\<close>, \<open>/\<close> and \<open>?\<close>: the host of a plain URL, but the user name of a connection string with
credentials; without \<open>://\<close>, or with nothing after it, there is no host.\<close>

theorem ExtractHost_spec:
  "(CHR '':'' \<notin> set a \<and> (\<forall>c\<in>set host. c \<notin> set '':/?'') \<and> host @ rest \<noteq> [] \<and>
      (rest = [] \<or> hd rest \<in> set '':/?'') \<longrightarrow> ExtractHost (a @ ''://'' @ host @ rest) = Some host) \<and>
   (CHR '':'' \<notin> set a \<longrightarrow> ExtractHost (a @ ''://'') = None) \<and>
   (CHR '':'' \<notin> set b \<longrightarrow> ExtractHost b = None) \<and>
   (clean user \<longrightarrow> ExtractHost (ConstructCString hp user password secure) = Some user)"
proof (intro conjI impI; (elim conjE)?)
  show "ExtractHost (a @ ''://'' @ host @ rest) = Some host"
    if "CHR '':'' \<notin> set a" "\<forall>c\<in>set host. c \<notin> set '':/?''" "host @ rest \<noteq> []"
      "rest = [] \<or> hd rest \<in> set '':/?''"
    by (rule ExtractHost_url [OF that])
  show "ExtractHost (a @ ''://'') = None" if "CHR '':'' \<notin> set a"
    using find_str_scheme [OF that, of "[]"] by (simp add: ExtractHost_def)
  have no_colon: "find_str ''://'' c = None" if "CHR '':'' \<notin> set c" for c
    using that by (induction c) auto
  then show "ExtractHost b = None" if "CHR '':'' \<notin> set b" using that by (simp add: ExtractHost_def)
  show "ExtractHost (ConstructCString hp user password secure) = Some user" if "clean user"
  proof -
    have "ConstructCString hp user password secure =
        amqp_scheme secure @ ''://'' @ user @ ('':'' @ password @ ''@'' @ hp @ ''/'')"
      by (simp add: ConstructCString_def make_amqp_def am_UpdateFormat_def amqp_scheme_def)
    moreover have "\<forall>c\<in>set user. c \<notin> set '':/?''"
      using that by (auto simp: clean_def kDelimiters_def)
    ultimately show ?thesis
      using ExtractHost_url [of "amqp_scheme secure" user "'':'' @ password @ ''@'' @ hp @ ''/''"]
      by (simp add: amqp_scheme_def)
  qed
qed

theorem ExtractHost_spec_witness:
  "ExtractHost ''http://h:80'' = Some ''h''"
  using ExtractHost_spec [THEN conjunct1, of "''http''" "''h''" "'':80''"] by simp

end
