(* ===== verification/ServiceCalls.thy ===== *)
theory ServiceCalls
  imports Amqp
begin

text \<open>
  \<open>AMQPService::Connect\<close> and \<open>Disconnect\<close> as their callers see them: both block until the
  event loop has answered, so a call runs its two halves with the loop's answer in between.
  The facts are proved for every subclass that meets \<open>amqp_client\<close>; the main node uses them
  for its publisher and a worker for its consumer.
\<close>

text \<open>
  What the environment does with a connection attempt: whether an old connection is ready,
  and the message the promise receives (empty for success).
\<close>

record connect_env =
  ce_ready :: bool
  ce_message :: string

definition Service_Connect ::
    "(bool \<Rightarrow> 'a service_scheme \<Rightarrow> fault + 'a service_scheme) \<Rightarrow> string \<Rightarrow> connect_env \<Rightarrow>
     ('a service_scheme, fault, unit) action" where
  "Service_Connect Rec name env = (\<lambda>p.
    case Connect_begin Rec name (ce_ready env) p of
      (Inl e, p1) \<Rightarrow> (Inl e, p1)
    | (Inr _, p1) \<Rightarrow>
        let p2 = p1\<lparr>promise_value := Some (ce_message env), promise_set := True\<rparr>
        in if ce_message env = [] then (Inr (), Connect_end [] (MyHandler_onConnected p2))
           else let p3 = Connect_end (ce_message env) p2
                in Disconnect_end (Some (ce_message env))
                     (MyHandler_onClosed (p3\<lparr>pending_close := pending_close p3 - 1\<rparr>)))"

definition Service_Disconnect :: "'a service_scheme \<Rightarrow> 'a service_scheme" where
  "Service_Disconnect p =
    (let p1 = Disconnect_begin None p
     in snd (Disconnect_end None
          (if joinable p1 then MyHandler_onClosed (p1\<lparr>pending_close := pending_close p1 - 1\<rparr>) else p1)))"

text \<open>Between two calls a service is in a reachable idle state of its life cycle.\<close>

definition idle_reachable ::
    "(bool \<Rightarrow> 'a service_scheme \<Rightarrow> fault + 'a service_scheme) \<Rightarrow> string \<Rightarrow>
     'a service_scheme \<Rightarrow> 'a service_scheme \<Rightarrow> bool" where
  "idle_reachable Rec name s0 p \<longleftrightarrow> svc_reachable Rec name s0 p \<and> phase p = Idle"

lemma idle_reachable_step:
  "idle_reachable Rec name s0 p \<Longrightarrow> svc_step Rec name p p' \<Longrightarrow> phase p' = Idle \<Longrightarrow> idle_reachable Rec name s0 p'"
  by (auto simp: idle_reachable_def intro: reach_step)

text \<open>Updates of what the subclass adds, and of the connection string, are configuration steps.\<close>

lemma idle_reachable_more:
  assumes "idle_reachable Rec name s0 p"
  shows "idle_reachable Rec name s0 (service.more_update (\<lambda>_. m) p)"
proof -
  have ph: "phase p = Idle" using assms by (simp add: idle_reachable_def)
  show ?thesis by (rule idle_reachable_step [OF assms st_configure]) (simp_all add: ph)
qed

lemma idle_reachable_c_string:
  assumes "idle_reachable Rec name s0 p"
  shows "idle_reachable Rec name s0 (p\<lparr>c_string := c\<rparr>)"
proof -
  have ph: "phase p = Idle" using assms by (simp add: idle_reachable_def)
  show ?thesis by (rule idle_reachable_step [OF assms st_set_c_string]) (simp_all add: ph)
qed

text \<open>What a successful call leaves.\<close>

lemma Connect_begin_Inr:
  assumes "Connect_begin Rec name ready p = (Inr (), p1)"
  shows "\<exists>s2. Rec ready (p\<lparr>work := True, promise_set := False, promise_value := None\<rparr>) = Inr s2 \<and>
    p1 = s2\<lparr>joinable := True, phase := Waiting\<rparr>"
  using assms by (auto simp: Connect_begin_def Let_def split: if_splits sum.splits)

lemma Service_Connect_Inr:
  assumes "Service_Connect Rec name env p = (Inr (), p')"
  shows "\<exists>s2. Rec (ce_ready env) (p\<lparr>work := True, promise_set := False, promise_value := None\<rparr>) = Inr s2 \<and>
    p' = s2\<lparr>joinable := True, phase := Idle, promise_value := Some [], promise_set := True, handler_connected := True\<rparr>"
proof -
  obtain r p1 where b: "Connect_begin Rec name (ce_ready env) p = (r, p1)" by fastforce
  with assms have r: "r = Inr ()" "ce_message env = []"
    by (auto simp: Service_Connect_def Let_def Disconnect_end_def split: sum.splits if_splits)
  from Connect_begin_Inr [OF b [unfolded r]] obtain s2
    where s2: "Rec (ce_ready env) (p\<lparr>work := True, promise_set := False, promise_value := None\<rparr>) = Inr s2"
      "p1 = s2\<lparr>joinable := True, phase := Waiting\<rparr>" by blast
  from assms b r have "p' = Connect_end [] (MyHandler_onConnected (p1\<lparr>promise_value := Some [], promise_set := True\<rparr>))"
    by (simp add: Service_Connect_def)
  with s2 show ?thesis by (simp add: Connect_end_def MyHandler_onConnected_def)
qed

context amqp_client
begin

lemma Connect_begin_cases:
  assumes "Connect_begin Rec name ready p = (r, p1)" and "phase p = Idle" and "\<And>x. r \<noteq> Inl (UB x)"
  shows "(\<exists>e. r = Inl e) \<and> phase p1 = Idle \<or>
    r = Inr () \<and> phase p1 = Waiting \<and> joinable p1 \<and> callbacks p1 \<and> work p1 \<and> promise_value p1 = None \<and>
      \<not> promise_set p1"
proof (cases "handler_connected p")
  case True
  with assms(1,2) show ?thesis by (auto simp: Connect_begin_def IsConnected_def)
next
  case False
  let ?s1 = "p\<lparr>work := True, promise_set := False, promise_value := None\<rparr>"
  show ?thesis
  proof (cases "Rec ready ?s1")
    case (Inl e)
    with assms(1,2) False show ?thesis by (auto simp: Connect_begin_def IsConnected_def Let_def)
  next
    case (Inr s2)
    note fr = rec_frame [OF Inr] and cb = rec_callbacks [OF Inr]
    from assms(1) assms(3) [of "''std::terminate''"] False Inr
    have "r = Inr ()" "p1 = s2\<lparr>joinable := True, phase := Waiting\<rparr>"
      by (auto simp: Connect_begin_def IsConnected_def Let_def split: if_splits)
    with fr cb False show ?thesis by simp
  qed
qed

lemma Connect_run:
  assumes inv: "idle_reachable Rec name s0 p" and call: "Service_Connect Rec name env p = (r, p')"
    and ub: "\<And>x. r \<noteq> Inl (UB x)"
  shows "idle_reachable Rec name s0 p' \<and> (r = Inr () \<longrightarrow> IsConnected p')"
proof -
  let ?R = "svc_reachable Rec name s0"
  let ?m = "ce_message env"
  obtain r1 p1 where start: "Connect_begin Rec name (ce_ready env) p = (r1, p1)" by fastforce
  from inv have p: "?R p" "phase p = Idle" by (simp_all add: idle_reachable_def)
  have R1: "?R p1" using reach_step [OF p(1) st_connect [OF p(2)]] start by (metis snd_conv)
  have r1: "r1 \<noteq> Inl (UB x)" for x using call ub [of x] start by (auto simp: Service_Connect_def)
  show ?thesis
  proof (cases r1)
    case (Inl e)
    with call start have "r = Inl e" "p' = p1" by (simp_all add: Service_Connect_def)
    with R1 Connect_begin_cases [OF start p(2) r1] Inl show ?thesis by (auto simp: idle_reachable_def)
  next
    case (Inr u)
    with Connect_begin_cases [OF start p(2) r1] have p1: "phase p1 = Waiting" "joinable p1" "callbacks p1" "work p1"
        "promise_value p1 = None" "\<not> promise_set p1" by auto
    let ?p2 = "p1\<lparr>promise_value := Some ?m, promise_set := True\<rparr>"
    have sig: "signal ?m q = Inr (q\<lparr>promise_value := Some ?m, promise_set := True\<rparr>)"
      if "promise_value q = None" "\<not> promise_set q" for q :: "'a service_scheme"
      using that by (simp add: signal_def set_value_def)
    show ?thesis
    proof (cases "?m = []")
      case True
      let ?q = "MyHandler_onConnected p1"
      have "?R ?q" using reach_step [OF R1 ev_connected] p1 by simp
      moreover have "svc_step Rec name ?q (?q\<lparr>promise_value := Some ?m, promise_set := True\<rparr>)"
        using p1 by (intro ev_signal [OF _ _ _ sig]) (simp_all add: MyHandler_onConnected_def)
      ultimately have R2: "?R (?q\<lparr>promise_value := Some ?m, promise_set := True\<rparr>)" by (rule reach_step)
      have eq: "?q\<lparr>promise_value := Some ?m, promise_set := True\<rparr> = MyHandler_onConnected ?p2"
        by (simp add: MyHandler_onConnected_def)
      have "?R (Connect_end [] (MyHandler_onConnected ?p2))"
        using R2 p1 unfolding eq by (elim reach_step, intro st_connected) (simp_all add: MyHandler_onConnected_def True)
      moreover have "p' = Connect_end [] (MyHandler_onConnected ?p2)"
        using call start Inr True by (simp add: Service_Connect_def Let_def)
      ultimately show ?thesis
        by (simp add: idle_reachable_def Connect_end_def MyHandler_onConnected_def IsConnected_def)
    next
      case False
      have R2: "?R ?p2" using reach_step [OF R1 ev_signal [OF _ _ _ sig]] p1 by simp
      let ?p3 = "Connect_end ?m ?p2"
      have R3: "?R ?p3" using reach_step [OF R2 st_connected] p1 by simp
      have p3: "joinable ?p3" "phase ?p3 = Joining (Some ?m)" "0 < pending_close ?p3"
        using False p1 by (simp_all add: Connect_end_def Disconnect_begin_def)
      have R4: "?R (?p3\<lparr>pending_close := pending_close ?p3 - 1\<rparr>)"
        using reach_step [OF R3 ev_run_close] p3 by simp
      have R5: "?R (MyHandler_onClosed (?p3\<lparr>pending_close := pending_close ?p3 - 1\<rparr>))"
        by (rule reach_step [OF R4 ev_closed]) (use p3 in simp_all)
      have R6: "?R (snd (Disconnect_end (Some ?m) (MyHandler_onClosed (?p3\<lparr>pending_close := pending_close ?p3 - 1\<rparr>))))"
        by (rule reach_step [OF R5 st_joined [OF _ _ refl]])
          (use p3 in \<open>simp_all add: MyHandler_onClosed_def MyHandler_ResetLoop_def\<close>)
      have "(r, p') = Disconnect_end (Some ?m) (MyHandler_onClosed (?p3\<lparr>pending_close := pending_close ?p3 - 1\<rparr>))"
        using call start Inr False by (simp add: Service_Connect_def Let_def)
      with R6 show ?thesis by (auto simp: idle_reachable_def Disconnect_end_def)
    qed
  qed
qed

lemma Disconnect_run:
  assumes inv: "idle_reachable Rec name s0 p" and start: "svc_inv s0"
  shows "idle_reachable Rec name s0 (Service_Disconnect p) \<and> \<not> IsConnected (Service_Disconnect p)"
proof -
  let ?R = "svc_reachable Rec name s0"
  let ?p1 = "Disconnect_begin None p"
  let ?p2 = "if joinable ?p1 then MyHandler_onClosed (?p1\<lparr>pending_close := pending_close ?p1 - 1\<rparr>) else ?p1"
  from inv have p: "?R p" "phase p = Idle" by (simp_all add: idle_reachable_def)
  have R1: "?R ?p1" by (rule reach_step [OF p(1) st_disconnect [OF p(2)]])
  have ph: "phase ?p1 = Joining None" "0 < pending_close ?p1" by (simp_all add: Disconnect_begin_def)
  have R2: "?R ?p2"
  proof (cases "joinable ?p1")
    case True
    have "?R (?p1\<lparr>pending_close := pending_close ?p1 - 1\<rparr>)"
      by (rule reach_step [OF R1 ev_run_close]) (use True ph in simp_all)
    then have "?R (MyHandler_onClosed (?p1\<lparr>pending_close := pending_close ?p1 - 1\<rparr>))"
      by (rule reach_step [OF _ ev_closed]) (use True ph in simp_all)
    then show ?thesis by (simp only: True if_True)
  qed (use R1 in simp)
  have ok: "phase ?p2 = Joining None" "\<not> joinable ?p2 \<or> \<not> work ?p2"
    using ph by (simp_all add: MyHandler_onClosed_def MyHandler_ResetLoop_def)
  have R3: "?R (snd (Disconnect_end None ?p2))"
    by (rule reach_step [OF R2 st_joined [OF ok refl]])
  have "\<not> IsConnected (snd (Disconnect_end None ?p2))"
    by (rule joined_disconnected(1) [OF inv_reachable [OF R2 start] ok(2)])
  with R3 show ?thesis
    by (simp add: Service_Disconnect_def Let_def idle_reachable_def Disconnect_end_def)
qed

lemma idle_connected:
  assumes "idle_reachable Rec name s0 p" and "svc_inv s0" and "IsConnected p"
  shows "has_channel p \<and> joinable p \<and> work p"
  using inv_facts [OF inv_reachable [OF _ assms(2)]] assms(1,3) by (auto simp: idle_reachable_def)

end

section \<open>A close that comes too late\<close>

lemma disconnect_idle:
  "\<not> joinable p \<Longrightarrow> Service_Disconnect p = p\<lparr>pending_close := Suc (pending_close p), joinable := False,
     work := False, has_channel := False, has_connection := False, phase := Idle\<rparr>"
  by (simp add: Service_Disconnect_def Disconnect_begin_def Disconnect_end_def Let_def)

text \<open>C39: \<open>Disconnect\<close> on a publisher whose loop does not run posts its close all the same, and
stopping the loop does not discard it: the next \<open>Connect\<close> opens a new channel and starts a loop
that finds the old close pending and may run it before the connection is established.\<close>

theorem stale_close:
  assumes "phase p = Idle" and "\<not> joinable p" and "\<not> IsConnected p" and "am_formatted (c_string p) \<noteq> []"
  shows "\<exists>p1. Connect_begin pub_Reconnect pub_ServiceName ready (Service_Disconnect p) = (Inr (), p1) \<and>
    phase p1 = Waiting \<and> has_channel p1 \<and> promise_value p1 = None \<and>
    pending_close p1 = Suc (pending_close p) \<and>
    svc_step pub_Reconnect pub_ServiceName p1 (p1\<lparr>pending_close := pending_close p\<rparr>)"
proof -
  let ?s = "Service_Disconnect p"
  have s: "\<not> IsConnected ?s" "\<not> has_connection ?s" "am_formatted (c_string ?s) \<noteq> []" "\<not> joinable ?s"
      "pending_close ?s = Suc (pending_close p)"
    using assms by (simp_all add: disconnect_idle IsConnected_def)
  let ?p1 = "?s\<lparr>work := True, promise_set := False, promise_value := None, has_connection := True,
    has_channel := True, callbacks := True, joinable := True, phase := Waiting\<rparr>"
  have "Connect_begin pub_Reconnect pub_ServiceName ready ?s = (Inr (), ?p1)"
    using s by (simp add: Connect_begin_def IsConnected_def pub_Reconnect_def open_channel_def Let_def)
  moreover have "svc_step pub_Reconnect pub_ServiceName ?p1 (?p1\<lparr>pending_close := pending_close ?p1 - 1\<rparr>)"
    by (rule ev_run_close) (simp_all add: s)
  ultimately show ?thesis using s(5) by auto
qed

theorem stale_close_witness:
  "\<exists>p1 :: unit publisher. Connect_begin pub_Reconnect pub_ServiceName False
      (Service_Disconnect (new_publisher\<lparr>c_string := make_amqp ''h:5672'' ''u'' ''p'' False\<rparr>)) = (Inr (), p1) \<and>
    phase p1 = Waiting \<and> has_channel p1 \<and> promise_value p1 = None \<and> pending_close p1 = Suc 0 \<and>
    svc_step pub_Reconnect pub_ServiceName p1 (p1\<lparr>pending_close := 0\<rparr>)"
  using stale_close [of "new_publisher\<lparr>c_string := make_amqp ''h:5672'' ''u'' ''p'' False\<rparr> :: unit publisher" False]
  by (simp add: new_publisher_def new_service_def service.defs IsConnected_def make_amqp_def am_UpdateFormat_def)

end
