(* ===== verification/Json.thy ===== *)
theory Json
  imports ErrorHandling
begin

text \<open>
  The JSON library (jsoncpp) is not part of the repository: its operations are a record of
  functions that the definitions of the other theories take as an argument, and the locale
  \<open>jsoncpp_laws\<close> states the documented behaviour the code relies on.  A fallible operation
  returns \<open>None\<close> where jsoncpp throws \<open>Json::LogicError\<close>; the parser returns its
  error text or the value.  \<open>json_model\<close> is an executable
  instance; it discharges the laws and evaluates the witnesses.  Reading a missing member
  through \<open>operator[]\<close> on a non-const value also inserts a null member into the caller's
  value; no code under src/ looks at it afterwards and the model leaves it out.
\<close>

section \<open>The interface\<close>

text \<open>\<open>Json::ValueType\<close>, with its numeric values.\<close>

datatype ValueType =
  nullValue | intValue | uintValue | realValue | stringValue | booleanValue | arrayValue | objectValue

fun value_type_index :: "ValueType \<Rightarrow> nat" where
  "value_type_index nullValue = 0"
| "value_type_index intValue = 1"
| "value_type_index uintValue = 2"
| "value_type_index realValue = 3"
| "value_type_index stringValue = 4"
| "value_type_index booleanValue = 5"
| "value_type_index arrayValue = 6"
| "value_type_index objectValue = 7"

record ('j, 'f) jsoncpp =
  j_null :: 'j
  j_object :: 'j
  j_ofBool :: "bool \<Rightarrow> 'j"
  j_ofInt64 :: "u64 \<Rightarrow> 'j"
  j_ofUInt64 :: "u64 \<Rightarrow> 'j"
  j_ofDouble :: "'f \<Rightarrow> 'j"
  j_ofString :: "string \<Rightarrow> 'j"
  j_type :: "'j \<Rightarrow> ValueType"
  j_asBool :: "'j \<Rightarrow> bool option"
  j_asInt64 :: "'j \<Rightarrow> u64 option"
  j_asUInt :: "'j \<Rightarrow> u32 option"
  j_asUInt64 :: "'j \<Rightarrow> u64 option"
  j_asDouble :: "'j \<Rightarrow> 'f option"
  j_asString :: "'j \<Rightarrow> string option"
  j_get :: "'j \<Rightarrow> string \<Rightarrow> 'j option"
  j_set :: "'j \<Rightarrow> string \<Rightarrow> 'j \<Rightarrow> 'j"
  j_at :: "'j \<Rightarrow> nat \<Rightarrow> 'j option"
  j_setAt :: "'j \<Rightarrow> nat \<Rightarrow> 'j \<Rightarrow> 'j"
  j_names :: "'j \<Rightarrow> string list"
  j_isMember :: "'j \<Rightarrow> string \<Rightarrow> bool"
  j_remove :: "'j \<Rightarrow> string \<Rightarrow> 'j"
  j_size :: "'j \<Rightarrow> nat"
  j_write :: "'j \<Rightarrow> string"
  j_styled :: "'j \<Rightarrow> string"
  j_parse :: "string \<Rightarrow> string + 'j"

definition json_error :: fault where
  "json_error = Library ''Json::LogicError''"

text \<open>Accessors as the code chains them: \<open>val[k].asString()\<close> and its relatives.\<close>

definition get_json :: "('j, 'f) jsoncpp \<Rightarrow> 'j \<Rightarrow> string \<Rightarrow> fault + 'j" where
  "get_json J v k = of_opt json_error (j_get J v k)"

definition get_string :: "('j, 'f) jsoncpp \<Rightarrow> 'j \<Rightarrow> string \<Rightarrow> fault + string" where
  "get_string J v k = rbind (get_json J v k) (\<lambda>x. of_opt json_error (j_asString J x))"

definition get_bool :: "('j, 'f) jsoncpp \<Rightarrow> 'j \<Rightarrow> string \<Rightarrow> fault + bool" where
  "get_bool J v k = rbind (get_json J v k) (\<lambda>x. of_opt json_error (j_asBool J x))"

definition get_uint :: "('j, 'f) jsoncpp \<Rightarrow> 'j \<Rightarrow> string \<Rightarrow> fault + u32" where
  "get_uint J v k = rbind (get_json J v k) (\<lambda>x. of_opt json_error (j_asUInt J x))"

definition get_uint64 :: "('j, 'f) jsoncpp \<Rightarrow> 'j \<Rightarrow> string \<Rightarrow> fault + u64" where
  "get_uint64 J v k = rbind (get_json J v k) (\<lambda>x. of_opt json_error (j_asUInt64 J x))"

definition at_json :: "('j, 'f) jsoncpp \<Rightarrow> 'j \<Rightarrow> nat \<Rightarrow> fault + 'j" where
  "at_json J v i = of_opt json_error (j_at J v i)"

text \<open>A run of assignments \<open>v[k1] = x1; v[k2] = x2; ...\<close>.\<close>

definition j_sets :: "('j, 'f) jsoncpp \<Rightarrow> 'j \<Rightarrow> (string \<times> 'j) list \<Rightarrow> 'j" where
  "j_sets J v kvs = foldl (\<lambda>w (k, x). j_set J w k x) v kvs"

lemmas get_defs = get_json_def get_string_def get_bool_def get_uint_def get_uint64_def at_json_def

section \<open>The behaviour the code relies on\<close>

locale jsoncpp_laws =
  fixes J :: "('j, 'f) jsoncpp"
  assumes type_null: "j_type J (j_null J) = nullValue"
    and type_object: "j_type J (j_object J) = objectValue"
    and type_values:
      "j_type J (j_ofBool J b) = booleanValue" "j_type J (j_ofInt64 J i) = intValue"
      "j_type J (j_ofUInt64 J u) = uintValue" "j_type J (j_ofDouble J d) = realValue"
      "j_type J (j_ofString J s) = stringValue"
    and as_values:
      "j_asBool J (j_ofBool J b) = Some b" "j_asInt64 J (j_ofInt64 J i) = Some i"
      "j_asUInt64 J (j_ofUInt64 J u) = Some u" "j_asDouble J (j_ofDouble J d) = Some d"
      "j_asString J (j_ofString J s) = Some s"
    and asUInt_ofUInt64:
      "j_asUInt J (j_ofUInt64 J u) = (if uint u < 2 ^ 32 then Some (ucast u) else None)"
    and asUInt_ofInt64: "uint i < 2 ^ 32 \<Longrightarrow> j_asUInt J (j_ofInt64 J i) = Some (ucast i)"
    and as_null:
      "j_asString J (j_null J) = Some []" "j_asUInt J (j_null J) = Some 0"
      "j_asUInt64 J (j_null J) = Some 0" "j_asBool J (j_null J) = Some False"
    and type_set: "j_type J v \<in> {nullValue, objectValue} \<Longrightarrow> j_type J (j_set J v k x) = objectValue"
    and get_set: "j_type J v \<in> {nullValue, objectValue} \<Longrightarrow>
      j_get J (j_set J v k x) k' = (if k' = k then Some x else j_get J v k')"
    and get_null: "j_get J (j_null J) k = Some (j_null J)"
    and get_object: "j_get J (j_object J) k = Some (j_null J)"
    and names_null: "j_names J (j_null J) = []"
    and names_object: "j_names J (j_object J) = []"
    and names_set: "j_type J v \<in> {nullValue, objectValue} \<Longrightarrow>
      set (j_names J (j_set J v k x)) = insert k (set (j_names J v))"
    and member_null: "\<not> j_isMember J (j_null J) k"
    and member_set: "j_type J v \<in> {nullValue, objectValue} \<Longrightarrow>
      j_isMember J (j_set J v k x) k' \<longleftrightarrow> k' = k \<or> j_isMember J v k'"
    and get_remove: "j_type J v = objectValue \<Longrightarrow>
      j_get J (j_remove J v k) k' = (if k' = k then Some (j_null J) else j_get J v k')"
    and type_remove: "j_type J v = objectValue \<Longrightarrow> j_type J (j_remove J v k) = objectValue"
    and member_remove: "j_type J v = objectValue \<Longrightarrow>
      j_isMember J (j_remove J v k) k' \<longleftrightarrow> k' \<noteq> k \<and> j_isMember J v k'"
    and type_setAt: "j_type J v \<in> {nullValue, arrayValue} \<Longrightarrow> j_type J (j_setAt J v n x) = arrayValue"
    and at_setAt: "j_type J v \<in> {nullValue, arrayValue} \<Longrightarrow>
      j_at J (j_setAt J v n x) n' = (if n' = n then Some x else j_at J v n')"
    and at_null: "j_at J (j_null J) n = Some (j_null J)"
    and size_null: "j_size J (j_null J) = 0"
    and size_setAt: "j_type J v \<in> {nullValue, arrayValue} \<Longrightarrow>
      j_size J (j_setAt J v n x) = max (j_size J v) (Suc n)"
begin

lemmas type_simps [simp] = type_null type_object type_values type_set type_setAt type_remove
lemmas as_simps [simp] = as_values asUInt_ofUInt64 as_null
lemmas member_simps [simp] = member_null member_set member_remove
lemmas lookup_simps [simp] =
  get_null get_object get_set get_remove at_null at_setAt size_null size_setAt names_null names_object

lemma sets_Nil [simp]: "j_sets J v [] = v"
  by (simp add: j_sets_def)

lemma sets_Cons [simp]: "j_sets J v ((k, x) # kvs) = j_sets J (j_set J v k x) kvs"
  by (simp add: j_sets_def)

lemma type_sets:
  "j_type J v \<in> {nullValue, objectValue} \<Longrightarrow>
    j_type J (j_sets J v kvs) = (if kvs = [] then j_type J v else objectValue)"
proof (induction kvs arbitrary: v)
  case (Cons p kvs)
  then show ?case using Cons.IH [of "j_set J v (fst p) (snd p)"] by (cases p) auto
qed simp

lemma names_sets:
  "j_type J v \<in> {nullValue, objectValue} \<Longrightarrow>
    set (j_names J (j_sets J v kvs)) = set (j_names J v) \<union> fst ` set kvs"
proof (induction kvs arbitrary: v)
  case (Cons p kvs)
  then show ?case using Cons.IH [of "j_set J v (fst p) (snd p)"] by (cases p) (auto simp: names_set)
qed simp

lemma get_sets:
  "j_type J v \<in> {nullValue, objectValue} \<Longrightarrow> distinct (map fst kvs) \<Longrightarrow>
    j_get J (j_sets J v kvs) k = (case map_of kvs k of None \<Rightarrow> j_get J v k | Some x \<Rightarrow> Some x)"
proof (induction kvs arbitrary: v)
  case (Cons p kvs)
  obtain k' x where p: "p = (k', x)" by fastforce
  have t: "j_type J (j_set J v k' x) \<in> {nullValue, objectValue}" using Cons.prems by simp
  have "map_of kvs k' = None" using Cons.prems p by (simp add: map_of_eq_None_iff)
  moreover have "j_get J (j_sets J (j_set J v k' x) kvs) k =
      (case map_of kvs k of None \<Rightarrow> j_get J (j_set J v k' x) k | Some x \<Rightarrow> Some x)"
    using Cons.IH [OF t] Cons.prems(2) p by simp
  ultimately show ?case using get_set [OF Cons.prems(1)]
    by (cases "k = k'") (simp_all add: p split: option.split)
qed simp

end

section \<open>An executable instance\<close>

datatype 'f json =
    JNull
  | JBool bool
  | JInt u64
  | JUInt u64
  | JReal 'f
  | JStr string
  | JArr "'f json list"
  | JObj "(string \<times> 'f json) list"

fun json_type :: "'f json \<Rightarrow> ValueType" where
  "json_type JNull = nullValue"
| "json_type (JBool _) = booleanValue"
| "json_type (JInt _) = intValue"
| "json_type (JUInt _) = uintValue"
| "json_type (JReal _) = realValue"
| "json_type (JStr _) = stringValue"
| "json_type (JArr _) = arrayValue"
| "json_type (JObj _) = objectValue"

fun json_asBool :: "'f json \<Rightarrow> bool option" where
  "json_asBool JNull = Some False"
| "json_asBool (JBool b) = Some b"
| "json_asBool (JInt i) = Some (i \<noteq> 0)"
| "json_asBool (JUInt u) = Some (u \<noteq> 0)"
| "json_asBool _ = None"

fun json_asInt64 :: "'f json \<Rightarrow> u64 option" where
  "json_asInt64 JNull = Some 0"
| "json_asInt64 (JInt i) = Some i"
| "json_asInt64 (JUInt u) = (if uint u < 2 ^ 63 then Some u else None)"
| "json_asInt64 _ = None"

fun json_asUInt64 :: "'f json \<Rightarrow> u64 option" where
  "json_asUInt64 JNull = Some 0"
| "json_asUInt64 (JInt i) = (if 0 \<le> sint i then Some i else None)"
| "json_asUInt64 (JUInt u) = Some u"
| "json_asUInt64 _ = None"

definition json_asUInt :: "'f json \<Rightarrow> u32 option" where
  "json_asUInt v =
    (case json_asUInt64 v of None \<Rightarrow> None
     | Some u \<Rightarrow> if uint u < 2 ^ 32 then Some (ucast u) else None)"

fun json_asDouble :: "'f json \<Rightarrow> 'f option" where
  "json_asDouble (JReal d) = Some d"
| "json_asDouble _ = None"

fun json_asString :: "'f json \<Rightarrow> string option" where
  "json_asString JNull = Some []"
| "json_asString (JStr s) = Some s"
| "json_asString _ = None"

fun json_get :: "'f json \<Rightarrow> string \<Rightarrow> 'f json option" where
  "json_get JNull k = Some JNull"
| "json_get (JObj m) k = Some (case map_of m k of None \<Rightarrow> JNull | Some x \<Rightarrow> x)"
| "json_get _ k = None"

fun json_set :: "'f json \<Rightarrow> string \<Rightarrow> 'f json \<Rightarrow> 'f json" where
  "json_set (JObj m) k x = JObj (aput k x m)"
| "json_set _ k x = JObj [(k, x)]"

fun json_at :: "'f json \<Rightarrow> nat \<Rightarrow> 'f json option" where
  "json_at JNull n = Some JNull"
| "json_at (JArr xs) n = Some (if n < length xs then xs ! n else JNull)"
| "json_at _ n = None"

definition put_at :: "nat \<Rightarrow> 'f json \<Rightarrow> 'f json list \<Rightarrow> 'f json list" where
  "put_at n x xs =
    (if n < length xs then xs[n := x] else xs @ replicate (n - length xs) JNull @ [x])"

fun json_setAt :: "'f json \<Rightarrow> nat \<Rightarrow> 'f json \<Rightarrow> 'f json" where
  "json_setAt (JArr xs) n x = JArr (put_at n x xs)"
| "json_setAt _ n x = JArr (put_at n x [])"

fun json_names :: "'f json \<Rightarrow> string list" where
  "json_names (JObj m) = map fst m"
| "json_names _ = []"

fun json_isMember :: "'f json \<Rightarrow> string \<Rightarrow> bool" where
  "json_isMember (JObj m) k \<longleftrightarrow> k \<in> set (map fst m)"
| "json_isMember _ k \<longleftrightarrow> False"

fun json_remove :: "'f json \<Rightarrow> string \<Rightarrow> 'f json" where
  "json_remove (JObj m) k = JObj (adel k m)"
| "json_remove v k = v"

fun json_size :: "'f json \<Rightarrow> nat" where
  "json_size (JArr xs) = length xs"
| "json_size (JObj m) = length m"
| "json_size _ = 0"

definition json_model :: "('f json, 'f) jsoncpp" where
  "json_model = \<lparr>j_null = JNull, j_object = JObj [], j_ofBool = JBool, j_ofInt64 = JInt,
     j_ofUInt64 = JUInt, j_ofDouble = JReal, j_ofString = JStr, j_type = json_type,
     j_asBool = json_asBool, j_asInt64 = json_asInt64, j_asUInt = json_asUInt,
     j_asUInt64 = json_asUInt64, j_asDouble = json_asDouble, j_asString = json_asString,
     j_get = json_get, j_set = json_set, j_at = json_at, j_setAt = json_setAt,
     j_names = json_names, j_isMember = json_isMember, j_remove = json_remove,
     j_size = json_size, j_write = (\<lambda>_. []), j_styled = (\<lambda>_. []), j_parse = (\<lambda>_. Inl ''no text form'')\<rparr>"

lemma object_or_null:
  "json_type v \<in> {nullValue, objectValue} \<Longrightarrow> v = JNull \<or> (\<exists>m. v = JObj m)"
  by (cases v) auto

lemma array_or_null:
  "json_type v \<in> {nullValue, arrayValue} \<Longrightarrow> v = JNull \<or> (\<exists>xs. v = JArr xs)"
  by (cases v) auto

lemma length_put_at [simp]: "length (put_at n x xs) = max (length xs) (Suc n)"
  by (auto simp: put_at_def)

lemma put_at_nth:
  "(if n' < length (put_at n x xs) then put_at n x xs ! n' else JNull)
    = (if n' = n then x else if n' < length xs then xs ! n' else JNull)"
  by (auto simp: put_at_def nth_append nth_Cons' nth_list_update)

lemma member_names: "k \<in> fst ` set m \<longleftrightarrow> map_of m k \<noteq> None"
  by (simp add: map_of_eq_None_iff)

lemma small_nonneg: "uint (i :: u64) < 2 ^ 32 \<Longrightarrow> 0 \<le> sint i"
proof -
  assume i: "uint i < 2 ^ 32"
  moreover have "- (2 ^ 63) \<le> uint i" by (rule order_trans [of _ 0]) simp_all
  ultimately have "sint i = uint i" by (simp only: sint_uint) (rule signed_take_bit_int_eq_self, simp_all)
  then show ?thesis by simp
qed

interpretation json_model: jsoncpp_laws "json_model :: ('f json, 'f) jsoncpp"
proof
  fix v :: "'f json" and k k' x
  assume "j_type json_model v \<in> {nullValue, objectValue}"
  then have "v = JNull \<or> (\<exists>m. v = JObj m)" using object_or_null [of v] by (simp add: json_model_def)
  then show "j_type json_model (j_set json_model v k x) = objectValue"
    and "j_get json_model (j_set json_model v k x) k' = (if k' = k then Some x else j_get json_model v k')"
    and "set (j_names json_model (j_set json_model v k x)) = insert k (set (j_names json_model v))"
    and "j_isMember json_model (j_set json_model v k x) k' \<longleftrightarrow> k' = k \<or> j_isMember json_model v k'"
    by (auto simp: json_model_def)
next
  fix v :: "'f json" and k k'
  assume "j_type json_model v = objectValue"
  then obtain m where "v = JObj m" by (cases v) (auto simp: json_model_def)
  then show "j_get json_model (j_remove json_model v k) k'
      = (if k' = k then Some (j_null json_model) else j_get json_model v k')"
    and "j_type json_model (j_remove json_model v k) = objectValue"
    and "j_isMember json_model (j_remove json_model v k) k' \<longleftrightarrow> k' \<noteq> k \<and> j_isMember json_model v k'"
    by (auto simp: json_model_def member_names)
next
  fix v :: "'f json" and n n' x
  assume "j_type json_model v \<in> {nullValue, arrayValue}"
  then have v: "v = JNull \<or> (\<exists>xs. v = JArr xs)" using array_or_null [of v] by (simp add: json_model_def)
  then show "j_type json_model (j_setAt json_model v n x) = arrayValue"
    and "j_size json_model (j_setAt json_model v n x) = max (j_size json_model v) (Suc n)"
    by (auto simp: json_model_def)
  from v show "j_at json_model (j_setAt json_model v n x) n'
      = (if n' = n then Some x else j_at json_model v n')"
    by (auto simp: json_model_def put_at_nth [of _ _ _ "[]", simplified] put_at_nth
        simp del: length_put_at)
qed (auto simp: json_model_def json_asUInt_def small_nonneg)

end
