(* ===== verification/JsonContainers.thy ===== *)
theory JsonContainers
  imports Json
begin

text \<open>
  Arrays in JSON: \<open>JsonToContinuous\<close> of \<open>Parsers.h\<close> and \<open>ContinuousToJson\<close> of
  \<open>Printers.h\<close>.  Both are templates over the container; the element's \<open>as<T>()\<close> and its
  conversion to a JSON value are arguments.  A value array is a list of fixed length.
\<close>

definition JsonToContinuous ::
    "('j, 'f) jsoncpp \<Rightarrow> ('j \<Rightarrow> 'a option) \<Rightarrow> 'j \<Rightarrow> u64 option \<Rightarrow> bool \<Rightarrow> fault + 'a list" where
  "JsonToContinuous J asT val sz sizeless_format =
    rbind (case sz of
             Some n \<Rightarrow> Inr (unat n)
           | None \<Rightarrow> if sizeless_format then Inr (j_size J val)
                     else rbind (get_uint J val ''size'') (\<lambda>n. Inr (unat n)))
      (\<lambda>size.
        if \<not> sizeless_format
        then rmap (\<lambda>i. rbind (get_json J val ''data'')
                 (\<lambda>d. rbind (at_json J d i) (\<lambda>x. of_opt json_error (asT x)))) [0..<size]
        else rmap (\<lambda>i. rbind (at_json J val i) (\<lambda>x. of_opt json_error (asT x))) [0..<size])"

definition fill_array :: "('j, 'f) jsoncpp \<Rightarrow> ('a \<Rightarrow> 'j) \<Rightarrow> 'a list \<Rightarrow> 'j \<Rightarrow> 'j" where
  "fill_array J ofT col arr = for_loop (length col) (\<lambda>i v. j_setAt J v i (ofT (col ! i))) arr"

definition ContinuousToJson ::
    "('j, 'f) jsoncpp \<Rightarrow> ('a \<Rightarrow> 'j) \<Rightarrow> 'a list \<Rightarrow> bool \<Rightarrow> bool \<Rightarrow> 'j" where
  "ContinuousToJson J ofT col print_size sizeless_format =
    (if \<not> sizeless_format
     then (let res = (if print_size
                      then j_set J (j_null J) ''size'' (j_ofUInt64 J (of_nat (length col)))
                      else j_null J)
           in if col = [] then res else j_set J res ''data'' (fill_array J ofT col (j_null J)))
     else fill_array J ofT col (j_null J))"

section \<open>Facts under the library's laws\<close>

context jsoncpp_laws
begin

lemma fill_array_prefix:
  fixes ofT :: "'a \<Rightarrow> 'j"
  assumes "n \<le> length col"
  defines "v \<equiv> for_loop n (\<lambda>i v. j_setAt J v i (ofT (col ! i))) (j_null J)"
  shows "j_type J v = (if n = 0 then nullValue else arrayValue) \<and> j_size J v = n \<and>
    (\<forall>i. j_at J v i = Some (if i < n then ofT (col ! i) else j_null J))"
  unfolding v_def using assms(1)
proof (induction n)
  case 0
  then show ?case by simp
next
  case (Suc n)
  let ?w = "for_loop n (\<lambda>i v. j_setAt J v i (ofT (col ! i))) (j_null J)"
  from Suc have ih: "j_type J ?w = (if n = 0 then nullValue else arrayValue)" "j_size J ?w = n"
      "\<forall>i. j_at J ?w i = Some (if i < n then ofT (col ! i) else j_null J)" by simp_all
  then have "j_type J ?w \<in> {nullValue, arrayValue}" by simp
  with ih show ?case by (simp add: less_Suc_eq)
qed

lemma fill_array_at:
  "i < length col \<Longrightarrow> j_at J (fill_array J ofT col (j_null J)) i = Some (ofT (col ! i))"
  using fill_array_prefix [of "length col" col ofT] by (simp add: fill_array_def)

lemma fill_array_size: "j_size J (fill_array J ofT col (j_null J)) = length col"
  using fill_array_prefix [of "length col" col ofT] by (simp add: fill_array_def)

lemma fill_array_beyond:
  "length col \<le> i \<Longrightarrow> j_at J (fill_array J ofT col (j_null J)) i = Some (j_null J)"
  using fill_array_prefix [of "length col" col ofT] by (simp add: fill_array_def)

lemma read_array:
  assumes "\<And>x. asT (ofT x) = Some x" and "n \<le> length col"
  shows "rmap (\<lambda>i. rbind (at_json J (fill_array J ofT col (j_null J)) i)
      (\<lambda>x. of_opt json_error (asT x))) [0..<n] = Inr (take n col)"
proof -
  have "rmap (\<lambda>i. rbind (at_json J (fill_array J ofT col (j_null J)) i)
      (\<lambda>x. of_opt json_error (asT x))) [0..<n] = Inr (map (\<lambda>i. col ! i) [0..<n])"
    using assms by (intro rmap_all_Inr) (simp add: at_json_def fill_array_at)
  then show ?thesis using assms(2)
    by (simp add: list_eq_iff_nth_eq)
qed

lemma JsonToContinuous_sized:
  assumes as: "\<And>x. asT (ofT x) = Some x" and "unat n \<le> length col"
  shows "JsonToContinuous J asT (ContinuousToJson J ofT col ps True) (Some n) True
      = Inr (take (unat n) col)"
  using read_array [OF assms] by (simp add: JsonToContinuous_def ContinuousToJson_def)

lemma JsonToContinuous_sizeless:
  assumes as: "\<And>x. asT (ofT x) = Some x"
  shows "JsonToContinuous J asT (ContinuousToJson J ofT col ps True) None True = Inr col"
  using read_array [OF as, of "length col" col]
  by (simp add: JsonToContinuous_def ContinuousToJson_def fill_array_size)

lemma JsonToContinuous_with_size:
  assumes as: "\<And>x. asT (ofT x) = Some x" and small: "length col < 2 ^ 32"
  shows "JsonToContinuous J asT (ContinuousToJson J ofT col True False) None False = Inr col"
proof -
  have n64: "uint (of_nat (length col) :: u64) = int (length col)"
    using small by (simp add: unsigned_of_nat take_bit_nat_eq_self)
  have n: "unat (ucast (of_nat (length col) :: u64) :: u32) = length col"
    using small by (simp add: unsigned_ucast_eq unsigned_of_nat take_bit_nat_eq_self)
  show ?thesis
    using read_array [OF as, of "length col" col] small
    by (cases "col = []")
      (simp_all add: JsonToContinuous_def ContinuousToJson_def get_defs Let_def n n64)
qed

end

section \<open>Properties\<close>

text \<open>An array written in either JSON form is read back unchanged, whatever the container;
a reader that is given an explicit size takes that many leading elements and no more.\<close>

theorem continuous_round_trip:
  assumes "jsoncpp_laws J" and "\<And>x. asT (ofT x) = Some x"
  shows "JsonToContinuous J asT (ContinuousToJson J ofT col ps True) None True = Inr col \<and>
    (length col < 2 ^ 32 \<longrightarrow>
      JsonToContinuous J asT (ContinuousToJson J ofT col True False) None False = Inr col) \<and>
    (unat n \<le> length col \<longrightarrow>
      JsonToContinuous J asT (ContinuousToJson J ofT col ps True) (Some n) True
        = Inr (take (unat n) col))"
  using jsoncpp_laws.JsonToContinuous_sizeless [OF assms(1), of asT ofT]
    jsoncpp_laws.JsonToContinuous_with_size [OF assms(1), of asT ofT]
    jsoncpp_laws.JsonToContinuous_sized [OF assms(1), of asT ofT] assms(2)
  by blast+

theorem continuous_round_trip_witness:
  "JsonToContinuous (json_model :: (unit json, unit) jsoncpp) json_asUInt64
     (ContinuousToJson json_model JUInt [3, 1, 2] True True) (Some 1) True = Inr [3]"
  using continuous_round_trip [where J = "json_model :: (unit json, unit) jsoncpp" and asT = json_asUInt64 and ofT = JUInt and n = 1 and col = "[3, 1, 2]" and ps = True,
      OF json_model.jsoncpp_laws_axioms]
  by simp

end
