(* ===== verification/EnumUtils.thy ===== *)
theory EnumUtils
  imports ErrorHandling
begin

text \<open>
  \<open>utilLib/include/common/enumUtils.h\<close>: lookup tables between enumerators and strings (or
  other values), the maps built from them and the two casts.  The locale \<open>enum_table\<close> is the
  contract every table of the program satisfies (each enumerator once, each text once, no
  enumerator missing); the casts are inverse to each other under it.  The tables of
  \<open>sharedDeclarations.h\<close> and the main node's status names are here, the others stand with
  their components, each with an interpretation of the locale.
\<close>

section \<open>Maps built from a table\<close>

text \<open>A table is a \<open>std::vector<EnumDoubleMapping>\<close>: pairs of enumerator and counterpart.\<close>

type_synonym ('e, 't) EnumDoubleMapping = "'e \<times> 't"

definition CreateFromTypeToEnumMap :: "('e, 't) EnumDoubleMapping list \<Rightarrow> ('t \<rightharpoonup> 'e)" where
  "CreateFromTypeToEnumMap mappings = foldl (\<lambda>m (v, t). m(t \<mapsto> v)) Map.empty mappings"

definition CreateEnumToTypeMap :: "('e, 't) EnumDoubleMapping list \<Rightarrow> ('e \<rightharpoonup> 't)" where
  "CreateEnumToTypeMap mappings = foldl (\<lambda>m (v, t). m(v \<mapsto> t)) Map.empty mappings"

definition CreateStrToEnumMap :: "('e, string) EnumDoubleMapping list \<Rightarrow> (string \<rightharpoonup> 'e)" where
  "CreateStrToEnumMap mappings = CreateFromTypeToEnumMap mappings"

definition CreateEnumToStrMap :: "('e, string) EnumDoubleMapping list \<Rightarrow> ('e \<rightharpoonup> string)" where
  "CreateEnumToStrMap mappings = CreateEnumToTypeMap mappings"

text \<open>
  \<open>FromToEnum\<close> is used with \<open>From = std::string\<close> only: its exception stores a string.
  \<open>EnumToType\<close> dereferences the iterator without comparing it to \<open>end()\<close>.
\<close>

definition FromToEnum :: "string \<Rightarrow> (string \<rightharpoonup> 'e) \<Rightarrow> fault + 'e" where
  "FromToEnum str m = (case m str of None \<Rightarrow> Inl (Thrown (InvalidOption str)) | Some v \<Rightarrow> Inr v)"

definition EnumToType :: "'e \<Rightarrow> ('e \<rightharpoonup> 't) \<Rightarrow> fault + 't" where
  "EnumToType value m =
    (case m value of None \<Rightarrow> Inl (UB ''dereference of end()'') | Some t \<Rightarrow> Inr t)"

definition StrToEnum :: "string \<Rightarrow> (string \<rightharpoonup> 'e) \<Rightarrow> fault + 'e" where
  "StrToEnum str m = FromToEnum str m"

definition EnumToStr :: "'e \<Rightarrow> ('e \<rightharpoonup> string) \<Rightarrow> fault + string" where
  "EnumToStr value m = EnumToType value m"

section \<open>What the maps hold\<close>

lemma foldl_upd_fst:
  "foldl (\<lambda>m (v, t). m(v \<mapsto> t)) m0 ms = m0 ++ map_of (rev ms)"
  by (induction ms arbitrary: m0) (auto simp: map_add_def fun_eq_iff split: option.splits)

lemma foldl_upd_snd:
  "foldl (\<lambda>m (v, t). m(t \<mapsto> v)) m0 ms = m0 ++ map_of (rev (map prod.swap ms))"
  by (induction ms arbitrary: m0) (auto simp: map_add_def fun_eq_iff split: option.splits)

lemma CreateEnumToTypeMap_eq:
  "distinct (map fst ms) \<Longrightarrow> CreateEnumToTypeMap ms = map_of ms"
  by (simp add: CreateEnumToTypeMap_def foldl_upd_fst map_of_rev_distinct)

lemma map_fst_swap [simp]: "map fst (map prod.swap ms) = map snd ms"
  by (induction ms) auto

lemma CreateFromTypeToEnumMap_eq:
  "distinct (map snd ms) \<Longrightarrow> CreateFromTypeToEnumMap ms = map_of (map prod.swap ms)"
  using map_of_rev_distinct [of "map prod.swap ms"]
  by (simp only: CreateFromTypeToEnumMap_def foldl_upd_snd map_fst_swap empty_map_add)

section \<open>The contract of a table\<close>

locale enum_table =
  fixes mappings :: "('e \<times> string) list"
  assumes values_distinct: "distinct (map fst mappings)"
    and strings_distinct: "distinct (map snd mappings)"
    and values_complete: "v \<in> fst ` set mappings"
begin

definition str_of :: "'e \<Rightarrow> string" where
  "str_of v = the (map_of mappings v)"

lemma map_of_str_of: "map_of mappings v = Some (str_of v)"
  using values_complete [of v] unfolding str_of_def
  by (metis map_of_eq_None_iff option.exhaust_sel)

lemma EnumToStr_eq: "EnumToStr v (CreateEnumToStrMap mappings) = Inr (str_of v)"
  by (simp add: EnumToStr_def EnumToType_def CreateEnumToStrMap_def
      CreateEnumToTypeMap_eq [OF values_distinct] map_of_str_of)

lemma StrToEnum_map: "CreateStrToEnumMap mappings = map_of (map prod.swap mappings)"
  by (simp add: CreateStrToEnumMap_def CreateFromTypeToEnumMap_eq [OF strings_distinct])

lemma in_table: "(v, s) \<in> set mappings \<longleftrightarrow> s = str_of v"
  using map_of_eq_Some_iff [OF values_distinct, of v s] map_of_str_of [of v] by auto

lemma str_of_eqI: "(v, s) \<in> set mappings \<Longrightarrow> str_of v = s"
  by (simp add: in_table)

lemma swap_map_of: "map_of (map prod.swap mappings) s = Some v \<longleftrightarrow> s = str_of v"
proof -
  have "distinct (map fst (map prod.swap mappings))"
    using strings_distinct by (simp only: map_fst_swap)
  from map_of_eq_Some_iff [OF this, of s v]
  have "map_of (map prod.swap mappings) s = Some v \<longleftrightarrow> (v, s) \<in> set mappings" by force
  then show ?thesis by (simp only: in_table)
qed

lemma StrToEnum_Inr: "StrToEnum s (CreateStrToEnumMap mappings) = Inr v \<longleftrightarrow> s = str_of v"
  using swap_map_of [of s v]
  by (cases "map_of (map prod.swap mappings) s")
    (simp_all add: StrToEnum_def FromToEnum_def StrToEnum_map)

lemma StrToEnum_str_of: "StrToEnum (str_of v) (CreateStrToEnumMap mappings) = Inr v"
  by (simp add: StrToEnum_Inr)

lemma StrToEnum_unknown:
  assumes "s \<notin> snd ` set mappings"
  shows "StrToEnum s (CreateStrToEnumMap mappings) = Inl (Thrown (InvalidOption s))"
proof -
  have "map_of (map prod.swap mappings) s = None"
    using assms by (force simp: map_of_eq_None_iff)
  then show ?thesis by (simp add: StrToEnum_def FromToEnum_def StrToEnum_map)
qed

lemma round_trip:
  "rbind (EnumToStr v (CreateEnumToStrMap mappings))
     (\<lambda>s. StrToEnum s (CreateStrToEnumMap mappings)) = Inr v"
  by (simp add: EnumToStr_eq StrToEnum_str_of)

lemma str_of_inj: "str_of v = str_of w \<Longrightarrow> v = w"
  using StrToEnum_str_of [of v] StrToEnum_str_of [of w] by (metis sum.inject(2))

end

section \<open>Tables of sharedDeclarations.h and WorkerManagementService.h\<close>

datatype StateT = ST_NEW | ST_OLD | ST_OPENMP_NEW | ST_OPENMP_OLD | ST_PRINT

definition kStateTMappings :: "(StateT \<times> string) list" where
  "kStateTMappings =
    [(ST_NEW, ''new''), (ST_OLD, ''old''), (ST_OPENMP_NEW, ''openmp_new''),
     (ST_OPENMP_OLD, ''openmp_old''), (ST_PRINT, ''printImpl'')]"

definition kStateToStr :: "StateT \<rightharpoonup> string" where
  "kStateToStr = CreateEnumToStrMap kStateTMappings"

definition kStringToState :: "string \<rightharpoonup> StateT" where
  "kStringToState = CreateStrToEnumMap kStateTMappings"

interpretation stateT: enum_table kStateTMappings
proof
  fix v :: StateT
  show "v \<in> fst ` set kStateTMappings" by (cases v) (simp_all add: kStateTMappings_def)
qed (simp_all add: kStateTMappings_def)

text \<open>\<open>ParamType\<close> and \<open>ReturnCodes\<close> by their values.\<close>

datatype ReturnCodes = WARNING_MESSAGE | ALREADY_EXISTS | ERROR_OCCURED | RETURN_SUCESS

fun return_code :: "ReturnCodes \<Rightarrow> int" where
  "return_code WARNING_MESSAGE = - 3"
| "return_code ALREADY_EXISTS = - 2"
| "return_code ERROR_OCCURED = - 1"
| "return_code RETURN_SUCESS = 0"

definition kNValues :: "u64 list" where
  "kNValues = [1, 2, 4, 5, 8, 10, 20, 40, 50, 100, 200, 400, 500]"

text \<open>\<open>DefaultBench\<close>: a value array of the benchmark's size, every slot set to \<open>init\<close>.\<close>

definition DefaultBench :: "u64 \<Rightarrow> u64 list" where
  "DefaultBench init = replicate (length kNValues) init"

lemma length_DefaultBench [simp]: "length (DefaultBench i) = 13"
  by (simp add: DefaultBench_def kNValues_def)

datatype NodeStatus = ACTIVE | INACTIVE | FAILED

definition kNodeStatusToStr :: "(NodeStatus \<times> string) list" where
  "kNodeStatusToStr = [(ACTIVE, ''Active''), (INACTIVE, ''Inactive''), (FAILED, ''Failed'')]"

interpretation nodeStatus: enum_table kNodeStatusToStr
proof
  fix v :: NodeStatus
  show "v \<in> fst ` set kNodeStatusToStr" by (cases v) (simp_all add: kNodeStatusToStr_def)
qed (simp_all add: kNodeStatusToStr_def)

end
