(* ===== verification/Valarray.thy ===== *)
theory Valarray
  imports ErrorHandling
begin

text \<open>
  Arithmetic on \<open>std::valarray\<close>, the container of benchmark vectors and meshes: operands of
  different lengths, an index out of range and a zero divisor are undefined behaviour.
\<close>

definition va_zip :: "('a \<Rightarrow> 'b \<Rightarrow> 'c) \<Rightarrow> 'a list \<Rightarrow> 'b list \<Rightarrow> fault + 'c list" where
  "va_zip f xs ys =
    (if length xs = length ys then Inr (map2 f xs ys) else Inl (UB ''valarray size mismatch''))"

definition va_div :: "u64 list \<Rightarrow> u64 list \<Rightarrow> fault + u64 list" where
  "va_div xs ys =
    (if 0 \<in> set ys then Inl (UB ''integer division by zero'') else va_zip (div) xs ys)"

definition scalar_div :: "u64 \<Rightarrow> u64 list \<Rightarrow> fault + u64 list" where
  "scalar_div a ys =
    (if 0 \<in> set ys then Inl (UB ''integer division by zero'') else Inr (map (\<lambda>y. a div y) ys))"

definition va_get :: "'a list \<Rightarrow> nat \<Rightarrow> fault + 'a" where
  "va_get xs i = (if i < length xs then Inr (xs ! i) else Inl (UB ''valarray index out of bounds''))"

lemma va_zip_Inr: "va_zip f xs ys = Inr zs \<Longrightarrow> length xs = length ys \<and> zs = map2 f xs ys"
  by (simp add: va_zip_def split: if_splits)

lemma va_zip_same [simp]: "length xs = length ys \<Longrightarrow> va_zip f xs ys = Inr (map2 f xs ys)"
  by (simp add: va_zip_def)

lemma va_get_in [simp]: "i < length xs \<Longrightarrow> va_get xs i = Inr (xs ! i)"
  by (simp add: va_get_def)

lemma va_get_Inr: "va_get xs i = Inr x \<longleftrightarrow> i < length xs \<and> x = xs ! i"
  by (auto simp: va_get_def)

end
