(* ===== verification/Workers.thy ===== *)
theory Workers
  imports JsonContainers EnumUtils Valarray
begin

text \<open>
  \<open>WorkerManagementService.h/.cpp\<close>: the registry of worker nodes.  Nodes live in a map from
  status to a map from host to node; \<open>operator[]\<close> inserts a missing key, which the model
  keeps (\<open>touch\<close>), and the order of the lists is the iteration order of the containers.
  HTTP requests to a worker go through drogon: the answer of \<open>sendRequest\<close> is an argument
  of the operations that send.
\<close>

section \<open>State\<close>

text \<open>A client is the URL it was created with; a node that no call created has a null client.\<close>

record ComputationalNode =
  http_client :: "string option"
  st :: NodeStatus
  bench_result :: "u64 list"
  node_speed :: "u64 list"

type_synonym node_map = "(string \<times> ComputationalNode) list"

record WorkerManagementService =
  worker_nodes :: "(NodeStatus \<times> node_map) list"
  normalized :: "u64 list"

definition empty_node :: ComputationalNode where
  "empty_node = \<lparr>http_client = None, st = ACTIVE, bench_result = [], node_speed = []\<rparr>"

definition new_WorkerManagementService :: WorkerManagementService where
  "new_WorkerManagementService = \<lparr>worker_nodes = [], normalized = DefaultBench 0\<rparr>"

definition kBenchInfinity :: u64 where
  "kBenchInfinity = 1000000000000"

text \<open>
  What \<open>HttpClient::sendRequest\<close> gives: an unreachable server, another failure (the response
  pointer is null), or a status code and the JSON body, if there is one.
\<close>

datatype 'j http_answer = BadServerAddress | NoResponse | Response nat "'j option"

section \<open>Access through \<open>operator[]\<close>\<close>

definition status_map :: "NodeStatus \<Rightarrow> WorkerManagementService \<Rightarrow> node_map" where
  "status_map status w = (case map_of (worker_nodes w) status of None \<Rightarrow> [] | Some m \<Rightarrow> m)"

definition put_status_map :: "NodeStatus \<Rightarrow> node_map \<Rightarrow> WorkerManagementService \<Rightarrow> WorkerManagementService" where
  "put_status_map status m w = w\<lparr>worker_nodes := aput status m (worker_nodes w)\<rparr>"

definition touch :: "NodeStatus \<Rightarrow> WorkerManagementService \<Rightarrow> WorkerManagementService" where
  "touch status w = put_status_map status (status_map status w) w"

definition has_node :: "NodeStatus \<Rightarrow> string \<Rightarrow> WorkerManagementService \<Rightarrow> bool" where
  "has_node status host w \<longleftrightarrow> map_of (status_map status w) host \<noteq> None"

text \<open>\<open>worker_nodes_[status][host]\<close> as a reference: the node, default-constructed if missing.\<close>

definition node_ref :: "NodeStatus \<Rightarrow> string \<Rightarrow> WorkerManagementService \<Rightarrow> ComputationalNode" where
  "node_ref status host w =
    (case map_of (status_map status w) host of None \<Rightarrow> empty_node | Some n \<Rightarrow> n)"

definition put_node :: "NodeStatus \<Rightarrow> string \<Rightarrow> ComputationalNode \<Rightarrow> WorkerManagementService \<Rightarrow> WorkerManagementService" where
  "put_node status host n w = put_status_map status (aput host n (status_map status w)) w"

definition erase_node :: "NodeStatus \<Rightarrow> string \<Rightarrow> WorkerManagementService \<Rightarrow> WorkerManagementService" where
  "erase_node status host w = put_status_map status (adel host (status_map status w)) w"

section \<open>Operations\<close>

text \<open>
  The third argument of \<open>JsonToContinuous\<close> is the optional size: the code passes \<open>true\<close>,
  which converts to the size 1.
\<close>

definition RecomputeCoefficients ::
    "('j, 'f) jsoncpp \<Rightarrow> 'j \<Rightarrow> ComputationalNode \<Rightarrow> fault + ComputationalNode" where
  "RecomputeCoefficients J val node =
    rbind (JsonToContinuous J (j_asUInt64 J) val (Some 1) True)
      (\<lambda>bench. if length (node_speed node) = 0
               then rbind (scalar_div kBenchInfinity bench)
                      (\<lambda>speed. Inr (node\<lparr>bench_result := bench, node_speed := speed\<rparr>))
               else Inr (node\<lparr>bench_result := bench\<rparr>))"

definition MoveNode :: "string \<Rightarrow> NodeStatus \<Rightarrow> NodeStatus \<Rightarrow> WorkerManagementService \<Rightarrow> WorkerManagementService" where
  "MoveNode host_port fromS toS w =
    (let aa = node_ref fromS host_port w
     in put_node toS host_port aa (erase_node fromS host_port w))"

definition AddNewNode ::
    "('j, 'f) jsoncpp \<Rightarrow> string \<Rightarrow> WorkerManagementService \<Rightarrow> 'j \<times> WorkerManagementService" where
  "AddNewNode J host_port w =
    (let w1 = touch INACTIVE w
     in if \<not> has_node INACTIVE host_port w1 \<and> \<not> has_node ACTIVE host_port w1
        then (j_null J,
              put_node INACTIVE host_port
                (empty_node\<lparr>http_client := Some (''http://'' @ host_port), st := INACTIVE\<rparr>)
                (touch ACTIVE w1))
        else let w2 = touch ACTIVE w1
             in if has_node ACTIVE host_port w2
                then (j_sets J (j_null J)
                        [(''status'', j_ofInt64 J 409),
                         (''message'', j_ofString J (fmt_format
                            ''Worker node {} is already connected to cluster!'' [host_port]))], w2)
                else (j_null J, w2))"

definition null_deref :: "string \<Rightarrow> fault" where
  "null_deref what = UB (''null pointer: '' @ what)"

text \<open>The two failure answers of a request, shared by \<open>ConnectNode\<close> and \<open>DisconnectNode\<close>.\<close>

definition unreachable_json :: "('j, 'f) jsoncpp \<Rightarrow> string \<Rightarrow> 'j" where
  "unreachable_json J host_port = j_sets J (j_null J)
     [(''message'', j_ofString J (fmt_format
         ''Unable to access worker on {}! Is working node running?'' [host_port])),
      (''status'', j_ofInt64 J 504)]"

definition worker_error_json :: "('j, 'f) jsoncpp \<Rightarrow> string \<Rightarrow> string \<Rightarrow> nat \<Rightarrow> 'j \<Rightarrow> 'j" where
  "worker_error_json J text host_port code body = j_sets J (j_null J)
     [(''message'', j_ofString J (fmt_format text [host_port])),
      (''status'', j_ofInt64 J (of_nat code)),
      (''node_output'', j_ofString J (j_styled J body))]"

definition Worker_ConnectNode ::
    "('j, 'f) jsoncpp \<Rightarrow> (string \<Rightarrow> 'j http_answer) \<Rightarrow> string \<Rightarrow> (WorkerManagementService, fault, 'j) action" where
  "Worker_ConnectNode J sendRequest host_port = (\<lambda>w.
    let w1 = put_node INACTIVE host_port (node_ref INACTIVE host_port w) w
    in case http_client (node_ref INACTIVE host_port w1) of
         None \<Rightarrow> (Inl (null_deref ''http_client_''), w1)
       | Some url \<Rightarrow>
           (case sendRequest url of
              BadServerAddress \<Rightarrow> (Inr (unreachable_json J host_port), w1)
            | NoResponse \<Rightarrow> (Inl (null_deref ''resp''), w1)
            | Response code None \<Rightarrow> (Inl (null_deref ''getJsonObject()''), w1)
            | Response code (Some body) \<Rightarrow>
                if 400 \<le> code
                then (Inr (worker_error_json J ''Error occurred during worker {} connection!''
                        host_port code body), w1)
                else (case rbind (get_json J body ''bench'')
                        (\<lambda>b. RecomputeCoefficients J b (node_ref INACTIVE host_port w1)) of
                        Inl e \<Rightarrow> (Inl e, w1)
                      | Inr node \<Rightarrow>
                          let w2 = MoveNode host_port INACTIVE ACTIVE (put_node INACTIVE host_port node w1)
                          in (case va_zip (+) (normalized w2) (node_speed (node_ref ACTIVE host_port w2)) of
                                Inl e \<Rightarrow> (Inl e, w2)
                              | Inr sums \<Rightarrow> (Inr body, w2\<lparr>normalized := sums\<rparr>)))))"

definition Worker_DisconnectNode ::
    "('j, 'f) jsoncpp \<Rightarrow> (string \<Rightarrow> 'j http_answer) \<Rightarrow> string \<Rightarrow> (WorkerManagementService, fault, 'j) action" where
  "Worker_DisconnectNode J sendRequest host_port = (\<lambda>w.
    let w1 = touch ACTIVE w
    in if \<not> has_node ACTIVE host_port w1
       then (Inr (j_sets J (j_null J)
              [(''status'', j_ofInt64 J 409),
               (''message'', j_ofString J (fmt_format
                  ''Worker node {} was not connected to cluster!'' [host_port]))]), w1)
       else case http_client (node_ref ACTIVE host_port w1) of
         None \<Rightarrow> (Inl (null_deref ''http_client_''), w1)
       | Some url \<Rightarrow>
           (case sendRequest url of
              BadServerAddress \<Rightarrow> (Inr (unreachable_json J host_port), w1)
            | NoResponse \<Rightarrow> (Inl (null_deref ''resp''), w1)
            | Response code None \<Rightarrow> (Inl (null_deref ''getJsonObject()''), w1)
            | Response code (Some body) \<Rightarrow>
                if 400 \<le> code
                then (Inr (worker_error_json J ''Unable to disconnect worker {} from cluster!''
                        host_port code body), w1)
                else (let w2 = MoveNode host_port ACTIVE INACTIVE w1
                      in case va_zip (-) (normalized w2) (node_speed (node_ref INACTIVE host_port w2)) of
                           Inl e \<Rightarrow> (Inl e, w2)
                         | Inr sums \<Rightarrow> (Inr body, w2\<lparr>normalized := sums\<rparr>))))"

definition GetSum :: "WorkerManagementService \<Rightarrow> u64 list" where
  "GetSum w = normalized w"

text \<open>The range over the active nodes: \<open>begin()\<close> to \<open>end()\<close>.\<close>

definition active_nodes :: "WorkerManagementService \<Rightarrow> node_map" where
  "active_nodes w = status_map ACTIVE w"

definition node_status_json :: "('j, 'f) jsoncpp \<Rightarrow> string \<times> ComputationalNode \<Rightarrow> 'j" where
  "node_status_json J = (\<lambda>(host, node). j_sets J (j_null J)
     [(''host'', j_ofString J host),
      (''benchRes'', ContinuousToJson J (j_ofUInt64 J) (bench_result node) True False)])"

text \<open>A status with no node keeps the null value that \<open>res[j]["data"]\<close> inserts.\<close>

definition Worker_GetStatus :: "('j, 'f) jsoncpp \<Rightarrow> WorkerManagementService \<Rightarrow> 'j" where
  "Worker_GetStatus J w =
    fill_array J
      (\<lambda>(status, m). j_sets J (j_null J)
         [(''status'', j_ofString J (nodeStatus.str_of status)),
          (''data'', fill_array J (node_status_json J) m (j_null J))])
      (worker_nodes w) (j_null J)"

section \<open>Lookup after update\<close>

lemma status_map_put [simp]:
  "status_map s' (put_status_map s m w) = (if s' = s then m else status_map s' w)"
  by (simp add: status_map_def put_status_map_def)

lemma normalized_put [simp]: "normalized (put_status_map s m w) = normalized w"
  by (simp add: put_status_map_def)

lemma status_map_touch [simp]: "status_map s' (touch s w) = status_map s' w"
  by (simp add: touch_def)

lemma status_map_normalized [simp]: "status_map s (w\<lparr>normalized := v\<rparr>) = status_map s w"
  by (simp add: status_map_def)

lemma registry_simps [simp]:
  "normalized (touch s w) = normalized w"
  "status_map s' (put_node s h n w) = (if s' = s then aput h n (status_map s w) else status_map s' w)"
  "normalized (put_node s h n w) = normalized w"
  "status_map s' (erase_node s h w) = (if s' = s then adel h (status_map s w) else status_map s' w)"
  "normalized (erase_node s h w) = normalized w"
  "has_node s' h' (touch s w) = has_node s' h' w"
  "node_ref s' h' (touch s w) = node_ref s' h' w"
  by (simp_all add: touch_def put_node_def erase_node_def has_node_def node_ref_def)

lemma status_map_MoveNode:
  assumes "f \<noteq> t"
  shows "status_map s (MoveNode h f t w) =
    (if s = t then aput h (node_ref f h w) (status_map t w)
     else if s = f then adel h (status_map f w) else status_map s w)"
  using assms by (simp add: MoveNode_def Let_def)

lemma normalized_MoveNode [simp]: "normalized (MoveNode h f t w) = normalized w"
  by (simp add: MoveNode_def Let_def)

lemma has_node_iff: "has_node s h w \<longleftrightarrow> h \<in> fst ` set (status_map s w)"
  by (simp add: has_node_def map_of_eq_None_iff)

lemma map_of_node_ref: "has_node s h w \<Longrightarrow> map_of (status_map s w) h = Some (node_ref s h w)"
  by (auto simp: has_node_def node_ref_def split: option.splits)

section \<open>The invariant of the registry\<close>

text \<open>
  The speeds of the active nodes add up, slot by slot, to \<open>normalized_\<close>; a host is known at
  most once; every known node has the client of its host.
\<close>

definition speed_total :: "node_map \<Rightarrow> nat \<Rightarrow> u64" where
  "speed_total m i = sum_list (map ((\<lambda>n. node_speed n ! i) \<circ> snd) m)"

definition clients_ok :: "node_map \<Rightarrow> bool" where
  "clients_ok m \<longleftrightarrow> (\<forall>(h, n)\<in>set m. http_client n = Some (''http://'' @ h))"

definition registry_inv :: "WorkerManagementService \<Rightarrow> bool" where
  "registry_inv w \<longleftrightarrow>
     distinct (map fst (status_map ACTIVE w)) \<and> distinct (map fst (status_map INACTIVE w)) \<and>
     (\<forall>h. \<not> (has_node ACTIVE h w \<and> has_node INACTIVE h w)) \<and>
     clients_ok (status_map ACTIVE w) \<and> clients_ok (status_map INACTIVE w) \<and>
     (\<forall>(h, n)\<in>set (status_map ACTIVE w). length (node_speed n) = length (normalized w)) \<and>
     (\<forall>i < length (normalized w). normalized w ! i = speed_total (status_map ACTIVE w) i)"

text \<open>Names for the conjuncts.\<close>

lemma registry_invD:
  assumes "registry_inv w"
  shows "distinct (map fst (status_map ACTIVE w))" and "distinct (map fst (status_map INACTIVE w))"
    and "has_node ACTIVE h w \<Longrightarrow> \<not> has_node INACTIVE h w"
    and "clients_ok (status_map ACTIVE w)" and "clients_ok (status_map INACTIVE w)"
    and "(h, n) \<in> set (status_map ACTIVE w) \<Longrightarrow> length (node_speed n) = length (normalized w)"
    and "i < length (normalized w) \<Longrightarrow> normalized w ! i = speed_total (status_map ACTIVE w) i"
  using assms unfolding registry_inv_def by blast+

lemma set_aput: "p \<in> set (aput k v m) \<Longrightarrow> p = (k, v) \<or> p \<in> set m"
  by (induction k v m rule: aput.induct) (auto split: if_splits)

lemma set_adel: "p \<in> set (adel k m) \<longleftrightarrow> p \<in> set m \<and> fst p \<noteq> k"
  by (cases p) (auto simp: adel_def)

lemma clients_ok_aput:
  "clients_ok m \<Longrightarrow> http_client n = Some (''http://'' @ h) \<Longrightarrow> clients_ok (aput h n m)"
  unfolding clients_ok_def by (auto dest: set_aput)

lemma clients_ok_adel: "clients_ok m \<Longrightarrow> clients_ok (adel h m)"
  unfolding clients_ok_def by (auto simp: set_adel)

lemma client_of: "clients_ok m \<Longrightarrow> map_of m h = Some n \<Longrightarrow> http_client n = Some (''http://'' @ h)"
  unfolding clients_ok_def by (auto dest: map_of_SomeD)

lemma speed_total_aput_fresh:
  "h \<notin> fst ` set m \<Longrightarrow> speed_total (aput h n m) i = speed_total m i + node_speed n ! i"
  using sum_list_aput_fresh [of h m "\<lambda>n. node_speed n ! i" n] by (simp add: speed_total_def)

lemma speed_total_adel:
  "distinct (map fst m) \<Longrightarrow> map_of m h = Some n \<Longrightarrow>
    speed_total m i = speed_total (adel h m) i + node_speed n ! i"
  using sum_list_adel [of m h n "\<lambda>n. node_speed n ! i"] by (simp add: speed_total_def)

lemma registry_inv_new: "registry_inv new_WorkerManagementService"
  by (simp add: registry_inv_def new_WorkerManagementService_def status_map_def clients_ok_def
      speed_total_def has_node_def DefaultBench_def)

lemma aput_same: "map_of m k = Some v \<Longrightarrow> aput k v m = m"
  by (induction m) (auto split: if_splits)

lemma adel_aput [simp]: "adel k (aput k v m) = adel k m"
  by (induction k v m rule: aput.induct) (auto simp: adel_def)

lemma registry_inv_cong:
  assumes "\<And>s. status_map s w' = status_map s w" and "normalized w' = normalized w"
  shows "registry_inv w' = registry_inv w"
  by (simp add: registry_inv_def has_node_def assms)

lemma registry_inv_AddNewNode:
  assumes "registry_inv w"
  shows "registry_inv (snd (AddNewNode J h w))"
proof (cases "has_node INACTIVE h w \<or> has_node ACTIVE h w")
  case True
  then have "snd (AddNewNode J h w) = touch ACTIVE (touch INACTIVE w)"
    by (auto simp: AddNewNode_def Let_def)
  then show ?thesis using assms registry_inv_cong [of "touch ACTIVE (touch INACTIVE w)" w] by simp
next
  case False
  let ?n = "empty_node\<lparr>http_client := Some (''http://'' @ h), st := INACTIVE\<rparr>"
  from False have w': "snd (AddNewNode J h w) = put_node INACTIVE h ?n (touch ACTIVE (touch INACTIVE w))"
    by (simp add: AddNewNode_def Let_def)
  note d = registry_invD [OF assms]
  show ?thesis
    unfolding w' registry_inv_def
  proof (intro conjI)
    show "\<forall>x. \<not> (has_node ACTIVE x (put_node INACTIVE h ?n (touch ACTIVE (touch INACTIVE w))) \<and>
        has_node INACTIVE x (put_node INACTIVE h ?n (touch ACTIVE (touch INACTIVE w))))"
      using d(3) False by (simp add: has_node_def) (metis not_None_eq)
    show "clients_ok (status_map INACTIVE (put_node INACTIVE h ?n (touch ACTIVE (touch INACTIVE w))))"
      using clients_ok_aput [OF d(5), of ?n h] by simp
  qed (use d in auto)
qed

lemma RecomputeCoefficients_client:
  "RecomputeCoefficients J v n = Inr n' \<Longrightarrow> http_client n' = http_client n"
  by (auto simp: RecomputeCoefficients_def rbind_eq_Inr split: if_splits)

text \<open>Registering an active node and its speed keeps the invariant, and so does dropping one.\<close>

lemma registry_inv_activate:
  assumes inv: "registry_inv w" and off: "has_node INACTIVE h w"
    and cl: "http_client n = Some (''http://'' @ h)"
    and len: "length (normalized w) = length (node_speed n)"
    and a: "status_map ACTIVE w' = aput h n (status_map ACTIVE w)"
    and i: "status_map INACTIVE w' = adel h (status_map INACTIVE w)"
    and sum: "normalized w' = map2 (+) (normalized w) (node_speed n)"
  shows "registry_inv w'"
proof -
  note d = registry_invD [OF inv]
  have fresh: "h \<notin> fst ` set (status_map ACTIVE w)"
    using d(3) off by (auto simp: has_node_iff)
  show ?thesis
    unfolding registry_inv_def
  proof (intro conjI)
    show "distinct (map fst (status_map ACTIVE w'))" using d(1) by (simp only: a distinct_aput)
    show "distinct (map fst (status_map INACTIVE w'))" using d(2) by (simp only: i distinct_adel)
    show "\<forall>x. \<not> (has_node ACTIVE x w' \<and> has_node INACTIVE x w')"
      using d(3) by (auto simp: has_node_iff a i)
    show "clients_ok (status_map ACTIVE w')" using clients_ok_aput [OF d(4) cl] by (simp only: a)
    show "clients_ok (status_map INACTIVE w')" using clients_ok_adel [OF d(5)] by (simp only: i)
    show "\<forall>(h, n)\<in>set (status_map ACTIVE w'). length (node_speed n) = length (normalized w')"
      using d(6) len by (auto simp: a sum dest!: set_aput)
    show "\<forall>k < length (normalized w'). normalized w' ! k = speed_total (status_map ACTIVE w') k"
      using d(7) len by (simp add: a sum speed_total_aput_fresh [OF fresh])
  qed
qed

lemma registry_inv_deactivate:
  assumes inv: "registry_inv w" and on: "map_of (status_map ACTIVE w) h = Some n"
    and a: "status_map ACTIVE w' = adel h (status_map ACTIVE w)"
    and i: "status_map INACTIVE w' = aput h n (status_map INACTIVE w)"
    and sum: "normalized w' = map2 (-) (normalized w) (node_speed n)"
  shows "registry_inv w'"
proof -
  note d = registry_invD [OF inv]
  have len: "length (node_speed n) = length (normalized w)"
    using d(6) on by (blast dest: map_of_SomeD)
  show ?thesis
    unfolding registry_inv_def
  proof (intro conjI)
    show "distinct (map fst (status_map ACTIVE w'))" using d(1) by (simp only: a distinct_adel)
    show "distinct (map fst (status_map INACTIVE w'))" using d(2) by (simp only: i distinct_aput)
    show "\<forall>x. \<not> (has_node ACTIVE x w' \<and> has_node INACTIVE x w')"
      using d(3) by (auto simp: has_node_iff a i)
    show "clients_ok (status_map ACTIVE w')" using clients_ok_adel [OF d(4)] by (simp only: a)
    show "clients_ok (status_map INACTIVE w')"
      using clients_ok_aput [OF d(5) client_of [OF d(4) on]] by (simp only: i)
    show "\<forall>(h, n)\<in>set (status_map ACTIVE w'). length (node_speed n) = length (normalized w')"
      using d(6) len by (auto simp: a sum set_adel)
    show "\<forall>k < length (normalized w'). normalized w' ! k = speed_total (status_map ACTIVE w') k"
      using d(7) len speed_total_adel [OF d(1) on] by (simp add: a sum)
  qed
qed

section \<open>What the requests do\<close>

lemma has_node_same:
  assumes "has_node s h w"
  shows "status_map s' (put_node s h (node_ref s h w) w) = status_map s' w"
  using aput_same [OF map_of_node_ref [OF assms]] by simp

lemma Worker_ConnectNode_cases:
  assumes "Worker_ConnectNode J send h w = (Inr j, w')" and known: "has_node INACTIVE h w"
  shows "((\<forall>s. status_map s w' = status_map s w) \<and> normalized w' = normalized w) \<or>
    (\<exists>n code b. send (the (http_client n)) = Response code (Some j) \<and> code < 400 \<and>
      get_json J j ''bench'' = Inr b \<and> RecomputeCoefficients J b (node_ref INACTIVE h w) = Inr n \<and>
      length (normalized w) = length (node_speed n) \<and>
      status_map ACTIVE w' = aput h n (status_map ACTIVE w) \<and>
      status_map INACTIVE w' = adel h (status_map INACTIVE w) \<and>
      normalized w' = map2 (+) (normalized w) (node_speed n))"
proof -
  let ?w1 = "put_node INACTIVE h (node_ref INACTIVE h w) w"
  have same: "status_map s ?w1 = status_map s w" "normalized ?w1 = normalized w" for s
    using has_node_same [OF known] by simp_all
  have ref: "node_ref INACTIVE h ?w1 = node_ref INACTIVE h w" by (simp add: node_ref_def same)
  show ?thesis
  proof (cases "w' = ?w1")
    case True
    with same show ?thesis by simp
  next
    case False
    with assms(1) obtain url code body where u: "http_client (node_ref INACTIVE h w) = Some url"
        and snd: "send url = Response code (Some body)" and lt: "\<not> 400 \<le> code"
      by (auto simp: Worker_ConnectNode_def Let_def ref split: option.splits http_answer.splits if_splits)
    show ?thesis
    proof (cases "rbind (get_json J body ''bench'') (\<lambda>b. RecomputeCoefficients J b (node_ref INACTIVE h w))")
      case (Inl e)
      with assms(1) u snd lt show ?thesis by (simp add: Worker_ConnectNode_def Let_def ref)
    next
      case (Inr n)
      then obtain b where b: "get_json J body ''bench'' = Inr b"
          "RecomputeCoefficients J b (node_ref INACTIVE h w) = Inr n"
        by (auto simp: rbind_eq_Inr)
      let ?w2 = "MoveNode h INACTIVE ACTIVE (put_node INACTIVE h n ?w1)"
      have moved: "status_map ACTIVE ?w2 = aput h n (status_map ACTIVE w)"
          "status_map INACTIVE ?w2 = adel h (status_map INACTIVE w)" "normalized ?w2 = normalized w"
        by (simp_all add: status_map_MoveNode node_ref_def same del: fun_upd_apply)
          (simp_all add: same aput_same [OF map_of_node_ref [OF known]])
      have sp: "node_speed (node_ref ACTIVE h ?w2) = node_speed n"
        by (simp add: node_ref_def [of ACTIVE] moved)
      from assms(1) u snd lt Inr obtain sums
        where sums: "va_zip (+) (normalized w) (node_speed n) = Inr sums"
          and w': "w' = ?w2\<lparr>normalized := sums\<rparr>" "j = body"
        by (auto simp: Worker_ConnectNode_def Let_def ref moved(3) sp split: sum.splits)
      have "http_client n = Some url" using RecomputeCoefficients_client [OF b(2)] u by simp
      then have "send (the (http_client n)) = Response code (Some j) \<and> code < 400"
        using snd lt w'(2) by simp
      moreover have "status_map ACTIVE w' = aput h n (status_map ACTIVE w)"
        "status_map INACTIVE w' = adel h (status_map INACTIVE w)" "normalized w' = sums"
        unfolding w'(1) by (simp_all only: status_map_normalized moved) simp
      ultimately show ?thesis using b va_zip_Inr [OF sums] unfolding w'(2) [symmetric] by blast
    qed
  qed
qed

lemma registry_inv_ConnectNode:
  assumes "registry_inv w" and "has_node INACTIVE h w" and "Worker_ConnectNode J send h w = (Inr j, w')"
  shows "registry_inv w'"
  using Worker_ConnectNode_cases [OF assms(3,2)]
proof (elim disjE exE conjE)
  fix n code b
  assume b: "RecomputeCoefficients J b (node_ref INACTIVE h w) = Inr n"
    and "length (normalized w) = length (node_speed n)"
    and "status_map ACTIVE w' = aput h n (status_map ACTIVE w)"
    and "status_map INACTIVE w' = adel h (status_map INACTIVE w)"
    and "normalized w' = map2 (+) (normalized w) (node_speed n)"
  moreover have "http_client n = Some (''http://'' @ h)"
    using RecomputeCoefficients_client [OF b]
      client_of [OF registry_invD(5) [OF assms(1)] map_of_node_ref [OF assms(2)]] by simp
  ultimately show ?thesis using registry_inv_activate [OF assms(1,2)] by blast
next
  assume "\<forall>s. status_map s w' = status_map s w" and "normalized w' = normalized w"
  then have "registry_inv w' = registry_inv w" by (intro registry_inv_cong) blast+
  with assms(1) show ?thesis by blast
qed

lemma Worker_DisconnectNode_cases:
  assumes "Worker_DisconnectNode J send h w = (Inr j, w')"
  shows "((\<forall>s. status_map s w' = status_map s w) \<and> normalized w' = normalized w) \<or>
    (\<exists>n. map_of (status_map ACTIVE w) h = Some n \<and>
      status_map ACTIVE w' = adel h (status_map ACTIVE w) \<and>
      status_map INACTIVE w' = aput h n (status_map INACTIVE w) \<and>
      normalized w' = map2 (-) (normalized w) (node_speed n))"
proof (cases "w' = touch ACTIVE w")
  case True
  then show ?thesis by simp
next
  case False
  let ?w2 = "MoveNode h ACTIVE INACTIVE (touch ACTIVE w)" and ?n = "node_ref ACTIVE h w"
  from False assms have on: "has_node ACTIVE h w"
    by (auto simp: Worker_DisconnectNode_def Let_def split: if_splits)
  have moved: "status_map ACTIVE ?w2 = adel h (status_map ACTIVE w)"
      "status_map INACTIVE ?w2 = aput h ?n (status_map INACTIVE w)" "normalized ?w2 = normalized w"
    by (simp_all add: status_map_MoveNode)
  have sp: "node_speed (node_ref INACTIVE h ?w2) = node_speed ?n" by (simp add: node_ref_def [of INACTIVE] moved)
  from False assms on obtain sums where "va_zip (-) (normalized w) (node_speed ?n) = Inr sums"
      and "w' = ?w2\<lparr>normalized := sums\<rparr>"
    by (auto simp: Worker_DisconnectNode_def Let_def moved(3) sp split: option.splits http_answer.splits
        if_splits sum.splits)
  with moved map_of_node_ref [OF on] show ?thesis by (auto dest: va_zip_Inr)
qed

lemma registry_inv_DisconnectNode:
  assumes "registry_inv w" and "Worker_DisconnectNode J send h w = (Inr j, w')"
  shows "registry_inv w'"
  using Worker_DisconnectNode_cases [OF assms(2)]
proof (elim disjE exE conjE)
  fix n
  assume "map_of (status_map ACTIVE w) h = Some n" "status_map ACTIVE w' = adel h (status_map ACTIVE w)"
    "status_map INACTIVE w' = aput h n (status_map INACTIVE w)"
    "normalized w' = map2 (-) (normalized w) (node_speed n)"
  then show ?thesis by (rule registry_inv_deactivate [OF assms(1)])
next
  assume "\<forall>s. status_map s w' = status_map s w" and "normalized w' = normalized w"
  then have "registry_inv w' = registry_inv w" by (intro registry_inv_cong) blast+
  with assms(1) show ?thesis by blast
qed

section \<open>What a scheduler may rely on\<close>

text \<open>
  The interface through which tasks are divided: the members in iteration order, the speed
  vector of each, the vector of their sums.
\<close>

locale balanced_pool =
  fixes pool_inv :: "'w \<Rightarrow> bool" and members :: "'w \<Rightarrow> (string \<times> 'n) list"
    and speed :: "'n \<Rightarrow> u64 list" and sums :: "'w \<Rightarrow> u64 list"
  assumes members_distinct: "pool_inv w \<Longrightarrow> distinct (map fst (members w))"
    and speed_length: "pool_inv w \<Longrightarrow> (h, n) \<in> set (members w) \<Longrightarrow> length (speed n) = length (sums w)"
    and sums_total: "pool_inv w \<Longrightarrow> i < length (sums w) \<Longrightarrow>
      sums w ! i = sum_list (map (\<lambda>(h, n). speed n ! i) (members w))"
begin

text \<open>Without overflow the sum of all shares of a count stays below the count.\<close>

lemma unat_sum_list:
  fixes xs :: "u64 list"
  shows "sum_list (map unat xs) < 2 ^ 64 \<Longrightarrow> unat (sum_list xs) = sum_list (map unat xs)"
proof (induction xs)
  case (Cons x xs)
  then have "unat (sum_list xs) = sum_list (map unat xs)" by simp
  with Cons.prems have "unat x + unat (sum_list xs) < 2 ^ 64" by simp
  then show ?case using Cons by (simp add: unat_word_ariths(1))
qed simp

lemma shares_le:
  fixes as :: "nat list"
  shows "sum_list (map (\<lambda>a. a * c div S) as) \<le> sum_list as * c div S"
proof (induction as)
  case (Cons a as)
  have "a * c div S + sum_list as * c div S \<le> (a * c + sum_list as * c) div S"
    using div_add1_eq [of "a * c" "sum_list as * c" S] by simp
  with Cons show ?case by (simp add: algebra_simps)
qed simp

lemma shares_before_last:
  fixes as :: "nat list"
  assumes "S = sum_list as + a" and "0 < a" and "0 < c"
  shows "sum_list (map (\<lambda>a. a * c div S) as) < c"
proof -
  have "sum_list as * c < S * c" using assms by simp
  then have "sum_list as * c div S < c"
    using assms by (simp add: less_mult_imp_div_less mult.commute)
  with shares_le [of c S as] show ?thesis by simp
qed

lemma total_of_members:
  assumes "pool_inv w" and "i < length (sums w)"
    and "sum_list (map (\<lambda>(h, n). unat (speed n ! i)) (members w)) < 2 ^ 64"
  shows "unat (sums w ! i) = sum_list (map (\<lambda>(h, n). unat (speed n ! i)) (members w))"
proof -
  have "map unat (map (\<lambda>(h, n). speed n ! i) (members w)) = map (\<lambda>(h, n). unat (speed n ! i)) (members w)"
    by (simp add: case_prod_unfold comp_def)
  then show ?thesis
    using unat_sum_list [of "map (\<lambda>(h, n). speed n ! i) (members w)"] sums_total [OF assms(1,2)] assms(3)
    by (simp only:)
qed

end

lemma speed_total_sum: "speed_total m i = sum_list (map (\<lambda>(h, n). node_speed n ! i) m)"
  by (simp add: speed_total_def case_prod_unfold comp_def)

interpretation registry: balanced_pool registry_inv active_nodes node_speed GetSum
proof
  fix w assume inv: "registry_inv w"
  show "distinct (map fst (active_nodes w))"
    using registry_invD(1) [OF inv] by (simp add: active_nodes_def)
  show "length (node_speed n) = length (GetSum w)" if "(h, n) \<in> set (active_nodes w)" for h n
    using registry_invD(6) [OF inv] that by (simp add: active_nodes_def GetSum_def)
  show "GetSum w ! i = sum_list (map (\<lambda>(h, n). node_speed n ! i) (active_nodes w))"
    if "i < length (GetSum w)" for i
    using registry_invD(7) [OF inv] that by (simp add: active_nodes_def GetSum_def speed_total_sum)
qed

text \<open>The answer to a connection of a known node.\<close>

lemma connect_known:
  assumes "map_of (status_map INACTIVE w) h = Some n" and "http_client n = Some url"
    and "send url = Response code (Some body)" and "code < 400"
  shows "fst (Worker_ConnectNode J send h w) =
    (case rbind (get_json J body ''bench'') (\<lambda>b. RecomputeCoefficients J b n) of
       Inl e \<Rightarrow> Inl e
     | Inr node \<Rightarrow> (case va_zip (+) (normalized w) (node_speed node) of Inl e \<Rightarrow> Inl e | Inr _ \<Rightarrow> Inr body))"
proof -
  have ref: "node_ref INACTIVE h w = n" using assms(1) by (simp add: node_ref_def)
  have same: "status_map s (put_node INACTIVE h n w) = status_map s w" for s
    using aput_same [OF assms(1)] by simp
  have ref1: "node_ref INACTIVE h (put_node INACTIVE h n w) = n" using assms(1) by (simp add: node_ref_def same)
  have sp: "node_speed (node_ref ACTIVE h (MoveNode h INACTIVE ACTIVE (put_node INACTIVE h m w'))) = node_speed m"
    for m w' by (simp add: node_ref_def status_map_MoveNode)
  have nm: "normalized (MoveNode h INACTIVE ACTIVE (put_node INACTIVE h m (put_node INACTIVE h n w))) = normalized w"
    for m by (simp add: MoveNode_def put_node_def put_status_map_def erase_node_def Let_def)
  show ?thesis
    using assms(2-4) by (simp add: Worker_ConnectNode_def Let_def ref ref1 sp nm split: sum.split)
qed

section \<open>Properties\<close>

text \<open>C4: the registry starts in and every operation keeps its invariant: a host is known at
most once, every known node has its host's client, active speed vectors have the length of
\<open>normalized_\<close>, and each slot of \<open>normalized_\<close> is the 64-bit sum of the active speeds.\<close>

theorem registry_invariant:
  "registry_inv new_WorkerManagementService \<and>
   (registry_inv w \<longrightarrow>
      registry_inv (snd (AddNewNode J h w)) \<and>
      (has_node INACTIVE h w \<and> Worker_ConnectNode J send h w = (Inr j, w1) \<longrightarrow> registry_inv w1) \<and>
      (Worker_DisconnectNode J send h w = (Inr j, w2) \<longrightarrow> registry_inv w2))"
  by (intro conjI impI; (elim conjE)?)
    (rule registry_inv_new, erule registry_inv_AddNewNode, erule (2) registry_inv_ConnectNode,
      erule (1) registry_inv_DisconnectNode)

definition sample_worker :: "string \<Rightarrow> u64 \<Rightarrow> ComputationalNode" where
  "sample_worker h v = \<lparr>http_client = Some (''http://'' @ h), st = INACTIVE, bench_result = [v],
     node_speed = [kBenchInfinity div v]\<rparr>"

definition sample_registry :: WorkerManagementService where
  "sample_registry = \<lparr>worker_nodes = [(ACTIVE, [(''a'', sample_worker ''a'' 10)]),
     (INACTIVE, [(''b'', sample_worker ''b'' 20)])], normalized = [100000000000]\<rparr>"

lemma sample_registry_inv: "registry_inv sample_registry"
  by (simp add: registry_inv_def sample_registry_def sample_worker_def status_map_def has_node_def
      clients_ok_def speed_total_def kBenchInfinity_def)

definition sample_answer :: "(unit json) http_answer" where
  "sample_answer = Response 200 (Some (JObj [(''bench'', JArr [JUInt 20])]))"

theorem registry_invariant_witness:
  "registry_inv (snd (Worker_ConnectNode (json_model :: (unit json, unit) jsoncpp) (\<lambda>_. sample_answer) ''b'' sample_registry))"
proof -
  have "has_node INACTIVE ''b'' sample_registry"
    by (simp add: sample_registry_def has_node_def status_map_def)
  moreover have "fst (Worker_ConnectNode (json_model :: (unit json, unit) jsoncpp) (\<lambda>_. sample_answer) ''b'' sample_registry)
      = Inr (JObj [(''bench'', JArr [JUInt 20])])"
    by (simp add: Worker_ConnectNode_def Let_def sample_registry_def sample_answer_def sample_worker_def
        put_node_def put_status_map_def status_map_def node_ref_def MoveNode_def erase_node_def adel_def
        RecomputeCoefficients_def JsonToContinuous_def get_defs json_model_def va_zip_def)
  ultimately show ?thesis
    using registry_invariant [where w = sample_registry and h = "''b''"] sample_registry_inv
    by (metis prod.collapse)
qed

text \<open>C5: disconnecting a worker that was just connected restores the active nodes and the
normalisation vector exactly, and leaves the worker known as inactive.\<close>

theorem disconnect_undoes_connect:
  assumes "registry_inv w" and "has_node INACTIVE h w"
    and "Worker_ConnectNode J send h w = (Inr j1, w1)" and "has_node ACTIVE h w1"
    and "Worker_DisconnectNode J send' h w1 = (Inr j2, w2)" and "\<not> has_node ACTIVE h w2"
  shows "active_nodes w2 = active_nodes w \<and> GetSum w2 = GetSum w \<and> has_node INACTIVE h w2"
proof (intro conjI)
  have off: "h \<notin> fst ` set (status_map ACTIVE w)"
    using registry_invD(3) [OF assms(1), of h] assms(2) by (auto simp: has_node_iff)
  have "\<not> (\<forall>s. status_map s w1 = status_map s w)"
    using assms(4) off by (metis has_node_iff)
  with Worker_ConnectNode_cases [OF assms(3,2)] obtain n
    where len: "length (normalized w) = length (node_speed n)"
      and a1: "status_map ACTIVE w1 = aput h n (status_map ACTIVE w)"
      and s1: "normalized w1 = map2 (+) (normalized w) (node_speed n)" by blast
  have "\<not> (\<forall>s. status_map s w2 = status_map s w1)"
    using assms(4,6) by (metis has_node_iff)
  with Worker_DisconnectNode_cases [OF assms(5)] obtain n'
    where n': "map_of (status_map ACTIVE w1) h = Some n'"
      and a2: "status_map ACTIVE w2 = adel h (status_map ACTIVE w1)"
      and i2: "status_map INACTIVE w2 = aput h n' (status_map INACTIVE w1)"
      and s2: "normalized w2 = map2 (-) (normalized w1) (node_speed n')" by blast
  have n: "n' = n" using n' by (simp add: a1)
  show "active_nodes w2 = active_nodes w"
    by (simp add: active_nodes_def a1 a2 adel_fresh [OF off])
  show "GetSum w2 = GetSum w"
    using len by (simp add: GetSum_def s1 s2 n list_eq_iff_nth_eq)
  show "has_node INACTIVE h w2" by (simp add: has_node_def i2)
qed

definition ok_answer :: "(unit json) http_answer" where
  "ok_answer = Response 200 (Some JNull)"

lemmas registry_eval = Worker_ConnectNode_def Worker_DisconnectNode_def Let_def sample_registry_def
  sample_answer_def ok_answer_def sample_worker_def put_node_def put_status_map_def status_map_def
  node_ref_def has_node_def touch_def MoveNode_def erase_node_def adel_def RecomputeCoefficients_def
  JsonToContinuous_def get_defs json_model_def va_zip_def

theorem disconnect_undoes_connect_witness:
  "GetSum (snd (Worker_DisconnectNode (json_model :: (unit json, unit) jsoncpp) (\<lambda>_. ok_answer) ''b''
     (snd (Worker_ConnectNode (json_model :: (unit json, unit) jsoncpp) (\<lambda>_. sample_answer) ''b'' sample_registry))))
   = [100000000000]"
proof -
  let ?J = "json_model :: (unit json, unit) jsoncpp"
  let ?w1 = "snd (Worker_ConnectNode ?J (\<lambda>_. sample_answer) ''b'' sample_registry)"
  let ?w2 = "snd (Worker_DisconnectNode ?J (\<lambda>_. ok_answer) ''b'' ?w1)"
  have 0: "has_node INACTIVE ''b'' sample_registry" by (simp add: registry_eval)
  have 1: "Worker_ConnectNode ?J (\<lambda>_. sample_answer) ''b'' sample_registry
      = (Inr (JObj [(''bench'', JArr [JUInt 20])]), ?w1)"
    by (rule prod_eqI) (simp_all add: registry_eval)
  have 2: "has_node ACTIVE ''b'' ?w1" by (simp add: registry_eval)
  have 3: "Worker_DisconnectNode ?J (\<lambda>_. ok_answer) ''b'' ?w1 = (Inr JNull, ?w2)"
    by (rule prod_eqI) (simp_all add: registry_eval)
  have 4: "\<not> has_node ACTIVE ''b'' ?w2" by (simp add: registry_eval)
  have "GetSum ?w2 = GetSum sample_registry"
    using disconnect_undoes_connect [OF sample_registry_inv 0 1 2 3 4] by blast
  then show ?thesis by (simp add: GetSum_def sample_registry_def)
qed

text \<open>A worker that connects for the first time contributes one benchmark slot, because the
size argument of the JSON reader is \<open>true\<close>; unless \<open>normalized_\<close> also has exactly one slot
(the constructor gives it thirteen) the following vector addition has undefined behaviour.\<close>

theorem first_connect_size_mismatch:
  assumes "map_of (status_map INACTIVE w) h = Some n" and "http_client n = Some url"
    and "node_speed n = []" and "length (normalized w) \<noteq> 1"
    and "send url = Response code (Some body)" and "code < 400"
    and "j_get J body ''bench'' = Some b" and "j_at J b 0 = Some x" and "j_asUInt64 J x = Some v" and "v \<noteq> 0"
  shows "fst (Worker_ConnectNode J send h w) = Inl (UB ''valarray size mismatch'')"
proof -
  have "RecomputeCoefficients J b n = Inr (n\<lparr>bench_result := [v], node_speed := [kBenchInfinity div v]\<rparr>)"
    using assms(3,8-10) by (simp add: RecomputeCoefficients_def JsonToContinuous_def at_json_def scalar_div_def)
  with assms(4,7) show ?thesis by (simp add: connect_known [where send = send, OF assms(1,2,5,6)] get_json_def va_zip_def)
qed

theorem first_connect_size_mismatch_witness:
  "fst (Worker_ConnectNode (json_model :: (unit json, unit) jsoncpp) (\<lambda>_. sample_answer) ''b''
      (snd (AddNewNode (json_model :: (unit json, unit) jsoncpp) ''b'' new_WorkerManagementService)))
    = Inl (UB ''valarray size mismatch'')"
  by (rule first_connect_size_mismatch [where n = "empty_node\<lparr>http_client := Some ''http://b'', st := INACTIVE\<rparr>"
      and url = "''http://b''" and code = 200 and body = "JObj [(''bench'', JArr [JUInt 20])]"
      and b = "JArr [JUInt 20]" and x = "JUInt 20" and v = 20])
    (simp_all add: AddNewNode_def new_WorkerManagementService_def empty_node_def registry_eval)

end
