(* ===== verification/NetworkTypes.thy ===== *)
theory NetworkTypes
  imports Json EnumUtils
begin

text \<open>
  \<open>computationalLib/.../networkTypes.h\<close> and \<open>networkTypes.cpp\<close>: the task description
  \<open>TestSolveParam\<close> with its range splitting and its JSON form, the JSON variant type of
  \<open>commonTypes.h\<close>, and the RabbitMQ resource descriptions.  Every definition that touches JSON
  takes the JSON library as its first argument.
\<close>

section \<open>JSON variants\<close>

datatype 'f JsonVariant =
    V_null
  | V_bool bool
  | V_int64 u64
  | V_uint64 u64
  | V_double 'f
  | V_string string

fun VariantToJson :: "('j, 'f) jsoncpp \<Rightarrow> 'f JsonVariant \<Rightarrow> 'j" where
  "VariantToJson J V_null = j_null J"
| "VariantToJson J (V_bool b) = j_ofBool J b"
| "VariantToJson J (V_int64 i) = j_ofInt64 J i"
| "VariantToJson J (V_uint64 u) = j_ofUInt64 J u"
| "VariantToJson J (V_double d) = j_ofDouble J d"
| "VariantToJson J (V_string s) = j_ofString J s"

definition JsonToVariant :: "('j, 'f) jsoncpp \<Rightarrow> 'j \<Rightarrow> fault + 'f JsonVariant" where
  "JsonToVariant J val =
    (case j_type J val of
       nullValue \<Rightarrow> Inr V_null
     | booleanValue \<Rightarrow> rbind (of_opt json_error (j_asBool J val)) (\<lambda>b. Inr (V_bool b))
     | intValue \<Rightarrow> rbind (of_opt json_error (j_asInt64 J val)) (\<lambda>i. Inr (V_int64 i))
     | uintValue \<Rightarrow> rbind (of_opt json_error (j_asUInt64 J val)) (\<lambda>u. Inr (V_uint64 u))
     | realValue \<Rightarrow> rbind (of_opt json_error (j_asDouble J val)) (\<lambda>d. Inr (V_double d))
     | stringValue \<Rightarrow> rbind (of_opt json_error (j_asString J val)) (\<lambda>s. Inr (V_string s))
     | t \<Rightarrow> Inl (Thrown (InvalidOption (show_nat (value_type_index t)))))"

section \<open>Task descriptions\<close>

text \<open>\<open>args\<close> is an unordered map: its list is in the map's iteration order, keys distinct.\<close>

record 'f TestSolveParam =
  experiment_id :: u64
  ts_N :: u64
  range :: "u64 \<times> u64"
  args :: "(string \<times> 'f JsonVariant) list"

definition RangeSize :: "'f TestSolveParam \<Rightarrow> u64" where
  "RangeSize p = snd (range p) - fst (range p) + 1"

text \<open>
  \<open>SliceAway\<close> returns the slice and the updated object; all arithmetic is on \<open>size_t\<close>.
\<close>

definition SliceAway :: "u64 \<Rightarrow> 'f TestSolveParam \<Rightarrow> fault + ('f TestSolveParam \<times> 'f TestSolveParam)" where
  "SliceAway iter_count p =
    (if iter_count = 0 \<or> fst (range p) + iter_count > snd (range p)
     then Inl (Thrown (outOfRange (uint iter_count) 1 (uint (snd (range p) - fst (range p) + 1))))
     else Inr (p\<lparr>range := (fst (range p), fst (range p) + iter_count - 1)\<rparr>,
               p\<lparr>range := (fst (range p) + iter_count, snd (range p))\<rparr>))"

definition TestSolveParam_ToJson :: "('j, 'f) jsoncpp \<Rightarrow> 'f TestSolveParam \<Rightarrow> 'j" where
  "TestSolveParam_ToJson J p =
    (let val = j_sets J (j_null J)
           [(''experiment_id'', j_ofUInt64 J (experiment_id p)),
            (''N'', j_ofUInt64 J (ts_N p)),
            (''range'', j_setAt J (j_setAt J (j_null J) 0 (j_ofUInt64 J (fst (range p))))
                          1 (j_ofUInt64 J (snd (range p))))]
     in if args p = [] then val
        else j_set J val ''args''
               (j_sets J (j_null J) (map (\<lambda>(k, v). (k, VariantToJson J v)) (args p))))"

definition range_uint :: "('j, 'f) jsoncpp \<Rightarrow> 'j \<Rightarrow> nat \<Rightarrow> fault + u32" where
  "range_uint J val i =
    rbind (get_json J val ''range'') (\<lambda>r. rbind (at_json J r i) (\<lambda>x. of_opt json_error (j_asUInt J x)))"

definition TestSolveParam_FromJson :: "('j, 'f) jsoncpp \<Rightarrow> 'j \<Rightarrow> fault + 'f TestSolveParam" where
  "TestSolveParam_FromJson J val =
    rbind (get_uint J val ''experiment_id'') (\<lambda>e.
    rbind (get_uint J val ''N'') (\<lambda>n.
    rbind (range_uint J val 0) (\<lambda>lo.
    rbind (range_uint J val 1) (\<lambda>hi.
    rbind (get_json J val ''args'') (\<lambda>vv.
    rbind (rmap (\<lambda>key. rbind (get_json J vv key) (\<lambda>x. rbind (JsonToVariant J x) (\<lambda>v. Inr (key, v))))
             (j_names J vv)) (\<lambda>kvs.
    Inr \<lparr>experiment_id = ucast e, ts_N = ucast n, range = (ucast lo, ucast hi),
         args = foldl (\<lambda>m (k, v). aput k v m) [] kvs\<rparr>))))))"

section \<open>RabbitMQ resources\<close>

text \<open>The exchange kinds of AMQP-CPP that the tables name.\<close>

datatype ExchangeType = fanout | direct | topic | headers | consistent_hash | message_deduplication

definition kExchangeTypeMappings :: "(ExchangeType \<times> string) list" where
  "kExchangeTypeMappings =
    [(fanout, ''fanout''), (direct, ''direct''), (topic, ''topic''), (headers, ''headers''),
     (consistent_hash, ''consistent_hash''), (message_deduplication, ''message_deduplication'')]"

interpretation exchangeType: enum_table kExchangeTypeMappings
proof
  fix v :: ExchangeType
  show "v \<in> fst ` set kExchangeTypeMappings" by (cases v) (simp_all add: kExchangeTypeMappings_def)
qed (simp_all add: kExchangeTypeMappings_def)

datatype HttpMethod =
  GET | POST | PUT | DELETE | HEAD | OPTIONS | PATCH | CONNECT | TRACE

definition kHttpMethodMappings :: "(HttpMethod \<times> string) list" where
  "kHttpMethodMappings =
    [(GET, ''GET''), (POST, ''POST''), (PUT, ''PUT''), (DELETE, ''DELETE''), (HEAD, ''HEAD''),
     (OPTIONS, ''OPTIONS''), (PATCH, ''PATCH''), (CONNECT, ''CONNECT''), (TRACE, ''TRACE'')]"

interpretation httpMethod: enum_table kHttpMethodMappings
proof
  fix v :: HttpMethod
  show "v \<in> fst ` set kHttpMethodMappings" by (cases v) (simp_all add: kHttpMethodMappings_def)
qed (simp_all add: kHttpMethodMappings_def)

definition HttpMethod_ToString :: "HttpMethod \<Rightarrow> fault + string" where
  "HttpMethod_ToString m = EnumToStr m (CreateEnumToStrMap kHttpMethodMappings)"

definition HttpMethod_FromString :: "string \<Rightarrow> fault + HttpMethod" where
  "HttpMethod_FromString s = StrToEnum s (CreateStrToEnumMap kHttpMethodMappings)"

record queueBinding =
  qb_exchange :: string
  qb_routing_key :: string

definition queueBinding_FromJson :: "('j, 'f) jsoncpp \<Rightarrow> 'j \<Rightarrow> fault + queueBinding" where
  "queueBinding_FromJson J val =
    rbind (get_string J val ''source'') (\<lambda>e.
    rbind (get_string J val ''routing_key'') (\<lambda>k.
    Inr \<lparr>qb_exchange = e, qb_routing_key = k\<rparr>))"

record rabbitMQUser =
  ru_name :: string
  ru_password_hash :: string
  ru_tags :: "string list"

definition rabbitMQUser_FromJson :: "('j, 'f) jsoncpp \<Rightarrow> 'j \<Rightarrow> fault + rabbitMQUser" where
  "rabbitMQUser_FromJson J val =
    rbind (get_string J val ''name'') (\<lambda>n.
    rbind (get_string J val ''password_hash'') (\<lambda>h.
    rbind (get_json J val ''tags'') (\<lambda>t.
    rbind (rmap (\<lambda>i. rbind (at_json J t i) (\<lambda>x. of_opt json_error (j_asString J x))) [0..<j_size J t]) (\<lambda>ts.
    Inr \<lparr>ru_name = n, ru_password_hash = h, ru_tags = ts\<rparr>))))"

record exchange =
  ex_name :: string
  ex_creator :: string
  ex_type :: ExchangeType
  ex_autoDelete :: bool
  ex_durable :: bool
  ex_internal :: bool

definition make_exchange :: "string \<Rightarrow> string \<Rightarrow> ExchangeType \<Rightarrow> exchange" where
  "make_exchange n c t = \<lparr>ex_name = n, ex_creator = c, ex_type = t,
     ex_autoDelete = False, ex_durable = True, ex_internal = False\<rparr>"

definition exchange_FromJson :: "('j, 'f) jsoncpp \<Rightarrow> 'j \<Rightarrow> fault + exchange" where
  "exchange_FromJson J val =
    rbind (get_string J val ''name'') (\<lambda>n.
    rbind (get_string J val ''user_who_performed_action'') (\<lambda>c.
    rbind (get_string J val ''type'') (\<lambda>ts.
    rbind (StrToEnum ts (CreateStrToEnumMap kExchangeTypeMappings)) (\<lambda>t.
    rbind (get_bool J val ''auto_delete'') (\<lambda>a.
    rbind (get_bool J val ''durable'') (\<lambda>d.
    rbind (get_bool J val ''internal'') (\<lambda>i.
    Inr \<lparr>ex_name = n, ex_creator = c, ex_type = t, ex_autoDelete = a, ex_durable = d,
         ex_internal = i\<rparr>)))))))"

definition exchange_ToJson :: "('j, 'f) jsoncpp \<Rightarrow> exchange \<Rightarrow> fault + 'j" where
  "exchange_ToJson J e =
    rbind (EnumToStr (ex_type e) (CreateEnumToStrMap kExchangeTypeMappings)) (\<lambda>t.
    Inr (j_sets J (j_null J)
      [(''name'', j_ofString J (ex_name e)),
       (''user_who_performed_action'', j_ofString J (ex_creator e)),
       (''type'', j_ofString J t),
       (''auto_delete'', j_ofBool J (ex_autoDelete e)),
       (''durable'', j_ofBool J (ex_durable e)),
       (''internal'', j_ofBool J (ex_internal e))]))"

record queue =
  qu_name :: string
  qu_creator :: string
  qu_autoDelete :: bool
  qu_durable :: bool

definition make_queue :: "string \<Rightarrow> string \<Rightarrow> queue" where
  "make_queue n c = \<lparr>qu_name = n, qu_creator = c, qu_autoDelete = False, qu_durable = True\<rparr>"

definition queue_FromJson :: "('j, 'f) jsoncpp \<Rightarrow> 'j \<Rightarrow> fault + queue" where
  "queue_FromJson J val =
    rbind (get_string J val ''name'') (\<lambda>n.
    rbind (get_string J val ''user_who_performed_action'') (\<lambda>c.
    rbind (get_bool J val ''auto_delete'') (\<lambda>a.
    rbind (get_bool J val ''durable'') (\<lambda>d.
    Inr \<lparr>qu_name = n, qu_creator = c, qu_autoDelete = a, qu_durable = d\<rparr>))))"

definition queue_ToJson :: "('j, 'f) jsoncpp \<Rightarrow> queue \<Rightarrow> 'j" where
  "queue_ToJson J q = j_sets J (j_null J)
     [(''name'', j_ofString J (qu_name q)),
      (''user_who_performed_action'', j_ofString J (qu_creator q)),
      (''auto_delete'', j_ofBool J (qu_autoDelete q)),
      (''durable'', j_ofBool J (qu_durable q))]"

record connection =
  cn_channels :: u64
  cn_host :: string
  cn_name :: string
  cn_peer_host :: string
  cn_port :: u64
  cn_peer_port :: u64
  cn_connected_at :: u64
  cn_user :: string

definition connection_FromJson :: "('j, 'f) jsoncpp \<Rightarrow> 'j \<Rightarrow> fault + connection" where
  "connection_FromJson J val =
    rbind (get_uint J val ''channels'') (\<lambda>c.
    rbind (get_string J val ''host'') (\<lambda>h.
    rbind (get_string J val ''name'') (\<lambda>n.
    rbind (get_string J val ''peer_host'') (\<lambda>ph.
    rbind (get_uint J val ''port'') (\<lambda>p.
    rbind (get_uint J val ''peer_port'') (\<lambda>pp.
    rbind (get_uint64 J val ''connected_at'') (\<lambda>t.
    rbind (get_string J val ''user'') (\<lambda>u.
    Inr \<lparr>cn_channels = ucast c, cn_host = h, cn_name = n, cn_peer_host = ph, cn_port = ucast p,
         cn_peer_port = ucast pp, cn_connected_at = t, cn_user = u\<rparr>))))))))"

text \<open>\<open>static_cast<Json::UInt>\<close> keeps the low 32 bits.\<close>

definition ofUInt :: "('j, 'f) jsoncpp \<Rightarrow> u32 \<Rightarrow> 'j" where
  "ofUInt J w = j_ofUInt64 J (ucast w)"

definition connection_ToJson :: "('j, 'f) jsoncpp \<Rightarrow> connection \<Rightarrow> 'j" where
  "connection_ToJson J c = j_sets J (j_null J)
     [(''channels'', ofUInt J (ucast (cn_channels c))),
      (''host'', j_ofString J (cn_host c)),
      (''name'', j_ofString J (cn_name c)),
      (''peer_host'', j_ofString J (cn_peer_host c)),
      (''port'', ofUInt J (ucast (cn_port c))),
      (''peer_port'', ofUInt J (ucast (cn_peer_port c))),
      (''connected_at'', j_ofUInt64 J (cn_connected_at c)),
      (''user'', j_ofString J (cn_user c))]"

record channel =
  ch_name :: string
  ch_channel_number :: u64
  ch_connection_name :: string
  ch_user :: string
  ch_vhost :: string
  ch_state :: string
  ch_consumer_count :: u64

definition channel_ToJson :: "('j, 'f) jsoncpp \<Rightarrow> channel \<Rightarrow> 'j" where
  "channel_ToJson J c = j_sets J (j_null J)
     [(''name'', j_ofString J (ch_name c)),
      (''number'', ofUInt J (ucast (ch_channel_number c))),
      (''connection_name'', j_ofString J (ch_connection_name c)),
      (''user'', j_ofString J (ch_user c)),
      (''vhost'', j_ofString J (ch_vhost c)),
      (''state'', j_ofString J (ch_state c)),
      (''consumer_count'', j_ofUInt64 J (ch_consumer_count c))]"

definition channel_FromJson :: "('j, 'f) jsoncpp \<Rightarrow> 'j \<Rightarrow> fault + channel" where
  "channel_FromJson J val =
    rbind (get_string J val ''name'') (\<lambda>n.
    rbind (get_uint J val ''number'') (\<lambda>num.
    rbind (get_json J val ''connection_details'') (\<lambda>cd.
    rbind (get_string J cd ''name'') (\<lambda>cn.
    rbind (get_string J val ''user'') (\<lambda>u.
    rbind (get_string J val ''vhost'') (\<lambda>v.
    rbind (get_string J val ''state'') (\<lambda>st.
    rbind (get_uint J val ''consumer_count'') (\<lambda>cc.
    Inr \<lparr>ch_name = n, ch_channel_number = ucast num, ch_connection_name = cn, ch_user = u,
         ch_vhost = v, ch_state = st, ch_consumer_count = ucast cc\<rparr>))))))))"

record message =
  ms_routing_key :: string
  ms_payload :: string
  ms_payload_encoding :: string

definition message_ToJson :: "('j, 'f) jsoncpp \<Rightarrow> message \<Rightarrow> 'j" where
  "message_ToJson J m = j_sets J (j_null J)
     [(''properties'', j_object J),
      (''routing_key'', j_ofString J (ms_routing_key m)),
      (''payload'', j_ofString J (ms_payload m)),
      (''payload_encoding'', j_ofString J (ms_payload_encoding m))]"

definition message_FromJson :: "('j, 'f) jsoncpp \<Rightarrow> 'j \<Rightarrow> fault + message" where
  "message_FromJson J val =
    rbind (get_string J val ''routing_key'') (\<lambda>k.
    rbind (get_string J val ''payload'') (\<lambda>p.
    rbind (get_string J val ''payload_encoding'') (\<lambda>e.
    Inr \<lparr>ms_routing_key = k, ms_payload = p, ms_payload_encoding = e\<rparr>)))"

record 'j global_param =
  gp_name :: string
  gp_value :: 'j

definition global_param_FromJson :: "('j, 'f) jsoncpp \<Rightarrow> 'j \<Rightarrow> fault + 'j global_param" where
  "global_param_FromJson J val =
    rbind (get_string J val ''name'') (\<lambda>n.
    rbind (get_json J val ''value'') (\<lambda>v.
    Inr \<lparr>gp_name = n, gp_value = v\<rparr>))"

definition global_param_ToJson :: "('j, 'f) jsoncpp \<Rightarrow> 'j global_param \<Rightarrow> 'j" where
  "global_param_ToJson J g = j_sets J (j_null J)
     [(''name'', j_ofString J (gp_name g)), (''value'', gp_value g)]"

lemmas from_json_defs =
  queueBinding_FromJson_def rabbitMQUser_FromJson_def exchange_FromJson_def queue_FromJson_def
  connection_FromJson_def channel_FromJson_def message_FromJson_def global_param_FromJson_def

lemmas to_json_defs =
  exchange_ToJson_def queue_ToJson_def connection_ToJson_def channel_ToJson_def
  message_ToJson_def global_param_ToJson_def

section \<open>Range splitting\<close>

text \<open>
  The guard on words, read as numbers: without wrap-around of \<open>first + iter_count\<close> the call
  succeeds exactly for block sizes from 1 up to one less than the size of the range.
\<close>

lemma SliceAway_ranges:
  assumes "SliceAway n p = Inr (blk, rest)"
  shows "blk = p\<lparr>range := (fst (range p), fst (range p) + n - 1)\<rparr>"
    and "rest = p\<lparr>range := (fst (range p) + n, snd (range p))\<rparr>"
    and "n \<noteq> 0" and "fst (range p) + n \<le> snd (range p)"
  using assms by (auto simp: SliceAway_def split: if_splits)

text \<open>The iterations a range denotes: \<open>[first, second]\<close>, both ends included.\<close>

definition range_set :: "'f TestSolveParam \<Rightarrow> nat set" where
  "range_set p = {unat (fst (range p)) .. unat (snd (range p))}"

lemma SliceAway_bounds:
  assumes ok: "SliceAway n p = Inr (blk, rest)"
    and bound: "uint (fst (range p)) + uint n < 2 ^ 64"
  shows "fst (range blk) = fst (range p)"
    and "Suc (unat (snd (range blk))) = unat (fst (range p)) + unat n"
    and "unat (fst (range rest)) = unat (fst (range p)) + unat n"
    and "snd (range rest) = snd (range p)"
    and "unat (fst (range p)) + unat n \<le> unat (snd (range p))" and "0 < unat n"
proof -
  note r = SliceAway_ranges [OF ok]
  have sum: "unat (fst (range p) + n) = unat (fst (range p)) + unat n"
    by (rule no_wrap_add [OF bound])
  show pos: "0 < unat n" using r(3) by (simp add: unat_gt_0)
  have "fst (range p) + n \<noteq> 0" using sum pos by (metis add_gr_0 less_numeral_extra(3) unat_0)
  then have "unat (fst (range p) + n - 1) = unat (fst (range p)) + unat n - 1"
    using unat_minus_1 sum by metis
  then show "Suc (unat (snd (range blk))) = unat (fst (range p)) + unat n"
    using pos by (simp add: r(1))
  show "fst (range blk) = fst (range p)" by (simp add: r(1))
  show "unat (fst (range rest)) = unat (fst (range p)) + unat n" by (simp add: r(2) sum)
  show "snd (range rest) = snd (range p)" by (simp add: r(2))
  show "unat (fst (range p)) + unat n \<le> unat (snd (range p))"
    using r(4) sum by (simp add: word_le_nat_alt)
qed

lemma SliceAway_unat:
  assumes ok: "SliceAway n p = Inr (blk, rest)"
    and bound: "uint (fst (range p)) + uint n < 2 ^ 64"
  shows "range_set blk = {unat (fst (range p)) ..< unat (fst (range p)) + unat n}"
    and "range_set rest = {unat (fst (range p)) + unat n .. unat (snd (range p))}"
    and "unat (fst (range p)) + unat n \<le> unat (snd (range p))" and "0 < unat n"
proof -
  note b = SliceAway_bounds [OF ok bound]
  show "range_set blk = {unat (fst (range p)) ..< unat (fst (range p)) + unat n}"
    by (simp only: range_set_def b(1) b(2) [symmetric] atLeastLessThanSuc_atLeastAtMost)
  show "range_set rest = {unat (fst (range p)) + unat n .. unat (snd (range p))}"
    by (simp only: range_set_def b(3,4))
qed (rule SliceAway_bounds [OF ok bound])+

lemma SliceAway_frame:
  assumes "SliceAway n p = Inr (blk, rest)"
  shows "experiment_id blk = experiment_id p" "ts_N blk = ts_N p" "args blk = args p"
    and "experiment_id rest = experiment_id p" "ts_N rest = ts_N p" "args rest = args p"
    and "snd (range rest) = snd (range p)"
  using SliceAway_ranges [OF assms] by simp_all

section \<open>Round trips under the library's laws\<close>

context jsoncpp_laws
begin

lemma JsonToVariant_VariantToJson: "JsonToVariant J (VariantToJson J v) = Inr v"
  by (cases v) (simp_all add: JsonToVariant_def)

lemma exchange_rt: "rbind (exchange_ToJson J e) (exchange_FromJson J) = Inr e"
  by (simp add: exchange_ToJson_def exchange_FromJson_def exchangeType.EnumToStr_eq get_defs get_sets
      exchangeType.StrToEnum_str_of)

lemma queue_rt: "queue_FromJson J (queue_ToJson J q) = Inr q"
  by (simp add: queue_ToJson_def queue_FromJson_def get_defs get_sets)

lemma message_rt: "message_FromJson J (message_ToJson J m) = Inr m"
  by (simp add: message_ToJson_def message_FromJson_def get_defs get_sets)

lemma global_param_rt: "global_param_FromJson J (global_param_ToJson J g) = Inr g"
  by (simp add: global_param_ToJson_def global_param_FromJson_def get_defs get_sets)

lemma asUInt_ofUInt [simp]: "j_asUInt J (ofUInt J w) = Some w"
  using uint_ucast_32 [of w] ucast_ucast_32 [of w] by (simp add: ofUInt_def)

lemma connection_rt:
  "connection_FromJson J (connection_ToJson J c) =
    Inr (c\<lparr>cn_channels := ucast (ucast (cn_channels c) :: u32),
           cn_port := ucast (ucast (cn_port c) :: u32),
           cn_peer_port := ucast (ucast (cn_peer_port c) :: u32)\<rparr>)"
  by (simp add: connection_ToJson_def connection_FromJson_def get_defs get_sets)

lemma channel_rt:
  assumes "uint (ch_consumer_count c) < 2 ^ 32"
  shows "channel_FromJson J (channel_ToJson J c) =
    Inr (c\<lparr>ch_connection_name := [], ch_channel_number := ucast (ucast (ch_channel_number c) :: u32)\<rparr>)"
  using assms
  by (simp add: channel_ToJson_def channel_FromJson_def get_defs get_sets ucast_ucast_64)

lemma args_of_json:
  assumes d: "distinct (map fst kvs)"
  defines "vv \<equiv> j_sets J (j_null J) (map (\<lambda>(k, v). (k, VariantToJson J v)) kvs)"
  shows "rmap (\<lambda>key. rbind (get_json J vv key) (\<lambda>x. rbind (JsonToVariant J x) (\<lambda>v. Inr (key, v))))
      (j_names J vv) = Inr (map (\<lambda>k. (k, the (map_of kvs k))) (j_names J vv))"
proof (rule rmap_all_Inr)
  have keys: "map fst (map (\<lambda>(k, v). (k, VariantToJson J v)) kvs) = map fst kvs"
    by (simp add: split_def comp_def)
  fix k assume "k \<in> set (j_names J vv)"
  then have "k \<in> fst ` set kvs" by (force simp: vv_def names_sets)
  then obtain v where v: "map_of kvs k = Some v"
    by (metis map_of_None_iff option.exhaust)
  have "map_of (map (\<lambda>(k, v). (k, VariantToJson J v)) kvs) k = Some (VariantToJson J v)"
    using v by (simp add: map_of_map)
  moreover have "distinct (map fst (map (\<lambda>(k, v). (k, VariantToJson J v)) kvs))"
    using d by (simp only: keys)
  ultimately have "get_json J vv k = Inr (VariantToJson J v)"
    using get_sets [of "j_null J" "map (\<lambda>(k, v). (k, VariantToJson J v)) kvs" k]
    by (simp add: vv_def get_json_def)
  then show "rbind (get_json J vv k) (\<lambda>x. rbind (JsonToVariant J x) (\<lambda>v. Inr (k, v)))
      = Inr (k, the (map_of kvs k))"
    by (simp add: JsonToVariant_VariantToJson v)
qed

lemma names_of_args:
  "set (j_names J (j_sets J (j_null J) (map (\<lambda>(k, v). (k, VariantToJson J v)) kvs))) = fst ` set kvs"
  by (force simp: names_sets)

lemma TestSolveParam_rt:
  assumes small: "uint (experiment_id p) < 2 ^ 32" "uint (ts_N p) < 2 ^ 32"
      "uint (fst (range p)) < 2 ^ 32" "uint (snd (range p)) < 2 ^ 32"
    and d: "distinct (map fst (args p))"
  shows "\<exists>as. TestSolveParam_FromJson J (TestSolveParam_ToJson J p) = Inr (p\<lparr>args := as\<rparr>)
    \<and> map_of as = map_of (args p)"
proof -
  let ?vv = "j_sets J (j_null J) (map (\<lambda>(k, v). (k, VariantToJson J v)) (args p))"
  let ?kvs = "map (\<lambda>k. (k, the (map_of (args p) k))) (j_names J ?vv)"
  let ?as = "foldl (\<lambda>m (k, v). aput k v m) [] ?kvs"
  let ?j = "TestSolveParam_ToJson J p"
  have get: "j_get J ?j ''experiment_id'' = Some (j_ofUInt64 J (experiment_id p))"
    "j_get J ?j ''N'' = Some (j_ofUInt64 J (ts_N p))"
    "j_get J ?j ''range'' = Some (j_setAt J (j_setAt J (j_null J) 0 (j_ofUInt64 J (fst (range p))))
        1 (j_ofUInt64 J (snd (range p))))"
    "j_get J ?j ''args'' = Some ?vv"
    by (simp_all add: TestSolveParam_ToJson_def Let_def get_sets type_sets)
  have as: "map_of ?as = map_of (args p)"
    unfolding foldl_aput_map names_of_args
    by (auto simp: fun_eq_iff map_of_None_iff)
      (metis map_of_None_iff)
  have "TestSolveParam_FromJson J ?j = Inr (p\<lparr>args := ?as\<rparr>)"
    using small get args_of_json [OF d]
    by (simp add: TestSolveParam_FromJson_def range_uint_def get_defs ucast_ucast_64)
  with as show ?thesis by blast
qed

lemma TestSolveParam_large_id:
  assumes "2 ^ 32 \<le> uint (experiment_id p)"
  shows "TestSolveParam_FromJson J (TestSolveParam_ToJson J p) = Inl json_error"
proof -
  have "j_get J (TestSolveParam_ToJson J p) ''experiment_id'' = Some (j_ofUInt64 J (experiment_id p))"
    by (simp add: TestSolveParam_ToJson_def Let_def get_sets type_sets)
  then show ?thesis using assms by (simp add: TestSolveParam_FromJson_def get_defs)
qed

end

lemma json_model_laws: "jsoncpp_laws json_model"
  by (rule json_model.jsoncpp_laws_axioms)

section \<open>Properties\<close>

text \<open>A successful \<open>SliceAway\<close> on a range whose start plus the block size stays inside 64
bits cuts the iterations into two disjoint non-empty parts that together are the old range;
the block holds exactly \<open>iter_count\<close> iterations and comes first.\<close>

theorem SliceAway_splits:
  assumes "SliceAway n p = Inr (blk, rest)"
    and "uint (fst (range p)) + uint n < 2 ^ 64"
  shows "range_set blk \<union> range_set rest = range_set p \<and>
    range_set blk \<inter> range_set rest = {} \<and>
    card (range_set blk) = unat n \<and> range_set rest \<noteq> {} \<and>
    (\<forall>i\<in>range_set blk. \<forall>j\<in>range_set rest. i < j)"
proof (intro conjI)
  note u = SliceAway_unat [OF assms]
  have p: "range_set p = {unat (fst (range p)) .. unat (snd (range p))}" by (rule range_set_def)
  show "range_set blk \<union> range_set rest = range_set p"
    unfolding u(1) u(2) p using u(3) by (intro ivl_disj_un) simp_all
  show "range_set blk \<inter> range_set rest = {}" unfolding u(1) u(2) by auto
  show "card (range_set blk) = unat n" unfolding u(1) by simp
  show "range_set rest \<noteq> {}" unfolding u(2) using u(3) by simp
  show "\<forall>i\<in>range_set blk. \<forall>j\<in>range_set rest. i < j" unfolding u(1) u(2) by auto
qed

definition sample_task :: "unit TestSolveParam" where
  "sample_task = \<lparr>experiment_id = 7, ts_N = 10, range = (0, 9), args = [(''n'', V_uint64 3)]\<rparr>"

theorem SliceAway_splits_witness:
  "range_set (sample_task\<lparr>range := (0, 3)\<rparr>) \<inter> range_set (sample_task\<lparr>range := (4, 9)\<rparr>) = {}"
  using SliceAway_splits [of 4 sample_task "sample_task\<lparr>range := (0, 3)\<rparr>" "sample_task\<lparr>range := (4, 9)\<rparr>"]
  by (simp add: SliceAway_def sample_task_def)

text \<open>\<open>SliceAway\<close> refuses a block exactly when it is empty or when the 64-bit sum of start
and block size passes the end; the exception carries the requested size and the size of the
range, and without wrap-around the whole range itself (size equal to \<open>RangeSize\<close>) is refused.\<close>

theorem SliceAway_refuses:
  "(SliceAway n p = Inl (Thrown (outOfRange (uint n) 1 (uint (RangeSize p)))) \<longleftrightarrow>
      n = 0 \<or> snd (range p) < fst (range p) + n) \<and>
   (SliceAway (RangeSize p) p = Inr r \<longleftrightarrow>
      RangeSize p \<noteq> 0 \<and> snd (range p) + 1 \<le> snd (range p) \<and>
      r = (p\<lparr>range := (fst (range p), snd (range p))\<rparr>, p\<lparr>range := (snd (range p) + 1, snd (range p))\<rparr>))"
  by (auto simp: SliceAway_def RangeSize_def)

text \<open>C9: a task survives its JSON form when every identifier fits 32 bits (the reader uses
\<open>asUInt\<close>); the arguments come back as the same map.\<close>

theorem TestSolveParam_round_trip:
  assumes "jsoncpp_laws J"
    and "uint (experiment_id p) < 2 ^ 32" and "uint (ts_N p) < 2 ^ 32"
    and "uint (fst (range p)) < 2 ^ 32" and "uint (snd (range p)) < 2 ^ 32"
    and "distinct (map fst (args p))"
  shows "\<exists>as. TestSolveParam_FromJson J (TestSolveParam_ToJson J p) = Inr (p\<lparr>args := as\<rparr>)
    \<and> map_of as = map_of (args p)"
  by (rule jsoncpp_laws.TestSolveParam_rt [OF assms])

theorem TestSolveParam_round_trip_witness:
  "\<exists>as. TestSolveParam_FromJson json_model (TestSolveParam_ToJson json_model sample_task)
      = Inr (sample_task\<lparr>args := as\<rparr>) \<and> map_of as = map_of (args sample_task)"
  by (rule TestSolveParam_round_trip [OF json_model_laws]) (simp_all add: sample_task_def)

text \<open>Exchanges, queues, messages and global parameters survive their JSON form; a
connection survives with its three 32-bit fields reduced modulo \<open>2 ^ 32\<close>; a channel loses its
connection name, which the writer stores under another key than the reader uses.\<close>

theorem resource_round_trips:
  assumes "jsoncpp_laws J"
  shows "rbind (exchange_ToJson J e) (exchange_FromJson J) = Inr e \<and>
    queue_FromJson J (queue_ToJson J q) = Inr q \<and>
    message_FromJson J (message_ToJson J m) = Inr m \<and>
    global_param_FromJson J (global_param_ToJson J g) = Inr g \<and>
    connection_FromJson J (connection_ToJson J c) =
      Inr (c\<lparr>cn_channels := ucast (ucast (cn_channels c) :: u32),
             cn_port := ucast (ucast (cn_port c) :: u32),
             cn_peer_port := ucast (ucast (cn_peer_port c) :: u32)\<rparr>) \<and>
    (uint (ch_consumer_count ch) < 2 ^ 32 \<longrightarrow>
      channel_FromJson J (channel_ToJson J ch) =
        Inr (ch\<lparr>ch_connection_name := [],
               ch_channel_number := ucast (ucast (ch_channel_number ch) :: u32)\<rparr>))"
  using jsoncpp_laws.exchange_rt [OF assms] jsoncpp_laws.queue_rt [OF assms]
    jsoncpp_laws.message_rt [OF assms] jsoncpp_laws.global_param_rt [OF assms]
    jsoncpp_laws.connection_rt [OF assms] jsoncpp_laws.channel_rt [OF assms]
  by simp_all

definition sample_channel :: channel where
  "sample_channel = \<lparr>ch_name = ''c'', ch_channel_number = 1, ch_connection_name = ''conn'',
     ch_user = ''u'', ch_vhost = ''/'', ch_state = ''running'', ch_consumer_count = 2\<rparr>"

theorem resource_round_trips_witness:
  "channel_FromJson (json_model :: (unit json, unit) jsoncpp) (channel_ToJson json_model sample_channel)
    = Inr (sample_channel\<lparr>ch_connection_name := [],
             ch_channel_number := ucast (ucast (ch_channel_number sample_channel) :: u32)\<rparr>)"
  using resource_round_trips [where J = "json_model :: (unit json, unit) jsoncpp" and ch = sample_channel,
      OF json_model_laws]
  by (simp add: sample_channel_def)

end
