(* ===== verification/RestService.thy ===== *)
theory RestService
  imports NetworkTypes JsonContainers
begin

text \<open>
  \<open>restUtils.h/.cpp\<close> and \<open>amqpRestService.h/.cpp\<close>: authenticated HTTP requests through
  libcurl and the client of RabbitMQ's management interface.  libcurl is not part of the
  repository: \<open>curl_env\<close> holds the two functions of it that decide a request's outcome
  (creating a handle, performing the transfer), acting on a world \<open>'w\<close>.  The service keeps
  its base URL and a pointer to the authentication handler.
\<close>

section \<open>Requests through libcurl\<close>

record curl_request =
  rq_url :: string
  rq_auth :: "(string \<times> string) option"
  rq_method :: string
  rq_json_body :: "string option"

text \<open>\<open>perform\<close> returns libcurl's error text, or the response code and body.\<close>

record 'w curl_env =
  easy_init :: "'w \<Rightarrow> bool"
  perform :: "curl_request \<Rightarrow> 'w \<Rightarrow> (string + (nat \<times> string)) \<times> 'w"

record AuthHandler =
  auth_user :: string
  auth_password :: string
  auth_active :: bool

definition make_auth :: "string \<Rightarrow> string \<Rightarrow> AuthHandler" where
  "make_auth u p = \<lparr>auth_user = u, auth_password = p, auth_active = True\<rparr>"

definition SetActive :: "bool \<Rightarrow> AuthHandler \<Rightarrow> AuthHandler" where
  "SetActive act a = a\<lparr>auth_active := act\<rparr>"

definition Retrive :: "AuthHandler \<Rightarrow> string \<times> string" where
  "Retrive a = (auth_user a, auth_password a)"

definition JsonAuthHandler_ToJson :: "('j, 'f) jsoncpp \<Rightarrow> AuthHandler \<Rightarrow> 'j" where
  "JsonAuthHandler_ToJson J a = j_sets J (j_null J)
     [(''user'', j_ofString J (auth_user a)), (''password'', j_ofString J (auth_password a))]"

text \<open>\<open>AddAuthorization\<close>: the credentials are set on the handle when the handler is active.\<close>

definition AddAuthorization :: "AuthHandler \<Rightarrow> curl_request \<Rightarrow> curl_request" where
  "AddAuthorization a r = (if auth_active a then r\<lparr>rq_auth := Some (Retrive a)\<rparr> else r)"

definition WriteCallback :: "string \<Rightarrow> string \<Rightarrow> nat \<times> string" where
  "WriteCallback contents buffer = (length contents, buffer @ contents)"

definition PerformCurlRequest ::
    "'w curl_env \<Rightarrow> string \<Rightarrow> string \<Rightarrow> string \<Rightarrow> AuthHandler option \<Rightarrow> string \<Rightarrow>
     ('w, fault, nat \<times> string) action" where
  "PerformCurlRequest C path method host auth_handler data = (\<lambda>w.
    if \<not> easy_init C w then (Inl (Std (runtime_error ''CURL initialization failed'')), w)
    else case auth_handler of
        None \<Rightarrow> (Inl (UB ''null authentication handler''), w)
      | Some auth \<Rightarrow>
          let req = (AddAuthorization auth \<lparr>rq_url = host @ path, rq_auth = None,
                       rq_method = method, rq_json_body = None\<rparr>)
                    \<lparr>rq_json_body := (if data = [] then None else Some data)\<rparr>
          in (case perform C req w of
                (Inl msg, w') \<Rightarrow> (Inl (Thrown (CurlError msg)), w')
              | (Inr (code, body), w') \<Rightarrow>
                  if 400 \<le> code then (Inl (Thrown (HttpError (int code) body)), w')
                  else (Inr (code, body), w')))"

section \<open>The management client\<close>

record RabbitMQRestService =
  base_url :: string
  auth_ptr :: "AuthHandler option"

definition SetBaseUrl :: "string \<Rightarrow> RabbitMQRestService \<Rightarrow> RabbitMQRestService" where
  "SetBaseUrl u s = s\<lparr>base_url := u\<rparr>"

definition SetParams :: "string \<Rightarrow> AuthHandler option \<Rightarrow> RabbitMQRestService \<Rightarrow> RabbitMQRestService" where
  "SetParams u a s = s\<lparr>base_url := u, auth_ptr := a\<rparr>"

definition PerformRequest ::
    "'w curl_env \<Rightarrow> RabbitMQRestService \<Rightarrow> string \<Rightarrow> HttpMethod \<Rightarrow> string \<Rightarrow> ('w, fault, nat \<times> string) action" where
  "PerformRequest C s path method data =
    sbind (slift (HttpMethod_ToString method))
      (\<lambda>m. PerformCurlRequest C path m (base_url s) (auth_ptr s) data)"

definition ParseJson :: "('j, 'f) jsoncpp \<Rightarrow> string \<Rightarrow> fault + 'j" where
  "ParseJson J s =
    (case j_parse J s of Inl errs \<Rightarrow> Inl (Std (runtime_error (''JSON parse error: '' @ errs)))
     | Inr j \<Rightarrow> Inr j)"

definition request_json ::
    "('j, 'f) jsoncpp \<Rightarrow> 'w curl_env \<Rightarrow> RabbitMQRestService \<Rightarrow> string \<Rightarrow> HttpMethod \<Rightarrow> string \<Rightarrow>
     ('w, fault, 'j) action" where
  "request_json J C s path method data =
    sbind (PerformRequest C s path method data) (\<lambda>(code, body). slift (ParseJson J body))"

definition request_true ::
    "'w curl_env \<Rightarrow> RabbitMQRestService \<Rightarrow> string \<Rightarrow> HttpMethod \<Rightarrow> string \<Rightarrow> ('w, fault, bool) action" where
  "request_true C s path method data =
    sbind (PerformRequest C s path method data) (\<lambda>_. sret True)"

definition CreateQueue ::
    "('j, 'f) jsoncpp \<Rightarrow> 'w curl_env \<Rightarrow> RabbitMQRestService \<Rightarrow> string \<Rightarrow> queue \<Rightarrow> 'j \<Rightarrow>
     ('w, fault, bool) action" where
  "CreateQueue J C s vhost q arguments =
    (let path = fmt_format ''/api/queues/{}/{}'' [vhost, qu_name q];
         body = (if j_size J arguments \<noteq> 0
                 then j_set J (queue_ToJson J q) ''arguments'' arguments else queue_ToJson J q)
     in request_true C s path PUT (j_write J body))"

definition DeleteQueue ::
    "'w curl_env \<Rightarrow> RabbitMQRestService \<Rightarrow> string \<Rightarrow> string \<Rightarrow> ('w, fault, bool) action" where
  "DeleteQueue C s vhost queue_name =
    request_true C s (fmt_format ''/api/queues/{}/{}'' [vhost, queue_name]) DELETE []"

definition CreateExchange ::
    "('j, 'f) jsoncpp \<Rightarrow> 'w curl_env \<Rightarrow> RabbitMQRestService \<Rightarrow> string \<Rightarrow> exchange \<Rightarrow> 'j \<Rightarrow>
     ('w, fault, bool) action" where
  "CreateExchange J C s vhost e arguments =
    sbind (slift (exchange_ToJson J e))
      (\<lambda>body. request_true C s (fmt_format ''/api/exchanges/{}/{}'' [vhost, ex_name e]) PUT (j_write J body))"

definition DeleteExchange ::
    "'w curl_env \<Rightarrow> RabbitMQRestService \<Rightarrow> string \<Rightarrow> string \<Rightarrow> ('w, fault, bool) action" where
  "DeleteExchange C s vhost exchange_name =
    request_true C s (fmt_format ''/api/exchanges/{}/{}'' [vhost, exchange_name]) DELETE []"

definition GetQueueStats ::
    "('j, 'f) jsoncpp \<Rightarrow> 'w curl_env \<Rightarrow> RabbitMQRestService \<Rightarrow> string \<Rightarrow> string \<Rightarrow> ('w, fault, 'j) action" where
  "GetQueueStats J C s vhost queue_name =
    request_json J C s (fmt_format ''/api/queues/{}/{}'' [vhost, queue_name]) GET []"

text \<open>
  Iteration over a JSON value visits the elements of an array, the member values of an object
  and nothing otherwise.
\<close>

definition json_items :: "('j, 'f) jsoncpp \<Rightarrow> 'j \<Rightarrow> fault + 'j list" where
  "json_items J j =
    (if j_type J j = arrayValue then rmap (at_json J j) [0..<j_size J j]
     else if j_type J j = objectValue then rmap (get_json J j) (j_names J j)
     else Inr [])"

definition ListQueues ::
    "('j, 'f) jsoncpp \<Rightarrow> 'w curl_env \<Rightarrow> RabbitMQRestService \<Rightarrow> string \<Rightarrow> ('w, fault, string list) action" where
  "ListQueues J C s vhost =
    sbind (request_json J C s (''/api/queues/'' @ vhost) GET [])
      (\<lambda>j. slift (rbind (json_items J j) (rmap (\<lambda>item. get_string J item ''name''))))"

definition BindQueueToExchange ::
    "('j, 'f) jsoncpp \<Rightarrow> 'w curl_env \<Rightarrow> RabbitMQRestService \<Rightarrow> string \<Rightarrow> string \<Rightarrow> string \<Rightarrow> string \<Rightarrow>
     ('w, fault, bool) action" where
  "BindQueueToExchange J C s vhost queue_name exchange_name routing_key =
    (let path = ''/api/bindings/'' @ vhost @ ''/e/'' @ exchange_name @ ''/q/'' @ queue_name;
         body = j_set J (j_null J) ''routing_key'' (j_ofString J routing_key)
     in request_true C s path POST (j_write J body))"

definition UnbindQueueFromExchange ::
    "'w curl_env \<Rightarrow> RabbitMQRestService \<Rightarrow> string \<Rightarrow> string \<Rightarrow> string \<Rightarrow> string \<Rightarrow> ('w, fault, bool) action" where
  "UnbindQueueFromExchange C s vhost queue_name exchange_name routing_key =
    request_true C s
      (''/api/bindings/'' @ vhost @ ''/e/'' @ exchange_name @ ''/q/'' @ queue_name @ ''/'' @ routing_key)
      DELETE []"

definition CreateUser ::
    "('j, 'f) jsoncpp \<Rightarrow> 'w curl_env \<Rightarrow> RabbitMQRestService \<Rightarrow> string \<Rightarrow> string \<Rightarrow> ('w, fault, bool) action" where
  "CreateUser J C s user pass =
    request_true C s (''/api/users/'' @ user) PUT
      (j_write J (j_sets J (j_null J)
         [(''password'', j_ofString J pass), (''tags'', j_ofString J ''worker'')]))"

definition DeleteUser ::
    "'w curl_env \<Rightarrow> RabbitMQRestService \<Rightarrow> string \<Rightarrow> ('w, fault, bool) action" where
  "DeleteUser C s user = request_true C s (''/api/users/'' @ user) DELETE []"

definition PublishMessage ::
    "('j, 'f) jsoncpp \<Rightarrow> 'w curl_env \<Rightarrow> RabbitMQRestService \<Rightarrow> string \<Rightarrow> string \<Rightarrow> message \<Rightarrow>
     ('w, fault, bool) action" where
  "PublishMessage J C s vhost exchange_name m =
    sbind (request_json J C s (fmt_format ''/api/exchanges/{}/{}/publish'' [vhost, exchange_name])
             POST (j_write J (message_ToJson J m)))
      (\<lambda>rr. slift (get_bool J rr ''routed''))"

definition GetMessageCount ::
    "('j, 'f) jsoncpp \<Rightarrow> 'w curl_env \<Rightarrow> RabbitMQRestService \<Rightarrow> string \<Rightarrow> string \<Rightarrow> ('w, fault, nat) action" where
  "GetMessageCount J C s vhost queue_name =
    sbind (request_json J C s (fmt_format ''/api/queues/{}/{}/get'' [vhost, queue_name]) POST
             (j_write J (j_sets J (j_null J)
                [(''count'', j_ofInt64 J 1000), (''ackmode'', j_ofString J ''ack_requeue_true''),
                 (''encoding'', j_ofString J ''auto''), (''truncate'', j_ofInt64 J 50000)])))
      (\<lambda>rr. sret (j_size J rr))"

text \<open>The list requests: an answer that is no array gives the empty vector.\<close>

definition list_of_json ::
    "('j, 'f) jsoncpp \<Rightarrow> ('j \<Rightarrow> fault + 'a) \<Rightarrow> 'j \<Rightarrow> fault + 'a list" where
  "list_of_json J rd j =
    (if j_type J j = arrayValue then rbind (json_items J j) (rmap rd) else Inr [])"

definition ListUsers ::
    "('j, 'f) jsoncpp \<Rightarrow> 'w curl_env \<Rightarrow> RabbitMQRestService \<Rightarrow> string \<Rightarrow> ('w, fault, rabbitMQUser list) action" where
  "ListUsers J C s vhost =
    sbind (request_json J C s ''/api/users/'' GET [])
      (\<lambda>j. slift (list_of_json J (rabbitMQUser_FromJson J) j))"

definition ListConnections ::
    "('j, 'f) jsoncpp \<Rightarrow> 'w curl_env \<Rightarrow> RabbitMQRestService \<Rightarrow> ('w, fault, connection list) action" where
  "ListConnections J C s =
    sbind (request_json J C s ''/api/connections'' GET [])
      (\<lambda>j. slift (list_of_json J (connection_FromJson J) j))"

definition ListChannels ::
    "('j, 'f) jsoncpp \<Rightarrow> 'w curl_env \<Rightarrow> RabbitMQRestService \<Rightarrow> ('w, fault, channel list) action" where
  "ListChannels J C s =
    sbind (request_json J C s ''/api/channels'' GET [])
      (\<lambda>j. slift (list_of_json J (channel_FromJson J) j))"

definition Whoami ::
    "('j, 'f) jsoncpp \<Rightarrow> 'w curl_env \<Rightarrow> RabbitMQRestService \<Rightarrow> ('w, fault, 'j) action" where
  "Whoami J C s = request_json J C s ''/api/whoami'' GET []"

definition GetQueueBindings ::
    "('j, 'f) jsoncpp \<Rightarrow> 'w curl_env \<Rightarrow> RabbitMQRestService \<Rightarrow> string \<Rightarrow> string \<Rightarrow>
     ('w, fault, queueBinding list) action" where
  "GetQueueBindings J C s vhost q =
    sbind (request_json J C s (fmt_format ''/api/queues/{}/{}/bindings'' [vhost, q]) GET [])
      (\<lambda>j. slift (list_of_json J (queueBinding_FromJson J) j))"

definition ListGlobalParams ::
    "('j, 'f) jsoncpp \<Rightarrow> 'w curl_env \<Rightarrow> RabbitMQRestService \<Rightarrow> ('w, fault, 'j global_param list) action" where
  "ListGlobalParams J C s =
    sbind (request_json J C s ''/api/global-parameters'' GET [])
      (\<lambda>j. slift (list_of_json J (global_param_FromJson J) j))"

definition GlobalParam ::
    "('j, 'f) jsoncpp \<Rightarrow> 'w curl_env \<Rightarrow> RabbitMQRestService \<Rightarrow> 'j global_param \<Rightarrow> HttpMethod \<Rightarrow>
     ('w, fault, bool) action" where
  "GlobalParam J C s param type =
    (let path = fmt_format ''/api/global-parameters/{}'' [gp_name param]
     in if type = PUT
        then request_true C s path type (j_write J (global_param_ToJson J param))
        else request_true C s path type [])"

definition GetExchanges ::
    "('j, 'f) jsoncpp \<Rightarrow> 'w curl_env \<Rightarrow> RabbitMQRestService \<Rightarrow> string \<Rightarrow> ('w, fault, exchange list) action" where
  "GetExchanges J C s vhost =
    sbind (request_json J C s (fmt_format ''/api/exchanges/{}'' [vhost]) GET [])
      (\<lambda>j. slift (list_of_json J (exchange_FromJson J) j))"

section \<open>The contract of the calls that change the broker\<close>

text \<open>
  The mutating half of the public interface, the call each entry stands for, and what it must
  send: path, method and body of one request.
\<close>

datatype 'j mutation =
    M_CreateQueue string queue 'j
  | M_DeleteQueue string string
  | M_CreateExchange string exchange 'j
  | M_DeleteExchange string string
  | M_Bind string string string string
  | M_Unbind string string string string
  | M_CreateUser string string
  | M_DeleteUser string
  | M_GlobalParam "'j global_param" HttpMethod

fun run_mutation ::
    "('j, 'f) jsoncpp \<Rightarrow> 'w curl_env \<Rightarrow> RabbitMQRestService \<Rightarrow> 'j mutation \<Rightarrow> ('w, fault, bool) action" where
  "run_mutation J C s (M_CreateQueue v q a) = CreateQueue J C s v q a"
| "run_mutation J C s (M_DeleteQueue v q) = DeleteQueue C s v q"
| "run_mutation J C s (M_CreateExchange v e a) = CreateExchange J C s v e a"
| "run_mutation J C s (M_DeleteExchange v e) = DeleteExchange C s v e"
| "run_mutation J C s (M_Bind v q e k) = BindQueueToExchange J C s v q e k"
| "run_mutation J C s (M_Unbind v q e k) = UnbindQueueFromExchange C s v q e k"
| "run_mutation J C s (M_CreateUser u p) = CreateUser J C s u p"
| "run_mutation J C s (M_DeleteUser u) = DeleteUser C s u"
| "run_mutation J C s (M_GlobalParam g m) = GlobalParam J C s g m"

definition exchange_json :: "('j, 'f) jsoncpp \<Rightarrow> exchange \<Rightarrow> 'j" where
  "exchange_json J e = projr (exchange_ToJson J e)"

fun mutation_request :: "('j, 'f) jsoncpp \<Rightarrow> 'j mutation \<Rightarrow> string \<times> string \<times> string" where
  "mutation_request J (M_CreateQueue v q a) =
    (''/api/queues/'' @ v @ ''/'' @ qu_name q, ''PUT'',
     j_write J (if j_size J a = 0 then queue_ToJson J q else j_set J (queue_ToJson J q) ''arguments'' a))"
| "mutation_request J (M_DeleteQueue v q) = (''/api/queues/'' @ v @ ''/'' @ q, ''DELETE'', [])"
| "mutation_request J (M_CreateExchange v e a) =
    (''/api/exchanges/'' @ v @ ''/'' @ ex_name e, ''PUT'', j_write J (exchange_json J e))"
| "mutation_request J (M_DeleteExchange v e) = (''/api/exchanges/'' @ v @ ''/'' @ e, ''DELETE'', [])"
| "mutation_request J (M_Bind v q e k) =
    (''/api/bindings/'' @ v @ ''/e/'' @ e @ ''/q/'' @ q, ''POST'',
     j_write J (j_set J (j_null J) ''routing_key'' (j_ofString J k)))"
| "mutation_request J (M_Unbind v q e k) =
    (''/api/bindings/'' @ v @ ''/e/'' @ e @ ''/q/'' @ q @ ''/'' @ k, ''DELETE'', [])"
| "mutation_request J (M_CreateUser u p) =
    (''/api/users/'' @ u, ''PUT'',
     j_write J (j_sets J (j_null J) [(''password'', j_ofString J p), (''tags'', j_ofString J ''worker'')]))"
| "mutation_request J (M_DeleteUser u) = (''/api/users/'' @ u, ''DELETE'', [])"
| "mutation_request J (M_GlobalParam g m) =
    (''/api/global-parameters/'' @ gp_name g, httpMethod.str_of m,
     if m = PUT then j_write J (global_param_ToJson J g) else [])"

text \<open>The request on the wire, and the meaning of libcurl's answer.\<close>

definition wire_request :: "string \<Rightarrow> AuthHandler \<Rightarrow> string \<times> string \<times> string \<Rightarrow> curl_request" where
  "wire_request base a = (\<lambda>(path, m, body). \<lparr>rq_url = base @ path,
     rq_auth = (if auth_active a then Some (auth_user a, auth_password a) else None),
     rq_method = m, rq_json_body = (if body = [] then None else Some body)\<rparr>)"

definition http_outcome :: "string + (nat \<times> string) \<Rightarrow> fault + (nat \<times> string)" where
  "http_outcome a =
    (case a of Inl msg \<Rightarrow> Inl (Thrown (CurlError msg))
     | Inr (code, body) \<Rightarrow>
         if code < 400 then Inr (code, body) else Inl (Thrown (HttpError (int code) body)))"

text \<open>The same environment with a record of every request it performs.\<close>

definition logged :: "'w curl_env \<Rightarrow> ('w \<times> curl_request list) curl_env" where
  "logged C = \<lparr>easy_init = (\<lambda>(w, l). easy_init C w),
     perform = (\<lambda>r (w, l). case perform C r w of (a, w') \<Rightarrow> (a, (w', l @ [r])))\<rparr>"

lemma logged_simps [simp]:
  "easy_init (logged C) (w, l) = easy_init C w"
  "perform (logged C) r (w, l) = (fst (perform C r w), (snd (perform C r w), l @ [r]))"
  by (simp_all add: logged_def split: prod.split)

lemma PerformCurlRequest_wire:
  assumes "easy_init C w"
  shows "PerformCurlRequest C path m host (Some a) body w =
    (http_outcome (fst (perform C (wire_request host a (path, m, body)) w)),
     snd (perform C (wire_request host a (path, m, body)) w))"
  using assms
  by (simp add: PerformCurlRequest_def wire_request_def http_outcome_def AddAuthorization_def
      Retrive_def Let_def not_le split: prod.split sum.split)

lemma HttpMethod_ToString_eq: "HttpMethod_ToString m = Inr (httpMethod.str_of m)"
  by (simp add: HttpMethod_ToString_def httpMethod.EnumToStr_eq)

lemma PerformRequest_wire:
  assumes "easy_init C w" and "auth_ptr s = Some a"
  shows "PerformRequest C s path m body w =
    (http_outcome (fst (perform C (wire_request (base_url s) a (path, httpMethod.str_of m, body)) w)),
     snd (perform C (wire_request (base_url s) a (path, httpMethod.str_of m, body)) w))"
  using PerformCurlRequest_wire [OF assms(1)]
  by (simp add: PerformRequest_def HttpMethod_ToString_eq assms(2))

lemma request_true_wire:
  fixes path :: string and m :: HttpMethod and body :: string
  assumes "easy_init C w" and "auth_ptr s = Some a"
  defines "q \<equiv> wire_request (base_url s) a (path, httpMethod.str_of m, body)"
  shows "request_true C s path m body w =
    (rbind (http_outcome (fst (perform C q w))) (\<lambda>_. Inr True), snd (perform C q w))"
  using PerformRequest_wire [OF assms(1,2), of path m body] unfolding q_def
  by (simp add: request_true_def sbind_apply split: sum.split)

lemma method_names [simp]:
  "httpMethod.str_of PUT = ''PUT''" "httpMethod.str_of DELETE = ''DELETE''"
  "httpMethod.str_of POST = ''POST''" "httpMethod.str_of GET = ''GET''"
  by (rule httpMethod.str_of_eqI, simp add: kHttpMethodMappings_def)+

lemma exchange_ToJson_json: "exchange_ToJson J e = Inr (exchange_json J e)"
  by (simp add: exchange_json_def exchange_ToJson_def exchangeType.EnumToStr_eq)

lemma run_mutation_wire:
  fixes J :: "('j, 'f) jsoncpp" and c :: "'j mutation"
  assumes "easy_init C w" and "auth_ptr s = Some a"
  defines "q \<equiv> wire_request (base_url s) a (mutation_request J c)"
  shows "run_mutation J C s c w =
    (rbind (http_outcome (fst (perform C q w))) (\<lambda>_. Inr True), snd (perform C q w))"
  unfolding q_def
  by (cases c) (simp_all add: CreateQueue_def DeleteQueue_def CreateExchange_def DeleteExchange_def
      BindQueueToExchange_def UnbindQueueFromExchange_def CreateUser_def DeleteUser_def GlobalParam_def
      request_true_wire [OF assms(1,2)] exchange_ToJson_json Let_def)

section \<open>The calls that read\<close>

text \<open>\<open>serves\<close>: the server answers the GET of a path with a body.\<close>

definition serves :: "'w curl_env \<Rightarrow> RabbitMQRestService \<Rightarrow> string \<Rightarrow> string \<Rightarrow> 'w \<Rightarrow> bool" where
  "serves C s path body w \<longleftrightarrow> easy_init C w \<and>
    (case auth_ptr s of None \<Rightarrow> False
     | Some a \<Rightarrow> (case fst (perform C (wire_request (base_url s) a (path, ''GET'', [])) w) of
                   Inl _ \<Rightarrow> False
                 | Inr (code, b) \<Rightarrow> code < 400 \<and> b = body))"

lemma request_json_serves:
  assumes "serves C s path body w"
  shows "fst (request_json J C s path GET [] w) = ParseJson J body"
proof -
  from assms obtain a code where a: "easy_init C w" "auth_ptr s = Some a" "code < 400"
      "fst (perform C (wire_request (base_url s) a (path, ''GET'', [])) w) = Inr (code, body)"
    by (auto simp: serves_def split: option.splits sum.splits)
  show ?thesis using PerformRequest_wire [OF a(1,2), of path GET "[]"] a(3,4)
    by (simp add: request_json_def sbind_apply http_outcome_def)
qed

lemma request_json_then:
  assumes "serves C s path body w" and "j_parse J body = Inr j"
  shows "fst (sbind (request_json J C s path GET []) (\<lambda>j. slift (f j)) w) = f j"
  using request_json_serves [OF assms(1), of J] assms(2)
  by (cases "request_json J C s path GET [] w") (simp add: sbind_apply ParseJson_def)

lemma rmap_encoded: "(\<And>x. rd (ofT x) = Inr (g x)) \<Longrightarrow> rmap rd (map ofT xs) = Inr (map g xs)"
  by (induction xs) simp_all

context jsoncpp_laws
begin

lemma fill_array_type:
  "j_type J (fill_array J ofT xs (j_null J)) = (if xs = [] then nullValue else arrayValue)"
  using fill_array_prefix [of "length xs" xs ofT] by (simp add: fill_array_def)

lemma json_items_array:
  "json_items J (fill_array J ofT xs (j_null J)) = Inr (map ofT xs)"
proof (cases "xs = []")
  case True
  then show ?thesis by (simp add: json_items_def fill_array_def)
next
  case False
  have "rmap (at_json J (fill_array J ofT xs (j_null J))) [0..<length xs]
      = Inr (map (\<lambda>i. ofT (xs ! i)) [0..<length xs])"
    by (intro rmap_all_Inr) (simp add: at_json_def fill_array_at)
  also have "map (\<lambda>i. ofT (xs ! i)) [0..<length xs] = map ofT xs"
    by (rule nth_equalityI) simp_all
  finally have r: "rmap (at_json J (fill_array J ofT xs (j_null J))) [0..<length xs] = Inr (map ofT xs)" .
  show ?thesis by (simp add: json_items_def fill_array_size fill_array_type False r)
qed

lemma list_of_json_array:
  assumes "\<And>x. rd (ofT x) = Inr x"
  shows "list_of_json J rd (ContinuousToJson J ofT xs ps True) = Inr xs"
proof (cases xs)
  case Nil
  then show ?thesis
    by (simp add: list_of_json_def ContinuousToJson_def fill_array_type)
next
  case (Cons y ys)
  then have "list_of_json J rd (ContinuousToJson J ofT xs ps True) = rmap rd (map ofT xs)"
    by (simp add: list_of_json_def ContinuousToJson_def fill_array_type json_items_array)
  also have "\<dots> = Inr xs" using rmap_encoded [of rd ofT "\<lambda>x. x" xs, OF assms] by simp
  finally show ?thesis .
qed

lemma exchange_json_rt: "exchange_FromJson J (exchange_json J e) = Inr e"
  using exchange_rt [of e] by (simp add: exchange_ToJson_json)

lemma queue_json_name: "get_string J (queue_ToJson J q) ''name'' = Inr (qu_name q)"
  by (simp add: queue_ToJson_def get_defs get_sets)

lemma GetExchanges_array:
  "serves C s (''/api/exchanges/'' @ vhost) body w \<Longrightarrow>
    j_parse J body = Inr (ContinuousToJson J (exchange_json J) es ps True) \<Longrightarrow>
    fst (GetExchanges J C s vhost w) = Inr es"
  by (simp add: GetExchanges_def request_json_then list_of_json_array exchange_json_rt)

lemma ListGlobalParams_array:
  "serves C s ''/api/global-parameters'' body w \<Longrightarrow>
    j_parse J body = Inr (ContinuousToJson J (global_param_ToJson J) gs ps True) \<Longrightarrow>
    fst (ListGlobalParams J C s w) = Inr gs"
  by (simp add: ListGlobalParams_def request_json_then list_of_json_array global_param_rt)

lemma ListQueues_array:
  "serves C s (''/api/queues/'' @ vhost) body w \<Longrightarrow>
    j_parse J body = Inr (ContinuousToJson J (queue_ToJson J) qs ps True) \<Longrightarrow>
    fst (ListQueues J C s vhost w) = Inr (map qu_name qs)"
  using rmap_encoded [of "\<lambda>item. get_string J item ''name''" "queue_ToJson J" qu_name qs]
  by (simp add: ListQueues_def request_json_then ContinuousToJson_def json_items_array queue_json_name)

end

section \<open>Properties\<close>


definition sample_curl :: "nat curl_env" where
  "sample_curl = \<lparr>easy_init = (\<lambda>_. True), perform = (\<lambda>r w. (Inr (204, []), w + 1))\<rparr>"

definition sample_service :: RabbitMQRestService where
  "sample_service = \<lparr>base_url = ''h'', auth_ptr = Some (make_auth ''u'' ''p'')\<rparr>"


text \<open>When the server answers a listing with the JSON array of a sequence of resources, the
call returns exactly that sequence in order: exchanges and global parameters as values,
queues by name.\<close>

theorem listings_faithful:
  assumes "jsoncpp_laws J"
  shows "(serves C s (''/api/exchanges/'' @ vhost) body w \<and>
      j_parse J body = Inr (ContinuousToJson J (exchange_json J) es ps True) \<longrightarrow>
      fst (GetExchanges J C s vhost w) = Inr es) \<and>
    (serves C s ''/api/global-parameters'' body w \<and>
      j_parse J body = Inr (ContinuousToJson J (global_param_ToJson J) gs ps True) \<longrightarrow>
      fst (ListGlobalParams J C s w) = Inr gs) \<and>
    (serves C s (''/api/queues/'' @ vhost) body w \<and>
      j_parse J body = Inr (ContinuousToJson J (queue_ToJson J) qs ps True) \<longrightarrow>
      fst (ListQueues J C s vhost w) = Inr (map qu_name qs))"
  by (intro conjI impI; elim conjE)
    (erule (1) jsoncpp_laws.GetExchanges_array [OF assms] jsoncpp_laws.ListGlobalParams_array [OF assms]
      jsoncpp_laws.ListQueues_array [OF assms])+

definition listing_json :: "(unit json, unit) jsoncpp" where
  "listing_json = json_model\<lparr>j_parse := (\<lambda>_. Inr (ContinuousToJson json_model (queue_ToJson json_model)
     [make_queue ''jobs'' ''/'', make_queue ''logs'' ''/''] True True))\<rparr>"

lemma parse_update_laws: "jsoncpp_laws J \<Longrightarrow> jsoncpp_laws (J\<lparr>j_parse := f\<rparr>)"
  by (simp add: jsoncpp_laws_def)

lemma parse_update_ops [simp]:
  "ContinuousToJson (J\<lparr>j_parse := f\<rparr>) = ContinuousToJson J"
  "queue_ToJson (J\<lparr>j_parse := f\<rparr>) = queue_ToJson J"
  by (simp_all add: ContinuousToJson_def fill_array_def queue_ToJson_def j_sets_def fun_eq_iff Let_def)

theorem listings_faithful_witness:
  "fst (ListQueues listing_json sample_curl sample_service ''v'' 0) = Inr [''jobs'', ''logs'']"
proof -
  have laws: "jsoncpp_laws listing_json"
    by (simp only: listing_json_def) (rule parse_update_laws [OF json_model_laws])
  have "fst (ListQueues listing_json sample_curl sample_service ''v'' 0)
      = Inr (map qu_name [make_queue ''jobs'' ''/'', make_queue ''logs'' ''/''])"
  proof (rule listings_faithful [OF laws, where body = "[]" and ps = True, THEN conjunct2, THEN conjunct2, THEN mp],
      intro conjI)
    show "serves sample_curl sample_service (''/api/queues/'' @ ''v'') [] 0"
      by (simp add: serves_def sample_curl_def sample_service_def)
    show "j_parse listing_json [] = Inr (ContinuousToJson listing_json (queue_ToJson listing_json)
        [make_queue ''jobs'' ''/'', make_queue ''logs'' ''/''] True True)"
      by (simp only: listing_json_def parse_update_ops) simp
  qed
  then show ?thesis by (simp add: make_queue_def)
qed

end
