(* ===== verification/SharedConstants.thy ===== *)
theory SharedConstants
  imports Prelude
begin

text \<open>\<open>sharedConstants.h\<close>: the system sizes every node benchmarks, their iteration counts and
the slot of a size in a benchmark vector.\<close>

section \<open>Benchmark sizes\<close>

definition ns :: "u64 list" where
  "ns = [1, 2, 4, 5, 8, 10, 20, 40, 50, 100, 200, 400, 500]"

definition iter_count :: "u64 list" where
  "iter_count = [1000, 1000, 1000, 1000, 1000, 1000, 100, 100, 100, 25, 25, 5, 5]"

text \<open>\<open>std::find\<close> gives the length of \<open>ns\<close> for a size that is not listed.\<close>

fun find_index :: "'a \<Rightarrow> 'a list \<Rightarrow> nat" where
  "find_index x [] = 0"
| "find_index x (y # ys) = (if x = y then 0 else Suc (find_index x ys))"

definition NIndex :: "u64 \<Rightarrow> nat" where
  "NIndex result_type = find_index result_type ns"

lemma length_ns [simp]: "length ns = 13" and length_iter_count [simp]: "length iter_count = 13"
  by (simp_all add: ns_def iter_count_def)

end
