(* ===== verification/MainNode.thy ===== *)
theory MainNode
  imports ServiceCalls Workers RestService SharedConstants
begin

text \<open>
  \<open>MainNodeService.h/.cpp\<close>: the handlers of the main node.  The
  node composes the REST client, the publisher and the worker registry.  HTTP requests to
  workers, libcurl, the outcome of a connection attempt and the clock are arguments; every
  handler returns the JSON answer or the exception that leaves it, with the state reached.
\<close>

section \<open>State\<close>

record envelope =
  env_body :: string
  env_persistent :: bool
  env_messageNum :: u64
  env_time :: u64
  env_timestamp :: u64

record MainNodeService =
  auth :: AuthHandler
  rest_service :: RabbitMQRestService
  publisher_service :: "envelope publisher"
  workers :: WorkerManagementService
  q_host :: string

definition vhost :: string where
  "vhost = ''%2F''"

definition new_MainNodeService :: "string \<Rightarrow> string \<Rightarrow> MainNodeService" where
  "new_MainNodeService user password = \<lparr>auth = make_auth user password,
     rest_service = \<lparr>base_url = [], auth_ptr = None\<rparr>, publisher_service = new_publisher,
     workers = new_WorkerManagementService, q_host = []\<rparr>"

text \<open>The publisher's calls of the blocking operations.\<close>

abbreviation Publisher_Connect :: "connect_env \<Rightarrow> ('m publisher, fault, unit) action" where
  "Publisher_Connect \<equiv> Service_Connect pub_Reconnect pub_ServiceName"

section \<open>Answers\<close>

definition answer :: "('j, 'f) jsoncpp \<Rightarrow> string \<Rightarrow> (string \<times> 'j) list \<Rightarrow> 'j" where
  "answer J request kvs = j_sets J (j_null J) ((''request'', j_ofString J request) # kvs)"

definition code_field :: "('j, 'f) jsoncpp \<Rightarrow> nat \<Rightarrow> string \<times> 'j" where
  "code_field J code = (''status'', j_ofInt64 J (of_nat code))"

definition message_field :: "('j, 'f) jsoncpp \<Rightarrow> string \<Rightarrow> string \<times> 'j" where
  "message_field J text = (''message'', j_ofString J text)"

definition queue_unavailable :: string where
  "queue_unavailable = ''Queue service is currently unavailable try using connect_publisher/ request''"

text \<open>The answer when an \<open>HttpError\<close> was caught.\<close>

definition http_error_fields :: "('j, 'f) jsoncpp \<Rightarrow> int \<Rightarrow> string \<Rightarrow> (string \<times> 'j) list" where
  "http_error_fields J code reason =
    [code_field J 409, message_field J ''Error during queue creation'',
     (''exception'', j_sets J (j_null J)
        [(''message'', j_ofString J reason), (''code'', j_ofInt64 J (word_of_int code))])]"

section \<open>Handlers\<close>

definition Status :: "('j, 'f) jsoncpp \<Rightarrow> MainNodeService \<Rightarrow> 'j" where
  "Status J s = answer J ''status''
    [if IsConnected (publisher_service s)
     then (''rabbitmq_service'', j_sets J (j_null J)
             [(''status'', j_ofString J ''Connected''),
              (''c_string'', j_ofString J (am_formatted (c_string (publisher_service s))))])
     else (''RabbitmqService'', j_sets J (j_null J) [(''status'', j_ofString J ''Not Connected'')]),
     (''clients'', Worker_GetStatus J (workers s)),
     code_field J 200]"

text \<open>
  An action of the REST client inside a handler; \<open>'w\<close> is libcurl's world.
\<close>

type_synonym ('w, 'a) handler = "('w \<times> MainNodeService, fault, 'a) action"

definition on_rest :: "(RabbitMQRestService \<Rightarrow> ('w, fault, 'a) action) \<Rightarrow> ('w, 'a) handler" where
  "on_rest act = (\<lambda>(w, s). case act (rest_service s) w of (r, w') \<Rightarrow> (r, (w', s)))"

definition on_workers ::
    "(WorkerManagementService, fault, 'a) action \<Rightarrow> ('w, 'a) handler" where
  "on_workers act = (\<lambda>(w, s). case act (workers s) of (r, ws) \<Rightarrow> (r, (w, s\<lparr>workers := ws\<rparr>)))"

text \<open>\<open>try { ... } catch (HttpError &)\<close>: other exceptions pass.\<close>

definition catch_http :: "('w, unit) handler \<Rightarrow> (int \<Rightarrow> string \<Rightarrow> 'j) \<Rightarrow> ('w, 'j option) handler" where
  "catch_http body h = scatch (sbind body (\<lambda>_. sret None))
     (\<lambda>e. case e of Thrown (HttpError code reason) \<Rightarrow> sret (Some (h code reason)) | _ \<Rightarrow> slift (Inl e))"

definition Node_ConnectNode ::
    "('j, 'f) jsoncpp \<Rightarrow> 'w curl_env \<Rightarrow> (string \<Rightarrow> string \<Rightarrow> 'j option \<Rightarrow> 'j http_answer) \<Rightarrow>
     string \<Rightarrow> string \<Rightarrow> ('w, 'j) handler" where
  "Node_ConnectNode J C http host_port name = (\<lambda>(w, s).
    if \<not> IsConnected (publisher_service s)
    then (Inr (answer J ''connect_node'' [code_field J 409, message_field J queue_unavailable]), (w, s))
    else
      let (js1, ws) = AddNewNode J host_port (workers s); s1 = s\<lparr>workers := ws\<rparr>
      in if j_isMember J js1 ''status''
         then (rbind (get_json J js1 ''status'') (\<lambda>st. Inr (answer J ''connect_node''
                 [(''status'', st), (''balancer_output'', j_remove J js1 ''status'')])), (w, s1))
         else sbind (catch_http
             (sbind (on_rest (\<lambda>r. ListQueues J C r vhost)) (\<lambda>ls.
                if name \<notin> set ls
                then sbind (on_rest (\<lambda>r. CreateQueue J C r vhost (make_queue name (fst (Retrive (auth s1)))) (j_null J)))
                  (\<lambda>_. sbind (on_rest (\<lambda>r. BindQueueToExchange J C r vhost name
                                    (default_exchange (publisher_service s1)) name)) (\<lambda>_. sret ()))
                else sret ()))
             (\<lambda>code reason. answer J ''connect_node'' (http_error_fields J code reason)))
           (\<lambda>early. case early of Some j \<Rightarrow> sret j
            | None \<Rightarrow>
                let body = j_sets J (JsonAuthHandler_ToJson J (auth s1))
                             [(''ip'', j_ofString J (q_host s1)), (''name'', j_ofString J name)]
                in sbind (on_workers (Worker_ConnectNode J (\<lambda>url. http url ''/v1/Connect'' (Some body)) host_port))
                  (\<lambda>js2. slift (if j_isMember J js2 ''status''
                     then rbind (get_json J js2 ''status'') (\<lambda>st. Inr (answer J ''connect_node''
                            [(''balancer_output'', j_remove J js2 ''status''), (''status'', st)]))
                     else Inr (answer J ''connect_node'' [(''balancer_output'', js2), code_field J 200]))))
           (w, s1))"

definition Node_DisconnectNode ::
    "('j, 'f) jsoncpp \<Rightarrow> (string \<Rightarrow> string \<Rightarrow> 'j option \<Rightarrow> 'j http_answer) \<Rightarrow> string \<Rightarrow> ('w, 'j) handler" where
  "Node_DisconnectNode J http host_port = (\<lambda>(w, s).
    if \<not> IsConnected (publisher_service s)
    then (Inr (answer J ''disconnect_node'' [code_field J 409, message_field J queue_unavailable]), (w, s))
    else sbind (on_workers (Worker_DisconnectNode J (\<lambda>url. http url ''/v1/Disconnect'' None) host_port))
      (\<lambda>js1. slift (if j_isMember J js1 ''status''
         then rbind (get_json J js1 ''status'') (\<lambda>st. Inr (answer J ''disconnect_node''
                [(''balancer_output'', j_remove J js1 ''status''), (''status'', st)]))
         else Inr (answer J ''disconnect_node'' [(''balancer_output'', js1), code_field J 200])))
      (w, s))"

text \<open>
  \<open>Connect\<close> also catches \<open>CurlError\<close>, and \<open>std::runtime_error\<close> around the publisher; the
  exceptions of \<open>errorHandling.h\<close> derive from \<open>std::logic_error\<close> and pass.
\<close>

definition catch_http_curl ::
    "('j, 'f) jsoncpp \<Rightarrow> ('w, unit) handler \<Rightarrow> (int \<Rightarrow> string \<Rightarrow> 'j) \<Rightarrow> (string \<Rightarrow> 'j) \<Rightarrow> ('w, 'j option) handler" where
  "catch_http_curl J body h c = scatch (sbind body (\<lambda>_. sret None))
     (\<lambda>e. case e of Thrown (HttpError code reason) \<Rightarrow> sret (Some (h code reason))
      | Thrown (CurlError msg) \<Rightarrow> slift (rbind (exc_what (CurlError msg)) (\<lambda>t. Inr (Some (c t))))
      | _ \<Rightarrow> slift (Inl e))"

text \<open>The parameters \<open>Connect\<close> stores, and its guarded creation of the default exchange.\<close>

definition connect_settings :: "string \<Rightarrow> MainNodeService \<Rightarrow> MainNodeService" where
  "connect_settings qip s =
    (let r = Retrive (auth s)
     in s\<lparr>q_host := qip,
          rest_service := SetParams (fmt_format ''http://{}:15672'' [qip]) (Some (auth s)) (rest_service s),
          publisher_service := pub_SetParameters (make_amqp qip (fst r) (snd r) False) ''testexch''
            (publisher_service s)\<rparr>)"

definition ensure_exchange :: "('j, 'f) jsoncpp \<Rightarrow> 'w curl_env \<Rightarrow> string \<Rightarrow> string \<Rightarrow> ('w, 'j option) handler" where
  "ensure_exchange J C exch user = catch_http_curl J
     (sbind (on_rest (\<lambda>rs. GetExchanges J C rs vhost)) (\<lambda>exchanges.
        if exch \<notin> ex_name ` set exchanges
        then sbind (on_rest (\<lambda>rs. CreateExchange J C rs vhost (make_exchange exch user direct) (j_null J)))
               (\<lambda>_. sret ())
        else sret ()))
     (\<lambda>code reason. answer J ''connect_publisher'' (http_error_fields J code reason))
     (\<lambda>text. answer J ''connect_publisher''
        [code_field J 409, message_field J ''Error during http curl request'',
         (''exception'', j_sets J (j_null J) [(''message'', j_ofString J text)])])"

definition start_publisher :: "('j, 'f) jsoncpp \<Rightarrow> connect_env \<Rightarrow> ('w, 'j) handler" where
  "start_publisher J env = (\<lambda>(w, s).
    case Publisher_Connect env (publisher_service s) of
      (Inr _, p) \<Rightarrow> (Inr (answer J ''connect_publisher'' [code_field J 200]), (w, s\<lparr>publisher_service := p\<rparr>))
    | (Inl (Std (runtime_error m)), p) \<Rightarrow>
        (Inr (answer J ''connect_publisher'' [code_field J 409, message_field J
           (fmt_format ''Publisher connection error, msg \"{}\"!'' [m])]), (w, s\<lparr>publisher_service := p\<rparr>))
    | (Inl e, p) \<Rightarrow> (Inl e, (w, s\<lparr>publisher_service := p\<rparr>)))"

definition Node_Connect ::
    "('j, 'f) jsoncpp \<Rightarrow> 'w curl_env \<Rightarrow> connect_env \<Rightarrow> string \<Rightarrow> ('w, 'j) handler" where
  "Node_Connect J C env qip = (\<lambda>(w, s).
    if IsConnected (publisher_service s)
    then (Inr (answer J ''connect_publisher'' [code_field J 409, message_field J
            (fmt_format ''Queue service is currently working {}'' [am_formatted (c_string (publisher_service s))])]),
          (w, s))
    else
      let s1 = connect_settings qip s
      in sbind (ensure_exchange J C (default_exchange (publisher_service s1)) (fst (Retrive (auth s))))
           (\<lambda>early. case early of Some j \<Rightarrow> sret j | None \<Rightarrow> start_publisher J env)
           (w, s1))"

definition Node_Disconnect :: "('j, 'f) jsoncpp \<Rightarrow> MainNodeService \<Rightarrow> 'j \<times> MainNodeService" where
  "Node_Disconnect J s =
    (if \<not> IsConnected (publisher_service s)
     then (answer J ''disconnect_publisher'' [code_field J 409, message_field J queue_unavailable], s)
     else (answer J ''disconnect_publisher'' [code_field J 200],
           s\<lparr>publisher_service := Service_Disconnect (publisher_service s)\<rparr>))"

section \<open>Dividing a task\<close>

text \<open>
  \<open>clock\<close> gives the two readings of the clock for the n-th publication.  A refused publication changes nothing and
  its answer, which \<open>SendToExecution\<close> ignores, says so.
\<close>

definition task_envelope :: "('j, 'f) jsoncpp \<Rightarrow> u64 \<times> u64 \<Rightarrow> 'f TestSolveParam \<Rightarrow> envelope" where
  "task_envelope J now ts = \<lparr>env_body = j_styled J (TestSolveParam_ToJson J ts), env_persistent = True,
     env_messageNum = experiment_id ts, env_time = fst now, env_timestamp = snd now\<rparr>"

definition Node_PublishMessage ::
    "('j, 'f) jsoncpp \<Rightarrow> (nat \<Rightarrow> u64 \<times> u64) \<Rightarrow> 'f TestSolveParam \<Rightarrow> string \<Rightarrow>
     (envelope publisher, fault, 'j) action" where
  "Node_PublishMessage J clock ts node = (\<lambda>p.
    if \<not> IsConnected p
    then (Inr (answer J ''message'' [code_field J 409, message_field J ''Queue service is already shut down'']), p)
    else (case Publish (task_envelope J (clock (length (published p))) ts) node p of
            Inl e \<Rightarrow> (Inl e, p)
          | Inr p' \<Rightarrow> (Inr (answer J ''message'' [code_field J 200]), p')))"

text \<open>The number of iterations a node gets: \<open>(node_speed_ * itercount / GetSum())[NIndex(n)]\<close>.\<close>

definition node_share :: "u64 \<Rightarrow> u64 list \<Rightarrow> u64 \<Rightarrow> u64 list \<Rightarrow> fault + u64" where
  "node_share n sums itercount spd =
    rbind (va_div (map (\<lambda>v. v * itercount) spd) sums)
      (\<lambda>iters. if NIndex n < length iters then Inr (iters ! NIndex n)
               else Inl (UB ''valarray index out of bounds''))"

text \<open>The loop over all active nodes but the last, then the rest of the task for the last one.\<close>

fun send_loop ::
    "('j, 'f) jsoncpp \<Rightarrow> (nat \<Rightarrow> u64 \<times> u64) \<Rightarrow> u64 \<Rightarrow> u64 list \<Rightarrow> u64 \<Rightarrow> node_map \<Rightarrow> 'f TestSolveParam \<Rightarrow>
     (envelope publisher, fault, unit) action" where
  "send_loop J clock n sums itercount [] ts = slift (Inl (UB ''dereference of end()''))"
| "send_loop J clock n sums itercount [(key, val)] ts =
     sbind (Node_PublishMessage J clock ts key) (\<lambda>_. sret ())"
| "send_loop J clock n sums itercount ((key, val) # node # nodes) ts =
     sbind (slift (node_share n sums itercount (node_speed val))) (\<lambda>iters_to_slice.
     sbind (slift (SliceAway iters_to_slice ts)) (\<lambda>(ts_t, ts').
     sbind (Node_PublishMessage J clock ts_t key) (\<lambda>_.
       send_loop J clock n sums itercount (node # nodes) ts')))"

definition SendToExecution ::
    "('j, 'f) jsoncpp \<Rightarrow> (nat \<Rightarrow> u64 \<times> u64) \<Rightarrow> 'f TestSolveParam \<Rightarrow> (MainNodeService, fault, 'j) action" where
  "SendToExecution J clock ts = (\<lambda>s.
    if active_nodes (workers s) = []
    then (Inr (answer J ''send_task'' [message_field J ''No nodes to compute task'', code_field J 409]), s)
    else case send_loop J clock (ts_N ts) (GetSum (workers s)) (RangeSize ts) (active_nodes (workers s)) ts
                (publisher_service s) of
           (Inl e, p) \<Rightarrow> (Inl e, s\<lparr>publisher_service := p\<rparr>)
         | (Inr _, p) \<Rightarrow> (Inr (answer J ''send_task'' [code_field J 200]), s\<lparr>publisher_service := p\<rparr>))"

section \<open>Facts about the division\<close>

text \<open>The iterations of a task in order, and the log a list of slices leaves in the publisher.\<close>

definition iterations :: "'f TestSolveParam \<Rightarrow> nat list" where
  "iterations p = [unat (fst (range p)) ..< Suc (unat (snd (range p)))]"

definition dispatch_log ::
    "('j, 'f) jsoncpp \<Rightarrow> (nat \<Rightarrow> u64 \<times> u64) \<Rightarrow> string \<Rightarrow> nat \<Rightarrow> string list \<Rightarrow> 'f TestSolveParam list \<Rightarrow>
     (string \<times> string \<times> envelope) list" where
  "dispatch_log J clock exch start hosts slices =
    map (\<lambda>(i, h, sl). (exch, h, task_envelope J (clock i) sl))
      (zip [start..<start + length slices] (zip hosts slices))"

lemma dispatch_log_Cons:
  "dispatch_log J clock exch start (h # hosts) (sl # slices) =
    (exch, h, task_envelope J (clock start) sl) # dispatch_log J clock exch (Suc start) hosts slices"
  by (simp add: dispatch_log_def upt_conv_Cons del: upt_Suc)

lemma dispatch_log_Nil [simp]: "dispatch_log J clock exch start [] [] = []"
  by (simp add: dispatch_log_def)

lemma dispatch_log_hosts:
  "length hosts = length slices \<Longrightarrow> map (fst \<circ> snd) (dispatch_log J clock exch start hosts slices) = hosts"
  by (induction hosts slices arbitrary: start rule: list_induct2) (simp_all add: dispatch_log_Cons)

lemma Node_PublishMessage_connected:
  assumes "Node_PublishMessage J clock ts node p = (Inr j, p')" and "IsConnected p"
  shows "p' = p\<lparr>published := published p @
    [(default_exchange p, node, task_envelope J (clock (length (published p))) ts)]\<rparr>"
  using assms by (auto simp: Node_PublishMessage_def Publish_def split: if_splits)

lemma Node_PublishMessage_disconnected:
  "\<not> IsConnected p \<Longrightarrow> \<exists>j. Node_PublishMessage J clock ts node p = (Inr j, p)"
  by (simp add: Node_PublishMessage_def)

lemma SliceAway_iterations:
  assumes "SliceAway x ts = Inr (blk, rest)" and "uint (fst (range ts)) + uint x < 2 ^ 64"
  shows "iterations blk @ iterations rest = iterations ts" and "unat (fst (range rest)) \<le> unat (snd (range rest))"
    and "snd (range rest) = snd (range ts)"
    and "blk\<lparr>range := range ts\<rparr> = ts" and "rest\<lparr>range := range ts\<rparr> = ts" and "iterations blk \<noteq> []"
proof -
  note b = SliceAway_bounds [OF assms]
  show "iterations blk @ iterations rest = iterations ts"
    using upt_add_eq_append [of "unat (fst (range ts))" "unat (fst (range ts)) + unat x"
        "Suc (unat (snd (range ts))) - (unat (fst (range ts)) + unat x)"] b(5)
    by (simp only: iterations_def b(1-4)) simp
  show "unat (fst (range rest)) \<le> unat (snd (range rest))" using b by simp
  show "iterations blk \<noteq> []" using b(1,2,6) by (simp add: iterations_def del: upt_Suc)
qed (use SliceAway_ranges [OF assms(1)] in simp_all)

text \<open>
  The loop, from any state in which it runs through: the slices are consecutive, one per node,
  and differ from the task only in their ranges.
\<close>

lemma send_loop_partition:
  assumes "send_loop J clock n sums cnt nodes ts p = (Inr u, p')" and "IsConnected p"
    and "uint (snd (range ts)) < 2 ^ 63" and "unat (fst (range ts)) \<le> unat (snd (range ts))"
    and "\<And>h v x. (h, v) \<in> set nodes \<Longrightarrow> node_share n sums cnt (node_speed v) = Inr x \<Longrightarrow> uint x < 2 ^ 63"
  shows "\<exists>slices. length slices = length nodes \<and> concat (map iterations slices) = iterations ts \<and>
    (\<forall>sl\<in>set slices. iterations sl \<noteq> [] \<and> sl\<lparr>range := range ts\<rparr> = ts) \<and>
    p' = p\<lparr>published := published p @
      dispatch_log J clock (default_exchange p) (length (published p)) (map fst nodes) slices\<rparr>"
  using assms
proof (induction J clock n sums cnt nodes ts arbitrary: p rule: send_loop.induct)
  case (1 J clock n sums cnt ts)
  then show ?case by simp
next
  case (2 J clock n sums cnt key val ts)
  then obtain j where "Node_PublishMessage J clock ts key p = (Inr j, p')"
    by (auto simp: sbind_eq_Inr)
  note pub = Node_PublishMessage_connected [OF this 2(2)]
  have "iterations ts \<noteq> []" using 2(4) by (simp add: iterations_def)
  with pub show ?case
    by (intro exI [of _ "[ts]"]) (simp add: dispatch_log_Cons)
next
  case (3 J clock n sums cnt key val node nodes ts)
  from 3(2) obtain x ts_t ts' j p1 where x: "node_share n sums cnt (node_speed val) = Inr x"
      and sl: "SliceAway x ts = Inr (ts_t, ts')"
      and pm: "Node_PublishMessage J clock ts_t key p = (Inr j, p1)"
      and rec: "send_loop J clock n sums cnt (node # nodes) ts' p1 = (Inr u, p')"
    by (auto simp: sbind_eq_Inr)
  note p1 = Node_PublishMessage_connected [OF pm 3(3)]
  have "uint x < 2 ^ 63" using 3(6) [of key val x] x by simp
  moreover have "uint (fst (range ts)) < 2 ^ 63"
    using 3(4,5) by (simp add: word_le_nat_alt [symmetric] word_le_def)
  ultimately have "uint (fst (range ts)) + uint x < 2 ^ 64" by simp
  note it = SliceAway_iterations [OF sl this]
  have con: "IsConnected p1" using 3(3) by (simp add: p1 IsConnected_def)
  have "uint (snd (range ts')) < 2 ^ 63" using 3(4) by (simp add: it(3))
  from 3(1) [OF rec con this it(2)] 3(6)
  obtain slices where s: "length slices = length (node # nodes)" "concat (map iterations slices) = iterations ts'"
      "\<forall>sl\<in>set slices. iterations sl \<noteq> [] \<and> sl\<lparr>range := range ts'\<rparr> = ts'"
      "p' = p1\<lparr>published := published p1 @
        dispatch_log J clock (default_exchange p1) (length (published p1)) (map fst (node # nodes)) slices\<rparr>"
    by auto
  have "s'\<lparr>range := range ts\<rparr> = ts" if "s'\<lparr>range := range ts'\<rparr> = ts'" for s'
  proof -
    have "s'\<lparr>range := range ts\<rparr> = s'\<lparr>range := range ts'\<rparr>\<lparr>range := range ts\<rparr>" by simp
    then show ?thesis by (simp only: that it(5))
  qed
  then have all: "\<forall>s'\<in>set (ts_t # slices). iterations s' \<noteq> [] \<and> s'\<lparr>range := range ts\<rparr> = ts"
    using s(3) it(4,6) by simp
  have "p' = p\<lparr>published := published p @ dispatch_log J clock (default_exchange p) (length (published p))
      (map fst ((key, val) # node # nodes)) (ts_t # slices)\<rparr>"
    by (simp add: s(4) p1 dispatch_log_Cons)
  moreover have "concat (map iterations (ts_t # slices)) = iterations ts"
    using s(2) it(1) by simp
  moreover have "length (ts_t # slices) = length ((key, val) # node # nodes)" using s(1) by simp
  ultimately show ?case using all by blast
qed

lemma node_share_Inr:
  assumes "node_share n sums cnt spd = Inr x"
  shows "length spd = length sums" and "NIndex n < length sums"
    and "x = spd ! NIndex n * cnt div sums ! NIndex n"
  using assms by (auto simp: node_share_def va_div_def va_zip_def rbind_eq_Inr split: if_splits)

lemma node_share_bound:
  assumes "node_share n sums cnt spd = Inr x" and "2 \<le> uint (sums ! NIndex n)"
  shows "uint x < 2 ^ 63"
proof -
  let ?a = "uint (spd ! NIndex n * cnt)" and ?b = "uint (sums ! NIndex n)"
  have "uint x = ?a div ?b" by (simp add: node_share_Inr(3) [OF assms(1)] uint_div)
  also have "\<dots> \<le> ?a div 2" using assms(2) by (intro zdiv_mono2) simp_all
  also have "?a < 2 ^ 64" using uint_bounded [of "spd ! NIndex n * cnt"] by simp
  then have "?a div 2 < 2 ^ 63" by simp
  finally show ?thesis .
qed

text \<open>When the shares are exact and leave something for the last node, the loop runs through.\<close>

definition share_nat :: "nat \<Rightarrow> nat \<Rightarrow> nat \<Rightarrow> ComputationalNode \<Rightarrow> nat" where
  "share_nat k c S v = unat (node_speed v ! k) * c div S"

lemma node_share_exact:
  assumes "0 \<notin> set sums" and "length (node_speed v) = length sums" and "NIndex n < length sums"
    and "unat (node_speed v ! NIndex n) * unat cnt < 2 ^ 64"
  shows "\<exists>x. node_share n sums cnt (node_speed v) = Inr x \<and>
    unat x = share_nat (NIndex n) (unat cnt) (unat (sums ! NIndex n)) v"
proof -
  have "node_share n sums cnt (node_speed v) = Inr (node_speed v ! NIndex n * cnt div sums ! NIndex n)"
    using assms(1-3) by (simp add: node_share_def va_div_def va_zip_def)
  moreover have "unat (node_speed v ! NIndex n * cnt) = unat (node_speed v ! NIndex n) * unat cnt"
    using assms(4) by (simp add: unat_word_ariths(2))
  ultimately show ?thesis by (simp add: unat_div share_nat_def)
qed

lemma SliceAway_ok:
  assumes "0 < unat x" and "unat (fst (range ts)) + unat x \<le> unat (snd (range ts))"
  shows "\<exists>blk rst. SliceAway x ts = Inr (blk, rst) \<and> snd (range rst) = snd (range ts) \<and>
    unat (fst (range rst)) = unat (fst (range ts)) + unat x"
proof -
  have "unat (snd (range ts)) < 2 ^ LENGTH(64)" by (rule unsigned_less)
  with assms(2) have lt: "unat (fst (range ts)) + unat x < 2 ^ 64" by simp
  then have sum: "unat (fst (range ts) + x) = unat (fst (range ts)) + unat x"
    by (simp add: unat_word_ariths(1))
  have "x \<noteq> 0" using assms(1) by auto
  moreover have "\<not> fst (range ts) + x > snd (range ts)"
    using assms(2) by (simp add: word_less_nat_alt sum)
  ultimately show ?thesis by (simp add: SliceAway_def sum)
qed

lemma Node_PublishMessage_ok:
  assumes "IsConnected p" and "has_channel p"
  shows "\<exists>j p'. Node_PublishMessage J clock ts node p = (Inr j, p') \<and> IsConnected p' \<and> has_channel p'"
  using assms by (simp add: Node_PublishMessage_def Publish_def IsConnected_def)

lemma send_loop_succeeds:
  assumes "nodes \<noteq> []" and "IsConnected p" and "has_channel p" and "0 \<notin> set sums" and "NIndex n < length sums"
    and "\<forall>(h, v)\<in>set nodes. length (node_speed v) = length sums \<and>
      unat (node_speed v ! NIndex n) * unat cnt < 2 ^ 64 \<and>
      0 < share_nat (NIndex n) (unat cnt) (unat (sums ! NIndex n)) v"
    and "unat (fst (range ts)) + sum_list (map (share_nat (NIndex n) (unat cnt) (unat (sums ! NIndex n)) \<circ> snd)
      (butlast nodes)) \<le> unat (snd (range ts))"
  shows "\<exists>p'. send_loop J clock n sums cnt nodes ts p = (Inr (), p')"
  using assms
proof (induction J clock n sums cnt nodes ts arbitrary: p rule: send_loop.induct)
  case (1 J clock n sums cnt ts)
  then show ?case by simp
next
  case (2 J clock n sums cnt key val ts)
  from Node_PublishMessage_ok [OF 2(2,3), of J clock ts key] show ?case
    by (auto simp: sbind_apply)
next
  case (3 J clock n sums cnt key val node nodes ts)
  let ?sh = "share_nat (NIndex n) (unat cnt) (unat (sums ! NIndex n))"
  from 3(7) node_share_exact [OF 3(5) _ 3(6), of val cnt] obtain x
    where x: "node_share n sums cnt (node_speed val) = Inr x" "unat x = ?sh val" "0 < ?sh val" by auto
  from 3(8) x(2,3) SliceAway_ok [of x ts] obtain blk rst
    where sl: "SliceAway x ts = Inr (blk, rst)" "snd (range rst) = snd (range ts)"
      "unat (fst (range rst)) = unat (fst (range ts)) + unat x" by auto
  from Node_PublishMessage_ok [OF 3(3,4), of J clock blk key] obtain j p1
    where pm: "Node_PublishMessage J clock blk key p = (Inr j, p1)" "IsConnected p1" "has_channel p1" by blast
  have "sum_list (map (?sh \<circ> snd) (butlast ((key, val) # node # nodes))) =
      ?sh val + sum_list (map (?sh \<circ> snd) (butlast (node # nodes)))" by simp
  then have "unat (fst (range rst)) + sum_list (map (?sh \<circ> snd) (butlast (node # nodes))) \<le> unat (snd (range rst))"
    using 3(8) by (simp only: sl(2,3) x(2) add.assoc)
  with 3(1) [of p1 rst] 3(5-7) pm obtain p' where "send_loop J clock n sums cnt (node # nodes) rst p1 = (Inr (), p')"
    by fastforce
  with x(1) sl(1) pm(1) show ?case by (simp add: sbind_apply)
qed

section \<open>The node's invariant\<close>

text \<open>
  Between two handlers the publisher is in a reachable idle state of its life cycle and the
  registry satisfies its invariant.
\<close>

definition publisher_inv :: "'m publisher \<Rightarrow> bool" where
  "publisher_inv p \<longleftrightarrow> idle_reachable pub_Reconnect pub_ServiceName new_publisher p"

definition node_inv :: "MainNodeService \<Rightarrow> bool" where
  "node_inv s \<longleftrightarrow> registry_inv (workers s) \<and> publisher_inv (publisher_service s)"

lemma publisher_inv_connected:
  assumes "publisher_inv p"
  shows "IsConnected p \<Longrightarrow> has_channel p \<and> joinable p \<and> work p"
  using pub.idle_connected [OF _ new_publisher_inv] assms by (auto simp: publisher_inv_def)

lemma publisher_inv_configure:
  assumes "publisher_inv p"
  shows "publisher_inv (p\<lparr>published := l, default_exchange := x\<rparr>)"
proof -
  have "p\<lparr>published := l, default_exchange := x\<rparr> =
      service.more_update (\<lambda>_. \<lparr>default_exchange = x, published = l\<rparr>) p"
    by (cases p) simp
  with assms idle_reachable_more show ?thesis by (simp add: publisher_inv_def)
qed

lemma publisher_inv_SetParameters:
  assumes "publisher_inv p"
  shows "publisher_inv (pub_SetParameters c x p)"
proof -
  have "publisher_inv (p\<lparr>c_string := c\<rparr>)"
    using assms idle_reachable_c_string by (simp add: publisher_inv_def)
  from publisher_inv_configure [OF this, where l = "published p" and x = x]
  show ?thesis by (simp add: pub_SetParameters_def)
qed

lemma publisher_inv_published:
  assumes "publisher_inv p"
  shows "publisher_inv (p\<lparr>published := l\<rparr>)"
  using publisher_inv_configure [OF assms, where l = l and x = "default_exchange p"] by simp

lemma Publisher_Connect_run:
  assumes "publisher_inv p" and "Publisher_Connect env p = (r, p')" and "\<And>x. r \<noteq> Inl (UB x)"
  shows "publisher_inv p' \<and> (r = Inr () \<longrightarrow> IsConnected p')"
  using pub.Connect_run [OF _ assms(2,3)] assms(1) by (simp add: publisher_inv_def)

lemma Publisher_Disconnect_run:
  assumes "publisher_inv p"
  shows "publisher_inv (Service_Disconnect p) \<and> \<not> IsConnected (Service_Disconnect p)"
  using pub.Disconnect_run [OF _ new_publisher_inv] assms by (simp add: publisher_inv_def)

lemma Node_PublishMessage_inv:
  assumes "publisher_inv p"
  shows "publisher_inv (snd (Node_PublishMessage J clock ts node p))"
  using assms publisher_inv_published [OF assms]
  by (auto simp: Node_PublishMessage_def Publish_def split: sum.splits)

lemma send_loop_inv:
  "publisher_inv p \<Longrightarrow> publisher_inv (snd (send_loop J clock n sums cnt nodes ts p))"
proof (induction J clock n sums cnt nodes ts arbitrary: p rule: send_loop.induct)
  case (2 J clock n sums cnt key val ts)
  from Node_PublishMessage_inv [OF this, of J clock ts key] show ?case
    by (auto simp: sbind_apply split: prod.splits sum.splits)
next
  case (3 J clock n sums cnt key val node nodes ts)
  from Node_PublishMessage_inv [OF 3(2)] have "publisher_inv p1"
    if "Node_PublishMessage J clock blk key p = (r, p1)" for blk r p1 using that by (metis snd_conv)
  with 3 show ?case
    by (auto simp: sbind_apply split: prod.splits sum.splits)
qed simp

text \<open>Actions that leave the node's own state alone.\<close>

definition keeps_node :: "('w, 'a) handler \<Rightarrow> bool" where
  "keeps_node act \<longleftrightarrow> (\<forall>w s. snd (snd (act (w, s))) = s)"

lemma keeps_nodeI [intro]:
  "keeps_node (on_rest a)" "keeps_node (sret x)" "keeps_node (slift r)"
  by (auto simp: keeps_node_def on_rest_def split: prod.splits)

lemma keeps_node_sbind [intro]:
  "keeps_node m \<Longrightarrow> (\<And>x. keeps_node (f x)) \<Longrightarrow> keeps_node (sbind m f)"
  unfolding keeps_node_def
  by (auto simp: sbind_apply split: prod.splits sum.splits) (metis prod.collapse snd_conv)+

lemma keeps_node_scatch [intro]:
  "keeps_node m \<Longrightarrow> (\<And>e. keeps_node (h e)) \<Longrightarrow> keeps_node (scatch m h)"
  unfolding keeps_node_def
  by (auto simp: scatch_def split: prod.splits sum.splits) (metis prod.collapse snd_conv)+

lemma keeps_node_if [intro]: "keeps_node a \<Longrightarrow> keeps_node b \<Longrightarrow> keeps_node (if c then a else b)"
  by simp

lemma keeps_node_catch_http [intro]: "keeps_node m \<Longrightarrow> keeps_node (catch_http m h)"
  unfolding catch_http_def
  by (intro keeps_node_scatch keeps_node_sbind keeps_nodeI) (auto split: fault.split my_exception.split)

lemma keeps_node_catch_http_curl [intro]: "keeps_node m \<Longrightarrow> keeps_node (catch_http_curl J m h c)"
  unfolding catch_http_curl_def
  by (intro keeps_node_scatch keeps_node_sbind keeps_nodeI) (auto split: fault.split my_exception.split)

lemma keeps_node_run: "keeps_node m \<Longrightarrow> m (w, s) = (r, (w', s')) \<Longrightarrow> s' = s"
  by (metis keeps_node_def snd_conv)

lemma AddNewNode_known:
  assumes "jsoncpp_laws J" and "AddNewNode J h w = (j, w')" and "\<not> j_isMember J j ''status''"
  shows "has_node INACTIVE h w'"
  using assms(2,3) jsoncpp_laws.member_set [OF assms(1)] jsoncpp_laws.type_null [OF assms(1)]
    jsoncpp_laws.type_set [OF assms(1)]
  by (auto simp: AddNewNode_def Let_def j_sets_def has_node_def split: if_splits)

lemma node_inv_SendToExecution:
  assumes "node_inv s"
  shows "node_inv (snd (SendToExecution J clock ts s))"
  using assms send_loop_inv [of "publisher_service s" J clock "ts_N ts" "GetSum (workers s)" "RangeSize ts"
      "active_nodes (workers s)" ts]
  by (auto simp: SendToExecution_def node_inv_def split: prod.splits sum.splits)

lemma node_inv_Disconnect: "node_inv s \<Longrightarrow> node_inv (snd (Node_Disconnect J s))"
  using Publisher_Disconnect_run [of "publisher_service s"]
  by (auto simp: Node_Disconnect_def node_inv_def)

lemma node_inv_DisconnectNode:
  assumes "node_inv s" and "Node_DisconnectNode J http h (w, s) = (Inr j, (w', s'))"
  shows "node_inv s'"
proof (cases "IsConnected (publisher_service s)")
  case True
  with assms(2) obtain js ws where "Worker_DisconnectNode J (\<lambda>url. http url ''/v1/Disconnect'' None) h (workers s) = (Inr js, ws)"
      and "s' = s\<lparr>workers := ws\<rparr>"
    by (auto simp: Node_DisconnectNode_def sbind_eq_Inr on_workers_def split: prod.splits)
  with assms(1) registry_inv_DisconnectNode show ?thesis by (auto simp: node_inv_def)
qed (use assms in \<open>simp add: Node_DisconnectNode_def\<close>)

lemma node_inv_ConnectNode:
  assumes J: "jsoncpp_laws J" and inv: "node_inv s"
    and run: "Node_ConnectNode J C http h name (w, s) = (Inr j, (w', s'))"
  shows "node_inv s'"
proof (cases "IsConnected (publisher_service s)")
  case True
  obtain js1 ws where add: "AddNewNode J h (workers s) = (js1, ws)" by fastforce
  let ?s1 = "s\<lparr>workers := ws\<rparr>"
  have inv1: "registry_inv ws" "publisher_inv (publisher_service s)"
    using registry_inv_AddNewNode [of "workers s" J h] inv add by (simp_all add: node_inv_def)
  then have ninv1: "node_inv ?s1" by (simp add: node_inv_def)
  show ?thesis
  proof (cases "j_isMember J js1 ''status''")
    case True
    with run \<open>IsConnected (publisher_service s)\<close> add ninv1 show ?thesis
      by (auto simp: Node_ConnectNode_def)
  next
    case False
    have known: "has_node INACTIVE h ws" by (rule AddNewNode_known [OF J add False])
    let ?body = "sbind (on_rest (\<lambda>r. ListQueues J C r vhost)) (\<lambda>ls. if name \<notin> set ls
        then sbind (on_rest (\<lambda>r. CreateQueue J C r vhost (make_queue name (fst (Retrive (auth ?s1)))) (j_null J)))
          (\<lambda>_. sbind (on_rest (\<lambda>r. BindQueueToExchange J C r vhost name
                            (default_exchange (publisher_service ?s1)) name)) (\<lambda>_. sret ()))
        else sret ())"
    let ?m = "catch_http ?body (\<lambda>code reason. answer J ''connect_node'' (http_error_fields J code reason))"
    have keep: "keeps_node ?m" by blast
    obtain r1 w1 s2 where m: "?m (w, ?s1) = (r1, (w1, s2))" by (metis prod.collapse)
    have s2: "s2 = ?s1" by (rule keeps_node_run [OF keep m])
    from run \<open>IsConnected (publisher_service s)\<close> add False m s2
    consider "s' = ?s1" | req js2 ws2 where "Worker_ConnectNode J req h ws = (Inr js2, ws2)" "s' = s\<lparr>workers := ws2\<rparr>"
      by (auto simp: Node_ConnectNode_def sbind_apply on_workers_def Let_def split: sum.splits option.splits prod.splits)
    then show ?thesis
    proof cases
      case 1
      with ninv1 show ?thesis by simp
    next
      case 2
      with registry_inv_ConnectNode [OF inv1(1) known] inv1(2) show ?thesis by (auto simp: node_inv_def)
    qed
  qed
qed (use assms in \<open>simp add: Node_ConnectNode_def\<close>)

lemma keeps_node_ensure_exchange: "keeps_node (ensure_exchange J C exch user)"
  unfolding ensure_exchange_def by blast

lemma node_inv_settings: "node_inv s \<Longrightarrow> node_inv (connect_settings qip s)"
  using publisher_inv_SetParameters [of "publisher_service s"]
  by (simp add: node_inv_def connect_settings_def Let_def)

lemma node_inv_start:
  assumes "node_inv s" and "start_publisher J env (w, s) = (Inr j, (w', s'))"
  shows "node_inv s'"
proof -
  obtain r p where pc: "Publisher_Connect env (publisher_service s) = (r, p)" by fastforce
  from assms(2) pc have s': "s' = s\<lparr>publisher_service := p\<rparr>" and r: "r \<noteq> Inl (UB x)" for x
    by (auto simp: start_publisher_def split: sum.splits fault.splits std_exception.splits)
  from Publisher_Connect_run [OF _ pc r] assms(1) show ?thesis by (simp add: s' node_inv_def)
qed

lemma node_inv_Connect:
  assumes inv: "node_inv s" and run: "Node_Connect J C env qip (w, s) = (Inr j, (w', s'))"
  shows "node_inv s'"
proof (cases "IsConnected (publisher_service s)")
  case False
  let ?s1 = "connect_settings qip s"
  let ?m = "ensure_exchange J C (default_exchange (publisher_service ?s1)) (fst (Retrive (auth s)))"
  obtain r1 w1 s2 where m: "?m (w, ?s1) = (r1, (w1, s2))" by (metis prod.collapse)
  have s2: "s2 = ?s1" by (rule keeps_node_run [OF keeps_node_ensure_exchange m])
  from run False m s2
  consider "s' = ?s1" | "start_publisher J env (w1, ?s1) = (Inr j, (w', s'))"
    by (auto simp: Node_Connect_def sbind_apply Let_def split: sum.splits option.splits)
  then show ?thesis
    using node_inv_settings [OF inv, of qip] node_inv_start by cases blast+
qed (use assms in \<open>simp add: Node_Connect_def\<close>)

lemma node_inv_new: "node_inv (new_MainNodeService u p)"
  by (simp add: node_inv_def new_MainNodeService_def registry_inv_new publisher_inv_def idle_reachable_def reach_init)
    (simp add: new_publisher_def new_service_def service.extend_def)

lemma task_partition_lemma:
  assumes "SendToExecution J clock ts s = (Inr j, s')" and "active_nodes (workers s) \<noteq> []"
    and "IsConnected (publisher_service s)"
    and "uint (snd (range ts)) < 2 ^ 63" and "unat (fst (range ts)) \<le> unat (snd (range ts))"
    and "2 \<le> uint (GetSum (workers s) ! NIndex (ts_N ts))"
  shows "\<exists>slices. length slices = length (active_nodes (workers s)) \<and>
    concat (map iterations slices) = iterations ts \<and>
    (\<forall>sl\<in>set slices. iterations sl \<noteq> [] \<and> sl\<lparr>range := range ts\<rparr> = ts) \<and>
    s' = s\<lparr>publisher_service := (publisher_service s)\<lparr>published := published (publisher_service s) @
      dispatch_log J clock (default_exchange (publisher_service s)) (length (published (publisher_service s)))
        (map fst (active_nodes (workers s))) slices\<rparr>\<rparr>"
proof -
  from assms(1,2) obtain u p'
    where run: "send_loop J clock (ts_N ts) (GetSum (workers s)) (RangeSize ts) (active_nodes (workers s)) ts
        (publisher_service s) = (Inr u, p')"
      and s': "s' = s\<lparr>publisher_service := p'\<rparr>"
    by (auto simp: SendToExecution_def split: prod.splits sum.splits)
  from send_loop_partition [OF run assms(3-5)] node_share_bound [OF _ assms(6)] show ?thesis
    unfolding s' by fastforce
qed

section \<open>Properties\<close>

text \<open>C2: when \<open>SendToExecution\<close> answers, every active node has been sent exactly one message,
in iteration order; the ranges in the messages are non-empty and, read one after the other, are
exactly the iterations of the task; nothing else of the task and of the node changes.  (The
sum of the speeds must be at least 2 and the range end below \<open>2 ^ 63\<close>, which excludes
wrap-around of the slice bounds.)\<close>

theorem task_partition:
  assumes "SendToExecution J clock ts s = (Inr j, s')" and "active_nodes (workers s) \<noteq> []"
    and "IsConnected (publisher_service s)"
    and "uint (snd (range ts)) < 2 ^ 63" and "unat (fst (range ts)) \<le> unat (snd (range ts))"
    and "2 \<le> uint (GetSum (workers s) ! NIndex (ts_N ts))"
  shows "\<exists>slices. length slices = length (active_nodes (workers s)) \<and>
    concat (map iterations slices) = iterations ts \<and>
    (\<forall>sl\<in>set slices. iterations sl \<noteq> [] \<and> sl\<lparr>range := range ts\<rparr> = ts) \<and>
    s' = s\<lparr>publisher_service := (publisher_service s)\<lparr>published := published (publisher_service s) @
      dispatch_log J clock (default_exchange (publisher_service s)) (length (published (publisher_service s)))
        (map fst (active_nodes (workers s))) slices\<rparr>\<rparr>"
  by (rule task_partition_lemma [OF assms])

definition sample_pool_node :: "string \<Rightarrow> u64 \<Rightarrow> ComputationalNode" where
  "sample_pool_node h v = \<lparr>http_client = Some (''http://'' @ h), st = INACTIVE, bench_result = [],
     node_speed = replicate 13 v\<rparr>"

definition sample_main :: MainNodeService where
  "sample_main = (new_MainNodeService ''u'' ''p'')\<lparr>
     publisher_service := new_publisher\<lparr>handler_connected := True, has_channel := True,
       default_exchange := ''testexch''\<rparr>,
     workers := \<lparr>worker_nodes = [(ACTIVE, [(''a'', sample_pool_node ''a'' 1), (''b'', sample_pool_node ''b'' 3)])],
       normalized = replicate 13 4\<rparr>\<rparr>"

lemmas sample_main_defs = sample_main_def sample_pool_node_def new_MainNodeService_def new_publisher_def
  new_service_def service.extend_def active_nodes_def status_map_def GetSum_def IsConnected_def

lemma NIndex_10: "NIndex 10 = 5"
  by (simp add: NIndex_def ns_def)

lemma sample_main_inv: "registry_inv (workers sample_main)"
  by (simp add: registry_inv_def sample_main_defs has_node_def clients_ok_def speed_total_def)

lemma task_dispatched_lemma:
  assumes inv: "registry_inv (workers s)" and act: "active_nodes (workers s) \<noteq> []"
    and con: "IsConnected (publisher_service s)" "has_channel (publisher_service s)"
    and nz: "0 \<notin> set (GetSum (workers s))" and k: "NIndex (ts_N ts) < length (GetSum (workers s))"
    and sum: "sum_list (map (\<lambda>(h, v). unat (node_speed v ! NIndex (ts_N ts))) (active_nodes (workers s))) < 2 ^ 64"
    and shares: "\<forall>(h, v)\<in>set (active_nodes (workers s)).
      unat (node_speed v ! NIndex (ts_N ts)) * unat (RangeSize ts) < 2 ^ 64 \<and>
      0 < share_nat (NIndex (ts_N ts)) (unat (RangeSize ts)) (unat (GetSum (workers s) ! NIndex (ts_N ts))) v"
    and range: "unat (RangeSize ts) = Suc (unat (snd (range ts))) - unat (fst (range ts))"
      "unat (fst (range ts)) \<le> unat (snd (range ts))"
  shows "fst (SendToExecution J clock ts s) = Inr (answer J ''send_task'' [code_field J 200])"
proof -
  let ?k = "NIndex (ts_N ts)" and ?nodes = "active_nodes (workers s)" and ?c = "unat (RangeSize ts)"
  let ?S = "unat (GetSum (workers s) ! ?k)"
  let ?as = "map (\<lambda>(h, v). unat (node_speed v ! ?k)) (butlast ?nodes)"
  let ?a = "unat (node_speed (snd (last ?nodes)) ! ?k)"
  have split: "?nodes = butlast ?nodes @ [last ?nodes]" using act by simp
  have "?S = sum_list (map (\<lambda>(h, v). unat (node_speed v ! ?k)) ?nodes)"
    by (rule registry.total_of_members [OF inv k sum])
  also have "\<dots> = sum_list ?as + ?a"
    by (subst split) (simp add: case_prod_unfold)
  finally have S: "?S = sum_list ?as + ?a" .
  have last: "0 < share_nat ?k ?c ?S (snd (last ?nodes))"
    using shares last_in_set [OF act] by (auto simp: case_prod_unfold)
  then have pos: "0 < ?a" "0 < ?c" by (auto simp: share_nat_def intro!: gr0I)
  have "sum_list (map (\<lambda>a. a * ?c div ?S) ?as) < ?c"
    by (rule registry.shares_before_last [OF S pos])
  moreover have "map (\<lambda>a. a * ?c div ?S) ?as = map (share_nat ?k ?c ?S \<circ> snd) (butlast ?nodes)"
    by (simp add: share_nat_def case_prod_unfold comp_def)
  ultimately have "sum_list (map (share_nat ?k ?c ?S \<circ> snd) (butlast ?nodes)) < ?c" by (simp only:)
  then have room: "unat (fst (range ts)) + sum_list (map (share_nat ?k ?c ?S \<circ> snd) (butlast ?nodes))
      \<le> unat (snd (range ts))"
    using range by linarith
  have "\<forall>(h, v)\<in>set ?nodes. length (node_speed v) = length (GetSum (workers s)) \<and>
      unat (node_speed v ! ?k) * ?c < 2 ^ 64 \<and> 0 < share_nat ?k ?c ?S v"
    using shares registry.speed_length [OF inv] by blast
  from send_loop_succeeds [OF act con nz k this room, of J clock] obtain p'
    where "send_loop J clock (ts_N ts) (GetSum (workers s)) (RangeSize ts) ?nodes ts (publisher_service s) = (Inr (), p')"
    by blast
  with act show ?thesis by (simp add: SendToExecution_def)
qed



theorem task_partition_witness:
  "\<exists>slices :: unit TestSolveParam list. length slices = 2 \<and> concat (map iterations slices) = iterations sample_task \<and>
    map (fst \<circ> snd) (published (publisher_service (snd (SendToExecution (json_model :: (unit json, unit) jsoncpp)
      (\<lambda>_. (0, 0)) sample_task sample_main)))) = [''a'', ''b'']"
proof -
  let ?r = "SendToExecution (json_model :: (unit json, unit) jsoncpp) (\<lambda>_. (0, 0)) sample_task sample_main"
  have r: "?r = (Inr (answer json_model ''send_task'' [code_field json_model 200]), snd ?r)"
    using task_dispatched_lemma [OF sample_main_inv, of sample_task json_model "\<lambda>_. (0, 0)"]
    by (intro prod_eqI)
      (simp_all add: sample_main_defs NIndex_10 sample_task_def RangeSize_def share_nat_def)
  have act: "map fst (active_nodes (workers sample_main)) = [''a'', ''b'']" by (simp add: sample_main_defs)
  then have len: "length (active_nodes (workers sample_main)) = 2"
    by (metis length_map length_Cons list.size(3) numeral_2_eq_2)
  have h: "active_nodes (workers sample_main) \<noteq> []" "IsConnected (publisher_service sample_main)"
    "uint (snd (range sample_task)) < 2 ^ 63" "unat (fst (range sample_task)) \<le> unat (snd (range sample_task))"
    "2 \<le> uint (GetSum (workers sample_main) ! NIndex (ts_N sample_task))"
    by (simp_all add: sample_main_defs NIndex_10 sample_task_def)
  have pub: "published (publisher_service sample_main) = []" by (simp add: sample_main_defs)
  from task_partition [OF r h] obtain slices :: "unit TestSolveParam list"
    where s: "length slices = 2" "concat (map iterations slices) = iterations sample_task"
      and e: "snd ?r = sample_main\<lparr>publisher_service := (publisher_service sample_main)\<lparr>published :=
        published (publisher_service sample_main) @ dispatch_log json_model (\<lambda>_. (0, 0))
          (default_exchange (publisher_service sample_main)) (length (published (publisher_service sample_main)))
          (map fst (active_nodes (workers sample_main))) slices\<rparr>\<rparr>"
    unfolding len by (elim exE conjE) (rule that, assumption+)
  have p: "published (publisher_service (snd ?r)) = dispatch_log json_model (\<lambda>_. (0, 0))
      (default_exchange (publisher_service sample_main)) 0 [''a'', ''b''] slices"
    unfolding e act pub by simp
  have "map (fst \<circ> snd) (published (publisher_service (snd ?r))) = [''a'', ''b'']"
    unfolding p by (rule dispatch_log_hosts) (simp add: s(1))
  with s(1,2) show ?thesis by (intro exI [of _ slices] conjI)
qed

text \<open>C3: a new main node satisfies, and every handler that answers keeps, the node's invariant:
the registry's invariant, and a publisher in a reachable idle state of its life cycle (so a
connected publisher always has its channel).\<close>

theorem node_invariant:
  assumes "jsoncpp_laws J"
  shows "node_inv (new_MainNodeService user password) \<and>
    (node_inv s \<longrightarrow>
      (Node_ConnectNode J C http h name (w, s) = (Inr j, (w', s')) \<longrightarrow> node_inv s') \<and>
      (Node_DisconnectNode J http h (w, s) = (Inr j, (w', s')) \<longrightarrow> node_inv s') \<and>
      (Node_Connect J C env qip (w, s) = (Inr j, (w', s')) \<longrightarrow> node_inv s') \<and>
      node_inv (snd (Node_Disconnect J s)) \<and> node_inv (snd (SendToExecution J clock ts s)))"
  by (intro conjI impI)
    (rule node_inv_new, erule (1) node_inv_ConnectNode [OF assms], erule (1) node_inv_DisconnectNode,
     erule (1) node_inv_Connect, erule node_inv_Disconnect, erule node_inv_SendToExecution)

theorem node_invariant_witness:
  "node_inv (snd (Node_Disconnect (json_model :: (unit json, unit) jsoncpp) (new_MainNodeService ''u'' ''p'')))"
  by (rule node_invariant [where J = "json_model :: (unit json, unit) jsoncpp", OF json_model_laws,
        THEN conjunct2, THEN mp, OF node_inv_new, THEN conjunct2, THEN conjunct2, THEN conjunct2,
        THEN conjunct1])

text \<open>While the publisher is not connected, connecting or disconnecting a worker and
disconnecting the publisher are refused with 409 and change nothing; sending a task to a
single worker, however, is answered with 200 although nothing is published.\<close>

theorem disconnected_guards:
  assumes "\<not> IsConnected (publisher_service s)"
  shows "Node_ConnectNode J C http h name (w, s) =
      (Inr (answer J ''connect_node'' [code_field J 409, message_field J queue_unavailable]), (w, s)) \<and>
    Node_DisconnectNode J http h (w, s) =
      (Inr (answer J ''disconnect_node'' [code_field J 409, message_field J queue_unavailable]), (w, s)) \<and>
    Node_Disconnect J s =
      (answer J ''disconnect_publisher'' [code_field J 409, message_field J queue_unavailable], s) \<and>
    (active_nodes (workers s) = [(host, node)] \<longrightarrow>
      SendToExecution J clock ts s = (Inr (answer J ''send_task'' [code_field J 200]), s))"
  using assms
  by (simp add: Node_ConnectNode_def Node_DisconnectNode_def Node_Disconnect_def SendToExecution_def
      sbind_apply Node_PublishMessage_def)

theorem disconnected_guards_witness:
  "snd (Node_Disconnect (json_model :: (unit json, unit) jsoncpp) (new_MainNodeService ''u'' ''p''))
    = new_MainNodeService ''u'' ''p''"
proof -
  have "\<not> IsConnected (publisher_service (new_MainNodeService ''u'' ''p''))" by (simp add: sample_main_defs)
  from disconnected_guards [OF this, where J = "json_model :: (unit json, unit) jsoncpp" and C = sample_curl,
      THEN conjunct2, THEN conjunct2, THEN conjunct1]
  show ?thesis by simp
qed

end
