(* ===== verification/Matrices.thy ===== *)
theory Matrices
  imports Valarray Complex_Main
begin

text \<open>
  Eigen's dense matrices and vectors as the program uses them, the shape and element accessors
  of \<open>myConcepts.h\<close>, the casts of \<open>typeCasts.h\<close> and \<open>IsSymmetric\<close> of
  \<open>dipolesCommon.cpp\<close>.  A matrix is the list of its rows, a vector or any one-dimensional
  container a list; doubles are real numbers.  An \<open>Eigen::Map\<close> is given by the elements it
  shows; Eigen stores matrices column by column.
\<close>

section \<open>Matrices\<close>

type_synonym matrix = "real list list"

definition mk_mat :: "nat \<Rightarrow> nat \<Rightarrow> (nat \<Rightarrow> nat \<Rightarrow> 'a) \<Rightarrow> 'a list list" where
  "mk_mat r c f = map (\<lambda>i. map (f i) [0..<c]) [0..<r]"

definition ent :: "'a list list \<Rightarrow> nat \<Rightarrow> nat \<Rightarrow> 'a" where
  "ent A i j = A ! i ! j"

definition set_ent :: "nat \<Rightarrow> nat \<Rightarrow> 'a \<Rightarrow> 'a list list \<Rightarrow> 'a list list" where
  "set_ent i j v A = A[i := (A ! i)[j := v]]"

definition is_mat :: "nat \<Rightarrow> nat \<Rightarrow> 'a list list \<Rightarrow> bool" where
  "is_mat r c A \<longleftrightarrow> length A = r \<and> (\<forall>row\<in>set A. length row = c)"

definition mat_cols :: "'a list list \<Rightarrow> nat" where
  "mat_cols A = (case A of [] \<Rightarrow> 0 | row # _ \<Rightarrow> length row)"

text \<open>\<open>block(i, j, r, c)\<close>, read.\<close>

definition block :: "nat \<Rightarrow> nat \<Rightarrow> nat \<Rightarrow> nat \<Rightarrow> 'a list list \<Rightarrow> 'a list list" where
  "block i j r c A = mk_mat r c (\<lambda>a b. ent A (i + a) (j + b))"

definition mat_add :: "matrix \<Rightarrow> matrix \<Rightarrow> matrix" where
  "mat_add A B = map2 (map2 (+)) A B"

definition mat_neg :: "matrix \<Rightarrow> matrix" where
  "mat_neg A = map (map uminus) A"

definition dot :: "real list \<Rightarrow> real list \<Rightarrow> real" where
  "dot x y = sum_list (map2 (*) x y)"

definition mat_vec :: "matrix \<Rightarrow> real list \<Rightarrow> real list" where
  "mat_vec A x = map (\<lambda>row. dot row x) A"

definition mat_mul :: "matrix \<Rightarrow> matrix \<Rightarrow> matrix" where
  "mat_mul A B = mk_mat (length A) (mat_cols B) (\<lambda>i j. dot (A ! i) (map (\<lambda>row. row ! j) B))"

definition vec_add :: "real list \<Rightarrow> real list \<Rightarrow> real list" where
  "vec_add x y = map2 (+) x y"

definition vec_sub :: "real list \<Rightarrow> real list \<Rightarrow> real list" where
  "vec_sub x y = map2 (-) x y"

lemma mk_mat_dim [simp]: "is_mat r c (mk_mat r c f)"
  by (auto simp: is_mat_def mk_mat_def)

lemma length_mk_mat [simp]: "length (mk_mat r c f) = r"
  by (simp add: mk_mat_def)

lemma ent_mk_mat [simp]: "i < r \<Longrightarrow> j < c \<Longrightarrow> ent (mk_mat r c f) i j = f i j"
  by (simp add: ent_def mk_mat_def)

lemma is_mat_length: "is_mat r c A \<Longrightarrow> length A = r"
  by (simp add: is_mat_def)

lemma is_mat_row: "is_mat r c A \<Longrightarrow> i < r \<Longrightarrow> length (A ! i) = c"
  by (simp add: is_mat_def)

lemma is_mat_cols: "is_mat r c A \<Longrightarrow> 0 < r \<Longrightarrow> mat_cols A = c"
  by (cases A) (simp_all add: is_mat_def mat_cols_def)

lemma mat_eqI:
  assumes "is_mat r c A" and "is_mat r c B"
    and "\<And>i j. i < r \<Longrightarrow> j < c \<Longrightarrow> ent A i j = ent B i j"
  shows "A = B"
proof (rule nth_equalityI)
  show "length A = length B" using assms(1,2) by (simp add: is_mat_def)
  fix i assume "i < length A"
  with assms(1) have i: "i < r" by (simp add: is_mat_def)
  show "A ! i = B ! i"
  proof (rule nth_equalityI)
    show "length (A ! i) = length (B ! i)" using assms(1,2) i by (simp add: is_mat_row)
    fix j assume "j < length (A ! i)"
    then have "j < c" using assms(1) i by (simp add: is_mat_row)
    from assms(3) [OF i this] show "A ! i ! j = B ! i ! j" by (simp add: ent_def)
  qed
qed

lemma mk_mat_ent: "is_mat r c A \<Longrightarrow> mk_mat r c (ent A) = A"
  by (rule mat_eqI [of r c]) simp_all

lemma is_mat_set_ent [simp]: "is_mat r c A \<Longrightarrow> is_mat r c (set_ent i j v A)"
  by (cases "i < length A") (auto simp: is_mat_def set_ent_def all_set_conv_all_nth nth_list_update)

lemma ent_set_ent [simp]:
  "is_mat r c A \<Longrightarrow> i < r \<Longrightarrow> j < c \<Longrightarrow> i' < r \<Longrightarrow> j' < c \<Longrightarrow>
    ent (set_ent i j v A) i' j' = (if i' = i \<and> j' = j then v else ent A i' j')"
  by (auto simp: ent_def set_ent_def nth_list_update is_mat_length is_mat_row)

lemma is_mat_block [simp]: "is_mat r c (block i j r c A)"
  by (simp add: block_def)

lemma ent_block [simp]: "a < r \<Longrightarrow> b < c \<Longrightarrow> ent (block i j r c A) a b = ent A (i + a) (j + b)"
  by (simp add: block_def)

subsection \<open>Linearity\<close>

lemma sum_lessThan_add:
  "(\<Sum>k<m + (n :: nat). g k) = (\<Sum>k<m. g k) + (\<Sum>k<n. g (m + k) :: 'a::comm_monoid_add)"
  by (induction n) (simp_all add: add.assoc)

lemma dot_sum: "length x = length y \<Longrightarrow> dot x y = (\<Sum>k<length x. x ! k * y ! k)"
  by (simp add: dot_def sum_list_sum_nth atLeast0LessThan)

lemma length_mat_vec [simp]: "length (mat_vec A x) = length A"
  by (simp add: mat_vec_def)

lemma nth_mat_vec:
  "is_mat r c A \<Longrightarrow> length x = c \<Longrightarrow> i < r \<Longrightarrow> mat_vec A x ! i = (\<Sum>k<c. ent A i k * x ! k)"
  by (simp add: mat_vec_def is_mat_length dot_sum is_mat_row ent_def)

lemma length_vec_add [simp]: "length x = n \<Longrightarrow> length y = n \<Longrightarrow> length (vec_add x y) = n"
  and length_vec_sub [simp]: "length x = n \<Longrightarrow> length y = n \<Longrightarrow> length (vec_sub x y) = n"
  by (simp_all add: vec_add_def vec_sub_def)

lemma nth_vec_add [simp]: "length x = n \<Longrightarrow> length y = n \<Longrightarrow> i < n \<Longrightarrow> vec_add x y ! i = x ! i + y ! i"
  and nth_vec_sub [simp]: "length x = n \<Longrightarrow> length y = n \<Longrightarrow> i < n \<Longrightarrow> vec_sub x y ! i = x ! i - y ! i"
  by (simp_all add: vec_add_def vec_sub_def)

lemma mat_vec_add:
  assumes "is_mat r c A" and "length x = c" and "length y = c"
  shows "mat_vec A (vec_add x y) = vec_add (mat_vec A x) (mat_vec A y)"
proof (rule nth_equalityI)
  fix i assume "i < length (mat_vec A (vec_add x y))"
  then have "i < r" using assms(1) by (simp add: is_mat_length)
  with assms show "mat_vec A (vec_add x y) ! i = vec_add (mat_vec A x) (mat_vec A y) ! i"
    by (simp add: nth_mat_vec [OF assms(1)] is_mat_length nth_vec_add [of _ r]
        nth_vec_add [of _ c] distrib_left sum.distrib)
qed (use assms in simp)

lemma mat_vec_sub:
  assumes "is_mat r c A" and "length x = c" and "length y = c"
  shows "mat_vec A (vec_sub x y) = vec_sub (mat_vec A x) (mat_vec A y)"
proof (rule nth_equalityI)
  fix i assume "i < length (mat_vec A (vec_sub x y))"
  then have "i < r" using assms(1) by (simp add: is_mat_length)
  with assms show "mat_vec A (vec_sub x y) ! i = vec_sub (mat_vec A x) (mat_vec A y) ! i"
    by (simp add: nth_mat_vec [OF assms(1)] is_mat_length nth_vec_sub [of _ r]
        nth_vec_sub [of _ c] right_diff_distrib sum_subtractf)
qed (use assms in simp)

lemma is_mat_mul: "is_mat r k A \<Longrightarrow> is_mat k c B \<Longrightarrow> 0 < k \<Longrightarrow> is_mat r c (mat_mul A B)"
  by (simp add: mat_mul_def is_mat_length is_mat_cols)

lemma ent_mat_mul:
  assumes "is_mat r k A" and "is_mat k c B" and "0 < k" and "i < r" and "j < c"
  shows "ent (mat_mul A B) i j = (\<Sum>l<k. ent A i l * ent B l j)"
proof -
  have "ent (mat_mul A B) i j = dot (A ! i) (map (\<lambda>row. row ! j) B)"
    using assms by (simp add: mat_mul_def is_mat_length is_mat_cols)
  also have "\<dots> = (\<Sum>l<k. ent A i l * ent B l j)"
    using assms by (simp add: dot_sum is_mat_row is_mat_length ent_def)
  finally show ?thesis .
qed

lemma mat_vec_mul:
  assumes "is_mat r k A" and "is_mat k c B" and "0 < k" and "length x = c"
  shows "mat_vec (mat_mul A B) x = mat_vec A (mat_vec B x)"
proof (rule nth_equalityI)
  have AB: "is_mat r c (mat_mul A B)" by (rule is_mat_mul [OF assms(1-3)])
  show "length (mat_vec (mat_mul A B) x) = length (mat_vec A (mat_vec B x))"
    using AB assms(1) by (simp add: is_mat_length)
  fix i assume "i < length (mat_vec (mat_mul A B) x)"
  then have i: "i < r" using AB by (simp add: is_mat_length)
  have "mat_vec (mat_mul A B) x ! i = (\<Sum>j<c. (\<Sum>l<k. ent A i l * ent B l j) * x ! j)"
    using assms i by (simp add: nth_mat_vec [OF AB] ent_mat_mul)
  also have "\<dots> = (\<Sum>l<k. \<Sum>j<c. ent A i l * (ent B l j * x ! j))"
    by (simp add: sum_distrib_right mult.assoc) (rule sum.swap)
  also have "\<dots> = (\<Sum>l<k. ent A i l * mat_vec B x ! l)"
    using assms by (simp add: nth_mat_vec [OF assms(2)] sum_distrib_left)
  also have "\<dots> = mat_vec A (mat_vec B x) ! i"
    using assms(2) i by (simp add: nth_mat_vec [OF assms(1)] is_mat_length)
  finally show "mat_vec (mat_mul A B) x ! i = mat_vec A (mat_vec B x) ! i" .
qed

lemma is_mat_add [simp]: "is_mat r c A \<Longrightarrow> is_mat r c B \<Longrightarrow> is_mat r c (mat_add A B)"
  by (auto simp: is_mat_def mat_add_def in_set_zip)

lemma ent_mat_add:
  "is_mat r c A \<Longrightarrow> is_mat r c B \<Longrightarrow> i < r \<Longrightarrow> j < c \<Longrightarrow> ent (mat_add A B) i j = ent A i j + ent B i j"
  by (simp add: ent_def mat_add_def is_mat_length is_mat_row)

lemma mat_vec_mat_add:
  assumes "is_mat r c A" and "is_mat r c B" and "length x = c"
  shows "mat_vec (mat_add A B) x = vec_add (mat_vec A x) (mat_vec B x)"
proof (rule nth_equalityI)
  note AB = is_mat_add [OF assms(1,2)]
  show "length (mat_vec (mat_add A B) x) = length (vec_add (mat_vec A x) (mat_vec B x))"
    using AB assms(1,2) [THEN is_mat_length] by (simp add: is_mat_length vec_add_def)
  fix i assume "i < length (mat_vec (mat_add A B) x)"
  then have "i < r" using AB by (simp add: is_mat_length)
  with assms AB show "mat_vec (mat_add A B) x ! i = vec_add (mat_vec A x) (mat_vec B x) ! i"
    by (simp add: nth_mat_vec [OF AB] nth_mat_vec [OF assms(1)] nth_mat_vec [OF assms(2)] is_mat_length
        nth_vec_add [of _ r] ent_mat_add distrib_right sum.distrib)
qed

lemma is_mat_neg [simp]: "is_mat r c A \<Longrightarrow> is_mat r c (mat_neg A)"
  by (auto simp: is_mat_def mat_neg_def)

lemma ent_mat_neg [simp]:
  "is_mat r c A \<Longrightarrow> i < r \<Longrightarrow> j < c \<Longrightarrow> ent (mat_neg A) i j = - ent A i j"
  by (simp add: ent_def mat_neg_def is_mat_length is_mat_row)

section \<open>Symmetry\<close>

text \<open>\<open>coeffRef\<close> does not check its indices.\<close>

definition coeff :: "matrix \<Rightarrow> nat \<Rightarrow> nat \<Rightarrow> fault + real" where
  "coeff A i j = (if i < length A \<and> j < mat_cols A then Inr (ent A i j)
                  else Inl (UB ''matrix index out of bounds''))"

fun symmetric_scan :: "matrix \<Rightarrow> (nat \<times> nat) list \<Rightarrow> fault + bool" where
  "symmetric_scan A [] = Inr True"
| "symmetric_scan A ((i, j) # ps) =
     rbind (coeff A i j) (\<lambda>x. rbind (coeff A j i) (\<lambda>y.
       if x \<noteq> y then Inr False else symmetric_scan A ps))"

definition IsSymmetric :: "matrix \<Rightarrow> fault + bool" where
  "IsSymmetric A = symmetric_scan A (concat (map (\<lambda>i. map (\<lambda>j. (i, j)) [0..<i]) [0..<length A]))"

lemma symmetric_scan_square:
  assumes "is_mat n n A" and "\<forall>(i, j)\<in>set ps. j < i \<and> i < n"
  shows "symmetric_scan A ps = Inr (\<forall>(i, j)\<in>set ps. ent A i j = ent A j i)"
  using assms(2)
proof (induction ps)
  case (Cons p ps)
  obtain i j where p: "p = (i, j)" by fastforce
  with Cons.prems have "j < i" "i < n" by auto
  with assms(1) have "coeff A i j = Inr (ent A i j)" "coeff A j i = Inr (ent A j i)"
    by (simp_all add: coeff_def is_mat_length is_mat_cols)
  with Cons p show ?case by simp
qed simp

lemma IsSymmetric_square:
  assumes "is_mat n n A"
  shows "IsSymmetric A = Inr (\<forall>i<n. \<forall>j<n. ent A i j = ent A j i)"
proof -
  let ?ps = "concat (map (\<lambda>i. map (\<lambda>j. (i, j)) [0..<i]) [0..<n])"
  have ps: "set ?ps = {(i, j). j < i \<and> i < n}" by (auto simp: image_iff)
  have "IsSymmetric A = Inr (\<forall>(i, j)\<in>set ?ps. ent A i j = ent A j i)"
    unfolding IsSymmetric_def is_mat_length [OF assms]
    by (rule symmetric_scan_square [OF assms]) (simp only: ps, simp)
  moreover have "(\<forall>(i, j)\<in>set ?ps. ent A i j = ent A j i) \<longleftrightarrow> (\<forall>i<n. \<forall>j<n. ent A i j = ent A j i)"
    unfolding ps using linorder_neqE_nat by (auto simp: split_beta) metis
  ultimately show ?thesis by simp
qed

section \<open>Casts and element access\<close>

definition ToEigenVector :: "'a list \<Rightarrow> fault + 'a list" where
  "ToEigenVector collection =
    (if length collection = 0 then Inl (Thrown (zeroSize ''collection'')) else Inr collection)"

definition ToEigenRowVector :: "'a list \<Rightarrow> fault + 'a list list" where
  "ToEigenRowVector collection =
    (if length collection = 0 then Inl (Thrown (zeroSize ''collection'')) else Inr [collection])"

text \<open>
  \<open>collection.size() % columns\<close> converts the signed \<open>columns\<close> to 64 bits; a zero divisor is
  undefined behaviour.
\<close>

definition ToEigenMatrix :: "'a list \<Rightarrow> int \<Rightarrow> fault + 'a list list" where
  "ToEigenMatrix collection columns =
    (let c = unat (word_of_int columns :: u64); size = length collection
     in if size = 0 then Inl (Thrown (zeroSize ''collection''))
        else if c = 0 then Inl (UB ''integer division by zero'')
        else if size mod c \<noteq> 0 then Inl (Thrown (RowDivisionError (int size) columns))
        else let rows = size div c in Inr (mk_mat rows c (\<lambda>i j. collection ! (i + j * rows))))"

text \<open>The elements of a matrix in storage order.\<close>

definition storage :: "'a list list \<Rightarrow> 'a list" where
  "storage A = concat (map (\<lambda>j. map (\<lambda>row. row ! j) A) [0..<mat_cols A])"

text \<open>\<open>GetShape\<close> of a matrix and of a vector of vectors; the latter reads its first row.\<close>

definition GetShape_RowCol :: "'a list list \<Rightarrow> int \<times> int" where
  "GetShape_RowCol A = (int (length A), int (mat_cols A))"

definition GetShape :: "'a list list \<Rightarrow> fault + int \<times> int" where
  "GetShape collection = rbind (va_get collection 0) (\<lambda>row. Inr (int (length collection), int (length row)))"

definition GetMatrElement :: "'a list list \<Rightarrow> nat \<Rightarrow> nat \<Rightarrow> fault + 'a" where
  "GetMatrElement collection i1 i2 = rbind (va_get collection i1) (\<lambda>row. va_get row i2)"

text \<open>Coordinates come as one list \<open>x_0 .. x_{n-1} y_0 .. y_{n-1}\<close> or as a nested container.\<close>

datatype coords = Flat "real list" | Nested "real list list"

fun coords_size :: "coords \<Rightarrow> nat" where
  "coords_size (Flat xs) = length xs"
| "coords_size (Nested xss) = length xss"

fun GetElement :: "coords \<Rightarrow> nat \<Rightarrow> nat \<Rightarrow> nat \<Rightarrow> fault + real" where
  "GetElement (Flat xs) i1 i2 n = va_get xs (i1 * n + i2)"
| "GetElement (Nested xss) i1 i2 n = GetMatrElement xss i1 i2"

definition GetValue :: "'a list \<Rightarrow> nat \<Rightarrow> fault + 'a" where
  "GetValue collection i1 = va_get collection i1"

section \<open>Properties\<close>

lemma storage_mk_mat:
  assumes "0 < r" and "length xs = r * c"
  shows "storage (mk_mat r c (\<lambda>i j. xs ! (i + j * r))) = xs"
proof -
  let ?A = "mk_mat r c (\<lambda>i j. xs ! (i + j * r))" and ?cols = "map (\<lambda>j. map (\<lambda>i. xs ! (i + j * r)) [0..<r]) [0..<c]"
  have col: "map (\<lambda>row. row ! j) ?A = map (\<lambda>i. xs ! (i + j * r)) [0..<r]" if "j < c" for j
    using that by (simp add: mk_mat_def)
  have "storage ?A = concat ?cols"
    unfolding storage_def is_mat_cols [OF mk_mat_dim assms(1)]
    by (rule arg_cong [of _ _ concat], rule map_cong [OF refl]) (simp add: col)
  also have "\<dots> = xs"
  proof (rule nth_equalityI)
    have rows: "row \<in> set ?cols \<Longrightarrow> length row = r" for row by auto
    have "length (concat ?cols) = length ?cols * r" by (rule length_concat_uniform) (rule rows)
    then show len: "length (concat ?cols) = length xs" using assms(2) by (simp add: mult.commute)
    fix k assume "k < length (concat ?cols)"
    then have k: "k < c * r" using len assms(2) by (simp add: mult.commute)
    then have d: "k div r < c" "k mod r < r" using assms(1) by (simp_all add: less_mult_imp_div_less)
    have "concat ?cols ! (k div r * r + k mod r) = ?cols ! (k div r) ! (k mod r)"
      by (rule nth_concat_uniform [OF rows]) (use d in simp_all)
    also have "\<dots> = xs ! (k mod r + k div r * r)" using d by simp
    finally show "concat ?cols ! k = xs ! k" by (simp add: add.commute)
  qed
  finally show ?thesis .
qed

text \<open>C16: viewing a collection as a matrix with a positive number of columns fails with
\<open>zeroSize\<close> for an empty collection and with \<open>RowDivisionError\<close> when the columns do not
divide its size; otherwise the matrix has that many columns and its storage is the collection.\<close>

theorem eigen_matrix_view:
  assumes "0 < columns" and "columns < 2 ^ 31"
  shows "(collection = [] \<longrightarrow> ToEigenMatrix collection columns = Inl (Thrown (zeroSize ''collection''))) \<and>
    (collection \<noteq> [] \<and> length collection mod nat columns \<noteq> 0 \<longrightarrow>
      ToEigenMatrix collection columns = Inl (Thrown (RowDivisionError (int (length collection)) columns))) \<and>
    (collection \<noteq> [] \<and> length collection mod nat columns = 0 \<longrightarrow>
      (\<exists>A. ToEigenMatrix collection columns = Inr A \<and>
        is_mat (length collection div nat columns) (nat columns) A \<and> storage A = collection))"
proof -
  have "uint (word_of_int columns :: u64) = columns"
    using assms by (simp add: uint_word_of_int)
  then have c: "unat (word_of_int columns :: u64) = nat columns" by (simp only: unat_eq_nat_uint)
  have pos: "0 < length collection div nat columns"
    if "collection \<noteq> []" "length collection mod nat columns = 0"
    using that assms(1) by (metis div_greater_zero_iff length_greater_0_conv mod_less not_le nat_neq_iff zero_less_nat_eq)
  have size: "length collection = length collection div nat columns * nat columns"
    if "length collection mod nat columns = 0"
    using that by (metis add.right_neutral div_mult_mod_eq)
  show ?thesis
    using assms(1) storage_mk_mat [OF pos size] unfolding ToEigenMatrix_def Let_def c by auto
qed

theorem eigen_matrix_view_witness:
  "ToEigenMatrix [1, 2, 3, 4, 5 :: nat] 2 = Inl (Thrown (RowDivisionError 5 2))"
  using eigen_matrix_view [of 2 "[1, 2, 3, 4, 5 :: nat]"] by simp

end
