(* ===== verification/Dipoles.thy ===== *)
theory Dipoles
  imports Matrices
begin

text \<open>
  \<open>Dipoles.h/.cpp\<close>: the linear system of the dipole model, its solution by half-size
  blocks, and the intensity functions built from a solution.  Doubles are real numbers: no
  rounding is modelled, and dipoles at the same place, whose blocks are infinite, give
  \<open>NonFinite\<close>.  The LU solver of Eigen is an argument.  Counters and sizes are natural numbers.
\<close>

section \<open>Parameters and plane vectors\<close>

definition param_c :: real where "param_c = 3 * 10 ^ 8"
definition param_yo :: real where "param_yo = 10 ^ 7"
definition param_omega :: real where "param_omega = 10 ^ 15"
definition param_omega0 :: real where "param_omega0 = param_omega"
definition param_a :: real where "param_a = 1"
definition param_eps :: real where "param_eps = 1"

type_synonym vec2 = "real \<times> real"

fun add2 :: "vec2 \<Rightarrow> vec2 \<Rightarrow> vec2" where "add2 (a, b) (c, d) = (a + c, b + d)"
fun sub2 :: "vec2 \<Rightarrow> vec2 \<Rightarrow> vec2" where "sub2 (a, b) (c, d) = (a - c, b - d)"
fun scale2 :: "real \<Rightarrow> vec2 \<Rightarrow> vec2" where "scale2 k (a, b) = (k * a, k * b)"
fun dot2 :: "vec2 \<Rightarrow> vec2 \<Rightarrow> real" where "dot2 (a, b) (c, d) = a * c + b * d"
fun cwise2 :: "vec2 \<Rightarrow> vec2 \<Rightarrow> vec2" where "cwise2 (a, b) (c, d) = (a * c, b * d)"
fun sum2 :: "vec2 \<Rightarrow> real" where "sum2 (a, b) = a + b"

section \<open>State\<close>

text \<open>
  \<open>n_\<close> has no initialiser.  The two functions \<open>GetFullFunction\<close> stores capture references to
  its arguments, which the model keeps.
\<close>

record Dipoles =
  m_1 :: matrix
  m_2 :: matrix
  f_vec :: "real list"
  an :: real
  n_dip :: "nat option"
  captured :: "(coords \<times> real list) option"

definition new_Dipoles :: Dipoles where
  "new_Dipoles = \<lparr>m_1 = [], m_2 = [], f_vec = [], an = param_a, n_dip = None, captured = None\<rparr>"

definition get_n :: "Dipoles \<Rightarrow> fault + nat" where
  "get_n d = of_opt (UB ''read of the uninitialised n_'') (n_dip d)"

text \<open>
  \<open>resize\<close> leaves the elements of the matrices indeterminate; both callers overwrite them.
  For no dipoles \<open>an_\<close> becomes infinite and is not used.
\<close>

definition InitArrays :: "nat \<Rightarrow> Dipoles \<Rightarrow> Dipoles" where
  "InitArrays n d =
    (let a_n = param_a / of_nat n
     in d\<lparr>n_dip := Some n, an := a_n,
          m_1 := mk_mat (2 * n) (2 * n) (\<lambda>_ _. 0), m_2 := mk_mat (2 * n) (2 * n) (\<lambda>_ _. 0),
          f_vec := for_loop n (\<lambda>i f. f[2 * i := a_n * param_eps, 2 * i + 1 := 0, 2 * i + 2 * n := 0,
                                        2 * i + 1 + 2 * n := a_n * param_eps]) (replicate (4 * n) 0)\<rparr>)"

section \<open>Filling the matrices\<close>

fun elem :: "coords \<Rightarrow> nat \<Rightarrow> nat \<Rightarrow> nat \<Rightarrow> real" where
  "elem (Flat xs) i1 i2 n = xs ! (i1 * n + i2)"
| "elem (Nested xss) i1 i2 n = xss ! i1 ! i2"

definition TwoDVecDifference :: "nat \<Rightarrow> nat \<Rightarrow> nat \<Rightarrow> coords \<Rightarrow> vec2" where
  "TwoDVecDifference n i1 i2 xi = (elem xi 0 i1 n - elem xi 0 i2 n, elem xi 1 i1 n - elem xi 1 i2 n)"

definition GetDistance :: "nat \<Rightarrow> nat \<Rightarrow> nat \<Rightarrow> coords \<Rightarrow> real" where
  "GetDistance n i1 i2 xi =
    (let (d1, d2) = TwoDVecDifference n i1 i2 xi in sqrt (d1 * d1 + d2 * d2))"

definition k_1 :: "vec2 \<Rightarrow> real \<Rightarrow> matrix" where
  "k_1 rim r = (case rim of (x, y) \<Rightarrow>
    [[3 * x * x / r ^ 5 - 1 / r ^ 3, 3 * x * y / r ^ 5],
     [3 * x * y / r ^ 5, 3 * y * y / r ^ 5 - 1 / r ^ 3]])"

definition k_2 :: "real \<Rightarrow> matrix" where
  "k_2 r = [[param_omega / (param_c * r ^ 2), 0], [0, param_omega / (param_c * r ^ 2)]]"

definition set_block2 :: "nat \<Rightarrow> nat \<Rightarrow> matrix \<Rightarrow> matrix \<Rightarrow> matrix" where
  "set_block2 i j B A = set_ent (i + 1) (j + 1) (ent B 1 1) (set_ent (i + 1) j (ent B 1 0)
     (set_ent i (j + 1) (ent B 0 1) (set_ent i j (ent B 0 0) A)))"

definition scaled_id :: "real \<Rightarrow> matrix" where
  "scaled_id v = [[v, 0], [0, v]]"

definition block_1 :: "nat \<Rightarrow> real \<Rightarrow> coords \<Rightarrow> nat \<Rightarrow> nat \<Rightarrow> matrix" where
  "block_1 n a_n xi i m =
    (if i = m then scaled_id (param_omega0 * param_omega0 - param_omega * param_omega)
     else let rim = TwoDVecDifference n m i xi; r_mode = GetDistance n i m xi;
              arg = param_omega * r_mode / param_c
          in mk_mat 2 2 (\<lambda>a b. - a_n * (ent (k_1 rim r_mode) a b * cos arg - ent (k_2 r_mode) a b * sin arg)))"

definition block_2 :: "nat \<Rightarrow> real \<Rightarrow> coords \<Rightarrow> nat \<Rightarrow> nat \<Rightarrow> matrix" where
  "block_2 n a_n xi i m =
    (if i = m then mat_neg (scaled_id (param_yo * param_omega))
     else let rim = TwoDVecDifference n m i xi; r_mode = GetDistance n i m xi;
              arg = param_omega * r_mode / param_c
          in mk_mat 2 2 (\<lambda>a b. - a_n * (ent (k_2 r_mode) a b * cos arg + ent (k_1 rim r_mode) a b * sin arg)))"

definition fill_blocks :: "nat \<Rightarrow> (nat \<Rightarrow> nat \<Rightarrow> matrix) \<Rightarrow> matrix \<Rightarrow> matrix" where
  "fill_blocks n blk = for_loop n (\<lambda>i. for_loop n (\<lambda>m A. set_block2 (2 * i) (2 * m) (blk i m) A))"

text \<open>
  What the loops need: with two dipoles or more every coordinate is read, and no two dipoles
  may coincide.
\<close>

definition coords_readable :: "nat \<Rightarrow> coords \<Rightarrow> bool" where
  "coords_readable n xi \<longleftrightarrow> n \<le> 1 \<or> (case xi of Flat xs \<Rightarrow> 2 * n \<le> length xs
     | Nested xss \<Rightarrow> 2 \<le> length xss \<and> n \<le> length (xss ! 0) \<and> n \<le> length (xss ! 1))"

definition apart :: "nat \<Rightarrow> coords \<Rightarrow> bool" where
  "apart n xi \<longleftrightarrow> (\<forall>i<n. \<forall>m<n. i \<noteq> m \<longrightarrow> TwoDVecDifference n i m xi \<noteq> (0, 0))"

definition SetMatrixes :: "coords \<Rightarrow> Dipoles \<Rightarrow> fault + Dipoles" where
  "SetMatrixes xi d =
    rbind (get_n d) (\<lambda>n.
    rbind (require (coords_readable n xi) (UB ''coordinate index out of bounds'')) (\<lambda>_.
    rbind (require (apart n xi) (NonFinite ''coinciding dipoles'')) (\<lambda>_.
      Inr (d\<lparr>m_1 := fill_blocks n (block_1 n (an d) xi) (m_1 d),
             m_2 := fill_blocks n (block_2 n (an d) xi) (m_2 d)\<rparr>))))"

text \<open>The constructor distinguishes nested containers, \<open>SetNewCoordinates\<close> does not.\<close>

definition Dipoles_of :: "coords \<Rightarrow> fault + Dipoles" where
  "Dipoles_of xi =
    (case xi of
       Flat xs \<Rightarrow> SetMatrixes xi (InitArrays (length xs div 2) new_Dipoles)
     | Nested xss \<Rightarrow> rbind (va_get xss 0) (\<lambda>row. SetMatrixes xi (InitArrays (length row) new_Dipoles)))"

definition SetNewCoordinates :: "coords \<Rightarrow> Dipoles \<Rightarrow> fault + Dipoles" where
  "SetNewCoordinates xi d =
    SetMatrixes xi (if length (f_vec d) \<noteq> coords_size xi * 2 then InitArrays (coords_size xi div 2) d else d)"

section \<open>The whole system\<close>

definition LoadFromMatrix :: "matrix \<Rightarrow> Dipoles \<Rightarrow> fault + Dipoles" where
  "LoadFromMatrix xi d =
    (let n = length xi div 4
     in if mat_cols xi < 2 * n then Inl (UB ''matrix block out of bounds'')
        else Inr ((InitArrays n d)\<lparr>m_1 := block 0 0 (2 * n) (2 * n) xi,
               m_2 := block (length xi - 2 * n) 0 (2 * n) (2 * n) xi\<rparr>))"

definition GetRightPart :: "Dipoles \<Rightarrow> real list" where
  "GetRightPart d = f_vec d"

text \<open>Four corners are assigned, which determine every element.\<close>

definition GetMatrixx :: "Dipoles \<Rightarrow> fault + matrix" where
  "GetMatrixx d = rbind (get_n d) (\<lambda>n. Inr (mk_mat (4 * n) (4 * n) (\<lambda>i j.
     if i < 2 * n then (if j < 2 * n then ent (m_1 d) i j else ent (mat_neg (m_2 d)) i (j - 2 * n))
     else (if j < 2 * n then ent (m_2 d) (i - 2 * n) j else ent (m_1 d) (i - 2 * n) (j - 2 * n)))))"

type_synonym lu_solver = "matrix \<Rightarrow> real list \<Rightarrow> real list"

definition normal_matrix :: "Dipoles \<Rightarrow> matrix" where
  "normal_matrix d = mat_add (mat_mul (m_1 d) (m_1 d)) (mat_mul (m_2 d) (m_2 d))"

definition Solve_halves :: "lu_solver \<Rightarrow> Dipoles \<Rightarrow> fault + real list \<times> real list" where
  "Solve_halves lu d = rbind (get_n d) (\<lambda>n.
    let f1 = take (2 * n) (f_vec d); f2 = take (2 * n) (drop (2 * n) (f_vec d)); tt = lu (normal_matrix d)
    in Inr (tt (vec_add (mat_vec (m_1 d) f1) (mat_vec (m_2 d) f2)),
            tt (vec_sub (mat_vec (m_1 d) f2) (mat_vec (m_2 d) f1))))"

text \<open>
  The specialisations for one Eigen vector and for the standard containers write the halves
  into consecutive blocks; the last takes the address of the first element.
\<close>

definition Solve_EigenVec :: "lu_solver \<Rightarrow> Dipoles \<Rightarrow> fault + real list" where
  "Solve_EigenVec lu d = rbind (Solve_halves lu d) (\<lambda>(s1, s2). Inr (s1 @ s2))"

definition Solve_StdVec :: "lu_solver \<Rightarrow> Dipoles \<Rightarrow> fault + real list" where
  "Solve_StdVec lu d = rbind (Solve_halves lu d) (\<lambda>(s1, s2). Inr (s1 @ s2))"

definition Solve_StdValarr :: "lu_solver \<Rightarrow> Dipoles \<Rightarrow> fault + real list" where
  "Solve_StdValarr lu d = rbind (get_n d) (\<lambda>n.
    if n = 0 then Inl (UB ''valarray index out of bounds'')
    else rbind (Solve_halves lu d) (\<lambda>(s1, s2). Inr (s1 @ s2)))"

section \<open>Intensity functions\<close>

text \<open>
  The bodies of the two closures, statement by statement.  \<open>n\<close> is half the size of the
  coordinate container, also for a nested one.
\<close>

definition ifunction_body ::
    "coords \<Rightarrow> real list \<Rightarrow> nat \<Rightarrow> real \<Rightarrow> real \<Rightarrow> real \<Rightarrow> nat \<Rightarrow> real \<times> real \<times> real \<Rightarrow> real \<times> real \<times> real" where
  "ifunction_body xi sol n theta phi t i ress =
    (let s = (cos phi, sin phi);
         ri0 = elem xi 0 i n; ri1 = elem xi 1 i n;
         ys = (ri1 * cos phi - ri0 * sin phi) * sin theta;
         t0 = t - ys / param_c;
         aI0 = sol ! (2 * i); aI1 = sol ! (2 * i + 1);
         bi0 = sol ! (2 * i + 2 * n); bi1 = sol ! (2 * i + 1 + 2 * n);
         di0 = aI0 * cos (param_omega * t0) + bi0 * sin (param_omega * t0);
         di1 = aI1 * cos (param_omega * t0) + bi1 * sin (param_omega * t0);
         vi0 = param_omega * (bi0 * cos (param_omega * t0) - aI0 * sin (param_omega * t0)) / param_c;
         vi1 = param_omega * (bi1 * cos (param_omega * t0) - aI1 * sin param_omega) / param_c;
         ai0 = - (param_omega ^ 2) * di0; ai1 = - (param_omega ^ 2) * di1;
         vsi = vi0 * fst s + vi1 * snd s;
         asi = ai0 * fst s + ai1 * snd s;
         ttt0 = ai0 * (vsi * sin theta - 1) + fst s * asi * (sin theta) ^ 2 - vi0 * asi * sin theta;
         ttt1 = ai1 * (vsi * sin theta - 1) + snd s * asi * (sin theta) ^ 2 - vi1 * asi * sin theta;
         t3 = asi * sin theta * cos theta
     in case ress of (r0, r1, r2) \<Rightarrow> (r0 + ttt0, r1 + ttt1, r2 + t3))"

definition ifunction_value :: "coords \<Rightarrow> real list \<Rightarrow> real \<Rightarrow> real \<Rightarrow> real \<Rightarrow> real" where
  "ifunction_value xi sol theta phi t =
    (let n = coords_size xi div 2
     in case for_loop n (ifunction_body xi sol n theta phi t) (0, 0, 0) of
          (r0, r1, r2) \<Rightarrow> r0 * r0 + r1 * r1 + r2 * r2)"

text \<open>The terms of one dipole with coefficients \<open>Ai\<close>, \<open>bi\<close>; \<open>other\<close> is the vector multiplied by
\<open>Ai.dot(s)\<close> in the cross term.\<close>

record dipole_terms =
  t_pc1 :: vec2
  t_ps1 :: vec2
  t_pcom :: vec2
  t_pc :: real
  t_ps :: real

definition terms_of :: "coords \<Rightarrow> nat \<Rightarrow> real \<Rightarrow> real \<Rightarrow> nat \<Rightarrow> vec2 \<Rightarrow> vec2 \<Rightarrow> vec2 \<Rightarrow> dipole_terms" where
  "terms_of xi n phi theta i Ai bi other =
    (let s = (cos phi, sin phi); sinth2 = (sin theta) ^ 2;
         ys = (elem xi 1 i n * cos phi - elem xi 0 i n * sin phi) * sin theta;
         argument = param_omega * ys / param_c;
         ais = dot2 Ai s; bis = dot2 bi s;
         a_bis = scale2 bis Ai; b_ais = scale2 ais other
     in \<lparr>t_pc1 = sub2 (scale2 (cos argument) (sub2 (scale2 (ais * sinth2) s) Ai))
                      (scale2 (sin argument) (sub2 (scale2 (bis * sinth2) s) bi)),
         t_ps1 = add2 (scale2 (sin argument) (sub2 (scale2 (ais * sinth2) s) Ai))
                      (scale2 (cos argument) (sub2 (scale2 (bis * sinth2) s) bi)),
         t_pcom = scale2 (- (param_omega / param_c) * sin theta) (sub2 a_bis b_ais),
         t_pc = ais * cos argument - bis * sin argument,
         t_ps = ais * sin argument + bis * cos argument\<rparr>)"

definition coef_A :: "real list \<Rightarrow> nat \<Rightarrow> vec2" where
  "coef_A sol i = (sol ! (2 * i), sol ! (2 * i + 1))"

definition coef_b :: "real list \<Rightarrow> nat \<Rightarrow> nat \<Rightarrow> vec2" where
  "coef_b sol n i = (sol ! (2 * i + 2 * n), sol ! (2 * i + 1 + 2 * n))"

text \<open>The coefficient \<open>bj\<close> of the inner loop, as the code indexes it.\<close>

definition coef_bj :: "real list \<Rightarrow> nat \<Rightarrow> nat \<Rightarrow> vec2" where
  "coef_bj sol n j = (sol ! (2 * j + 2 * n), sol ! (j + 1 + 2 * n))"

definition term_i :: "coords \<Rightarrow> real list \<Rightarrow> nat \<Rightarrow> real \<Rightarrow> real \<Rightarrow> nat \<Rightarrow> dipole_terms" where
  "term_i xi sol n phi theta i =
    terms_of xi n phi theta i (coef_A sol i) (coef_b sol n i) (coef_b sol n i)"

definition term_j :: "coords \<Rightarrow> real list \<Rightarrow> nat \<Rightarrow> real \<Rightarrow> real \<Rightarrow> nat \<Rightarrow> nat \<Rightarrow> dipole_terms" where
  "term_j xi sol n phi theta i j =
    terms_of xi n phi theta j (coef_A sol j) (coef_bj sol n j) (coef_b sol n i)"

definition cross_xy :: "dipole_terms \<Rightarrow> dipole_terms \<Rightarrow> vec2" where
  "cross_xy p q = add2 (add2 (cwise2 (t_pc1 p) (t_pc1 q)) (cwise2 (t_ps1 p) (t_ps1 q)))
     (scale2 2 (cwise2 (t_pcom p) (t_pcom q)))"

definition cross_z :: "dipole_terms \<Rightarrow> dipole_terms \<Rightarrow> real" where
  "cross_z p q = t_pc p * t_pc q + t_ps p * t_ps q"

definition i_2_function_value :: "coords \<Rightarrow> real list \<Rightarrow> real \<Rightarrow> real \<Rightarrow> real" where
  "i_2_function_value xi sol phi theta =
    (let n = coords_size xi div 2; t_0 = pi * 2 / param_omega; o2 = param_omega ^ 2;
         (resxy, resz) = for_loop n (\<lambda>i (resxy, resz).
           let p = term_i xi sol n phi theta i;
               (resxy, resz) = for_loop i (\<lambda>j (resxy, resz).
                 let q = term_j xi sol n phi theta i j
                 in (add2 resxy (cross_xy p q), resz + cross_z p q)) (resxy, resz)
           in (add2 resxy (scale2 (1 / 2) (cross_xy p p)), resz + cross_z p p / 2)) ((0, 0), 0)
     in sum2 (scale2 (t_0 * o2 * o2) resxy) + resz * t_0 * (o2 * o2 * (sin theta * cos theta) ^ 2))"

text \<open>The elements the closures read.\<close>

definition function_readable :: "coords \<Rightarrow> real list \<Rightarrow> bool" where
  "function_readable xi sol \<longleftrightarrow> (let n = coords_size xi div 2 in 4 * n \<le> length sol \<and>
    (\<forall>i<n. GetElement xi 0 i n = Inr (elem xi 0 i n) \<and> GetElement xi 1 i n = Inr (elem xi 1 i n)))"

definition GetFullFunction :: "coords \<Rightarrow> real list \<Rightarrow> Dipoles \<Rightarrow> Dipoles" where
  "GetFullFunction xi sol d = d\<lparr>captured := Some (xi, sol)\<rparr>"

definition GetIfunction :: "Dipoles \<Rightarrow> fault + (real \<Rightarrow> real \<Rightarrow> real \<Rightarrow> real)" where
  "GetIfunction d = (case captured d of None \<Rightarrow> Inl (Library ''bad_function_call'')
     | Some (xi, sol) \<Rightarrow> if function_readable xi sol then Inr (ifunction_value xi sol)
                        else Inl (UB ''vector index out of bounds''))"

definition GetI2Function :: "Dipoles \<Rightarrow> fault + (real \<Rightarrow> real \<Rightarrow> real)" where
  "GetI2Function d = (case captured d of None \<Rightarrow> Inl (Library ''bad_function_call'')
     | Some (xi, sol) \<Rightarrow> if function_readable xi sol then Inr (i_2_function_value xi sol)
                        else Inl (UB ''vector index out of bounds''))"

section \<open>The matrices after the loops\<close>

definition block_ent :: "(nat \<Rightarrow> nat \<Rightarrow> matrix) \<Rightarrow> nat \<Rightarrow> nat \<Rightarrow> real" where
  "block_ent blk p q = ent (blk (p div 2) (q div 2)) (p mod 2) (q mod 2)"

lemma is_mat_set_block2 [simp]: "is_mat r c A \<Longrightarrow> is_mat r c (set_block2 i j B A)"
  by (simp add: set_block2_def)

lemma ent_set_block2:
  assumes A: "is_mat (2 * n) (2 * n) A" and "i < n" and "m < n" and "p < 2 * n" and "q < 2 * n"
  shows "ent (set_block2 (2 * i) (2 * m) B A) p q =
    (if p div 2 = i \<and> q div 2 = m then ent B (p mod 2) (q mod 2) else ent A p q)"
proof -
  have e0: "p = 2 * i \<longleftrightarrow> p div 2 = i \<and> p mod 2 = 0" "p = 2 * i + 1 \<longleftrightarrow> p div 2 = i \<and> p mod 2 = 1"
    "q = 2 * m \<longleftrightarrow> q div 2 = m \<and> q mod 2 = 0" "q = 2 * m + 1 \<longleftrightarrow> q div 2 = m \<and> q mod 2 = 1" by presburger+
  have lt: "2 * i < 2 * n" "2 * i + 1 < 2 * n" "2 * m < 2 * n" "2 * m + 1 < 2 * n" using assms(2,3) by auto
  have "p mod 2 = 0 \<or> p mod 2 = 1" "q mod 2 = 0 \<or> q mod 2 = 1" by auto
  then show ?thesis
    unfolding set_block2_def
    by (elim disjE)
      (simp_all only: ent_set_ent [of "2 * n" "2 * n"] is_mat_set_ent A lt assms(4,5) e0, simp_all)
qed

lemma fill_blocks_row:
  assumes A: "is_mat (2 * n) (2 * n) A" and i: "i < n" and "k \<le> n"
  shows "is_mat (2 * n) (2 * n) (for_loop k (\<lambda>m A. set_block2 (2 * i) (2 * m) (blk i m) A) A) \<and>
    (\<forall>p<2 * n. \<forall>q<2 * n. ent (for_loop k (\<lambda>m A. set_block2 (2 * i) (2 * m) (blk i m) A) A) p q =
      (if p div 2 = i \<and> q div 2 < k then block_ent blk p q else ent A p q))"
  using assms(3)
proof (induction k)
  case (Suc k)
  let ?B = "for_loop k (\<lambda>m A. set_block2 (2 * i) (2 * m) (blk i m) A) A"
  from Suc have B: "is_mat (2 * n) (2 * n) ?B" and k: "k < n"
    and ih: "\<forall>p<2 * n. \<forall>q<2 * n. ent ?B p q = (if p div 2 = i \<and> q div 2 < k then block_ent blk p q else ent A p q)"
    by auto
  have "ent (set_block2 (2 * i) (2 * k) (blk i k) ?B) p q =
      (if p div 2 = i \<and> q div 2 < Suc k then block_ent blk p q else ent A p q)" if "p < 2 * n" "q < 2 * n" for p q
    using that ih by (auto simp: ent_set_block2 [OF B i k] block_ent_def less_Suc_eq)
  with B show ?case by simp
qed (simp add: A)

lemma fill_blocks_ent:
  assumes A: "is_mat (2 * n) (2 * n) A"
  shows "is_mat (2 * n) (2 * n) (fill_blocks n blk A)"
    and "p < 2 * n \<Longrightarrow> q < 2 * n \<Longrightarrow> ent (fill_blocks n blk A) p q = block_ent blk p q"
proof -
  let ?row = "\<lambda>i. for_loop n (\<lambda>m A. set_block2 (2 * i) (2 * m) (blk i m) A)"
  have inv: "k \<le> n \<Longrightarrow> is_mat (2 * n) (2 * n) (for_loop k ?row A) \<and>
      (\<forall>p<2 * n. \<forall>q<2 * n. p div 2 < k \<longrightarrow> ent (for_loop k ?row A) p q = block_ent blk p q)" for k
  proof (induction k)
    case (Suc k)
    let ?B = "for_loop k ?row A"
    from Suc have B: "is_mat (2 * n) (2 * n) ?B" and k: "k < n"
      and ih: "\<forall>p<2 * n. \<forall>q<2 * n. p div 2 < k \<longrightarrow> ent ?B p q = block_ent blk p q" by auto
    note r = fill_blocks_row [OF B k order_refl, of blk]
    have "ent (?row k ?B) p q = block_ent blk p q" if "p < 2 * n" "q < 2 * n" "p div 2 < Suc k" for p q
      using that r ih by (auto simp: less_Suc_eq)
    with r show ?case by simp
  qed (simp add: A)
  from inv [of n] show "is_mat (2 * n) (2 * n) (fill_blocks n blk A)" by (simp add: fill_blocks_def)
  assume "p < 2 * n" and "q < 2 * n"
  with inv [of n] show "ent (fill_blocks n blk A) p q = block_ent blk p q" by (simp add: fill_blocks_def)
qed

lemma fill_blocks_eq:
  "is_mat (2 * n) (2 * n) A \<Longrightarrow> fill_blocks n blk A = mk_mat (2 * n) (2 * n) (block_ent blk)"
  by (rule mat_eqI [OF fill_blocks_ent(1)]) (simp_all add: fill_blocks_ent)

text \<open>The right-hand side is constant on both halves.\<close>

lemma rhs_write:
  assumes "length f = 4 * n" and r: "r < n" and k: "k < 4 * n"
  shows "f[2 * r := v, 2 * r + 1 := 0, 2 * r + 2 * n := 0, 2 * r + 1 + 2 * n := v] ! k =
    (if k mod (2 * n) div 2 = r
     then (if k < 2 * n then (if even k then v else 0) else (if even k then 0 else v)) else f ! k)"
proof -
  define h where "h = k mod (2 * n)"
  have "k = h \<and> k < 2 * n \<or> k = h + 2 * n"
    using k unfolding h_def by (cases "k < 2 * n") (simp, simp add: mod_if, arith)
  moreover have "h < 2 * n" using r by (simp add: h_def)
  moreover have "h div 2 = r \<longleftrightarrow> h = 2 * r \<or> h = 2 * r + 1" by presburger
  moreover have "even (h + 2 * n) \<longleftrightarrow> even h" by simp
  ultimately show ?thesis
    unfolding h_def [symmetric] using assms by (elim disjE conjE) (auto simp: nth_list_update)
qed

lemma f_vec_InitArrays:
  "f_vec (InitArrays n d) = map (\<lambda>k. if k < 2 * n then (if even k then param_a / of_nat n * param_eps else 0)
      else (if even k then 0 else param_a / of_nat n * param_eps)) [0..<4 * n]"
proof -
  define v where "v = param_a / of_nat n * param_eps"
  let ?body = "\<lambda>i f. f[2 * i := v, 2 * i + 1 := 0, 2 * i + 2 * n := 0, 2 * i + 1 + 2 * n := v]"
  let ?spec = "\<lambda>k. if k < 2 * n then (if even k then v else 0) else (if even k then 0 else v)"
  have inv: "r \<le> n \<Longrightarrow> length (for_loop r ?body (replicate (4 * n) 0)) = 4 * n \<and>
      (\<forall>k<4 * n. k mod (2 * n) div 2 < r \<longrightarrow> for_loop r ?body (replicate (4 * n) 0) ! k = ?spec k)" for r
  proof (induction r)
    case (Suc r)
    let ?f = "for_loop r ?body (replicate (4 * n) 0)"
    from Suc have f: "length ?f = 4 * n" and r: "r < n"
      and ih: "\<forall>k<4 * n. k mod (2 * n) div 2 < r \<longrightarrow> ?f ! k = ?spec k" by simp_all
    have "?body r ?f ! k = ?spec k" if "k < 4 * n" "k mod (2 * n) div 2 < Suc r" for k
      unfolding rhs_write [OF f r that(1)] using that(2) ih [rule_format, OF that(1)]
      by (cases "k mod (2 * n) div 2 = r") (simp_all only: if_True if_False less_Suc_eq simp_thms)
    with f show ?case by simp
  qed simp
  have "f_vec (InitArrays n d) = for_loop n ?body (replicate (4 * n) 0)" by (simp add: InitArrays_def Let_def v_def)
  also have "\<dots> = map ?spec [0..<4 * n]"
  proof (rule nth_equalityI)
    fix k assume "k < length (for_loop n ?body (replicate (4 * n) 0))"
    with inv [of n] have "k < 4 * n" by simp
    then have "k mod (2 * n) div 2 < n" by (simp add: less_mult_imp_div_less mult.commute)
    with inv [of n] \<open>k < 4 * n\<close> show "for_loop n ?body (replicate (4 * n) 0) ! k = map ?spec [0..<4 * n] ! k" by simp
  qed (use inv [of n] in simp)
  finally show ?thesis by (simp add: v_def)
qed

section \<open>Invariant\<close>

text \<open>What every operation that sets coordinates or a matrix establishes.\<close>

definition dip_inv :: "nat \<Rightarrow> Dipoles \<Rightarrow> bool" where
  "dip_inv n d \<longleftrightarrow> n_dip d = Some n \<and> is_mat (2 * n) (2 * n) (m_1 d) \<and> is_mat (2 * n) (2 * n) (m_2 d) \<and>
    f_vec d = f_vec (InitArrays n new_Dipoles) \<and> an d = param_a / of_nat n"

lemma length_f_vec [simp]: "length (f_vec (InitArrays n d)) = 4 * n"
  by (simp add: f_vec_InitArrays)

lemma dip_inv_length: "dip_inv n d \<Longrightarrow> length (f_vec d) = 4 * n"
  by (simp add: dip_inv_def)

lemma InitArrays_simps [simp]:
  "n_dip (InitArrays n d) = Some n" "an (InitArrays n d) = param_a / of_nat n"
  "is_mat (2 * n) (2 * n) (m_1 (InitArrays n d))" "is_mat (2 * n) (2 * n) (m_2 (InitArrays n d))"
  "captured (InitArrays n d) = captured d"
  by (simp_all add: InitArrays_def)

lemma dip_inv_InitArrays: "dip_inv n (InitArrays n d)"
  by (simp add: dip_inv_def f_vec_InitArrays)

text \<open>The matrices \<open>SetMatrixes\<close> leaves do not depend on the ones it finds.\<close>

definition placed :: "nat \<Rightarrow> coords \<Rightarrow> Dipoles \<Rightarrow> Dipoles" where
  "placed n xi d = d\<lparr>m_1 := mk_mat (2 * n) (2 * n) (block_ent (block_1 n (an d) xi)),
                     m_2 := mk_mat (2 * n) (2 * n) (block_ent (block_2 n (an d) xi))\<rparr>"

lemma SetMatrixes_inv:
  assumes "dip_inv n d"
  shows "SetMatrixes xi d = (if \<not> coords_readable n xi then Inl (UB ''coordinate index out of bounds'')
    else if \<not> apart n xi then Inl (NonFinite ''coinciding dipoles'') else Inr (placed n xi d))"
  using assms by (simp add: SetMatrixes_def dip_inv_def get_n_def fill_blocks_eq placed_def)

lemma dip_inv_placed: "dip_inv n d \<Longrightarrow> dip_inv n (placed n xi d)"
  by (simp add: dip_inv_def placed_def)

lemma SetMatrixes_dip_inv: "dip_inv n d \<Longrightarrow> SetMatrixes xi d = Inr d' \<Longrightarrow> dip_inv n d'"
  by (auto simp: SetMatrixes_inv dip_inv_placed split: if_splits)

lemma flat_readable [simp]: "coords_readable (length xs div 2) (Flat xs)"
  by (simp add: coords_readable_def)

lemma block_symmetric:
  assumes "a < 2" and "b < 2"
  shows "ent (block_1 n c xi i m) a b = ent (block_1 n c xi m i) b a"
    and "ent (block_2 n c xi i m) a b = ent (block_2 n c xi m i) b a"
proof -
  obtain x y where r: "TwoDVecDifference n m i xi = (x, y)" by fastforce
  then have r': "TwoDVecDifference n i m xi = (- x, - y)" by (auto simp: TwoDVecDifference_def)
  have dist: "GetDistance n i m xi = GetDistance n m i xi" by (simp add: GetDistance_def r r')
  have ab: "a = 0 \<or> a = 1" "b = 0 \<or> b = 1" using assms by auto
  have k: "ent (k_1 (x, y) R) a b = ent (k_1 (- x, - y) R) b a" "ent (k_2 R) a b = ent (k_2 R) b a"
      "ent (scaled_id v) a b = ent (scaled_id v) b a" "ent (mat_neg (scaled_id v)) a b = ent (mat_neg (scaled_id v)) b a" for R v
    using ab by (auto simp: k_1_def k_2_def scaled_id_def mat_neg_def ent_def)
  show "ent (block_1 n c xi i m) a b = ent (block_1 n c xi m i) b a"
    and "ent (block_2 n c xi i m) a b = ent (block_2 n c xi m i) b a"
    using assms k by (simp_all add: block_1_def block_2_def Let_def r r' dist)
qed

lemma placed_symmetric:
  "IsSymmetric (m_1 (placed n xi d)) = Inr True" "IsSymmetric (m_2 (placed n xi d)) = Inr True"
  by (simp_all add: placed_def IsSymmetric_square [OF mk_mat_dim] block_ent_def block_symmetric [symmetric])

section \<open>Solving by halves\<close>

text \<open>What the LU decomposition promises for one matrix, and that the matrix is not singular.\<close>

definition solves :: "lu_solver \<Rightarrow> matrix \<Rightarrow> bool" where
  "solves lu A \<longleftrightarrow> (\<forall>b. length b = length A \<longrightarrow> length (lu A b) = length A \<and> mat_vec A (lu A b) = b)"

definition nonsingular :: "matrix \<Rightarrow> bool" where
  "nonsingular A \<longleftrightarrow> (\<forall>x y. length x = length A \<longrightarrow> length y = length A \<longrightarrow> mat_vec A x = mat_vec A y \<longrightarrow> x = y)"

lemma GetMatrixx_blocks:
  assumes "dip_inv n d"
  shows "\<exists>A. GetMatrixx d = Inr A \<and> is_mat (4 * n) (4 * n) A \<and>
    (\<forall>s1 s2. length s1 = 2 * n \<longrightarrow> length s2 = 2 * n \<longrightarrow>
      mat_vec A (s1 @ s2) = vec_sub (mat_vec (m_1 d) s1) (mat_vec (m_2 d) s2)
                          @ vec_add (mat_vec (m_2 d) s1) (mat_vec (m_1 d) s2))"
proof -
  let ?f = "\<lambda>i j. if i < 2 * n then (if j < 2 * n then ent (m_1 d) i j else ent (mat_neg (m_2 d)) i (j - 2 * n))
     else (if j < 2 * n then ent (m_2 d) (i - 2 * n) j else ent (m_1 d) (i - 2 * n) (j - 2 * n))"
  let ?A = "mk_mat (4 * n) (4 * n) ?f"
  from assms have m: "is_mat (2 * n) (2 * n) (m_1 d)" "is_mat (2 * n) (2 * n) (m_2 d)" by (simp_all add: dip_inv_def)
  have A: "GetMatrixx d = Inr ?A" using assms by (simp add: GetMatrixx_def get_n_def dip_inv_def)
  have "mat_vec ?A (s1 @ s2) = vec_sub (mat_vec (m_1 d) s1) (mat_vec (m_2 d) s2)
      @ vec_add (mat_vec (m_2 d) s1) (mat_vec (m_1 d) s2)" (is "?l = ?r1 @ ?r2")
    if s: "length s1 = 2 * n" "length s2 = 2 * n" for s1 s2
  proof (rule nth_equalityI)
    have len: "length (mat_vec (m_1 d) x) = 2 * n" "length (mat_vec (m_2 d) x) = 2 * n" for x
      using m by (simp_all add: is_mat_length)
    have r1: "length ?r1 = 2 * n" by (rule length_vec_sub) (rule len)+
    show "length ?l = length (?r1 @ ?r2)" using m by (simp add: vec_sub_def vec_add_def is_mat_length)
    fix i assume "i < length ?l"
    then have i: "i < 4 * n" by simp
    have split: "(\<Sum>k<4 * n. g k) = (\<Sum>k<2 * n. g k) + (\<Sum>k<2 * n. g (2 * n + k))" for g :: "nat \<Rightarrow> real"
      using sum_lessThan_add [of g "2 * n" "2 * n"] by simp
    have "?l ! i = (\<Sum>k<2 * n. ?f i k * s1 ! k) + (\<Sum>k<2 * n. ?f i (2 * n + k) * s2 ! k)"
      using i s by (simp add: nth_mat_vec [OF mk_mat_dim] split nth_append del: mult_Suc_right)
    also have "\<dots> = (?r1 @ ?r2) ! i"
    proof (cases "i < 2 * n")
      case True
      with s m show ?thesis
        by (simp add: nth_append is_mat_length r1 nth_vec_sub [of _ "2 * n"] nth_mat_vec [OF m(1)] nth_mat_vec [OF m(2)] sum_negf)
    next
      case False
      with i have "i - 2 * n < 2 * n" by simp
      with False s m show ?thesis
        by (simp add: nth_append is_mat_length r1 nth_vec_add [of _ "2 * n"] nth_mat_vec [OF m(1)] nth_mat_vec [OF m(2)])
    qed
    finally show "?l ! i = (?r1 @ ?r2) ! i" .
  qed
  with A show ?thesis by (intro exI [of _ ?A]) simp
qed

lemma halves_identity:
  assumes A: "is_mat N N A" and B: "is_mat N N B" and pos: "0 < N" and commute: "mat_mul A B = mat_mul B A"
    and len: "length f1 = N" "length f2 = N" "length x1 = N" "length x2 = N"
    and S: "S = mat_add (mat_mul A A) (mat_mul B B)" and ns: "nonsingular S"
    and e1: "mat_vec S x1 = vec_add (mat_vec A f1) (mat_vec B f2)"
    and e2: "mat_vec S x2 = vec_sub (mat_vec A f2) (mat_vec B f1)"
  shows "vec_sub (mat_vec A x1) (mat_vec B x2) = f1" and "vec_add (mat_vec B x1) (mat_vec A x2) = f2"
proof -
  note mul = is_mat_mul [OF _ _ pos]
  have dimS: "is_mat N N S" unfolding S by (intro is_mat_add mul A B)
  have lenA: "length (mat_vec A v) = N" and lenB: "length (mat_vec B v) = N" and lenS: "length (mat_vec S v) = N" for v
    using A B dimS by (simp_all add: is_mat_length)
  have com: "mat_vec A (mat_vec B v) = mat_vec B (mat_vec A v)" if "length v = N" for v
    using commute mat_vec_mul [OF A B pos that] mat_vec_mul [OF B A pos that] by simp
  have Sv: "mat_vec S v = vec_add (mat_vec A (mat_vec A v)) (mat_vec B (mat_vec B v))" if "length v = N" for v
    unfolding S using that
    by (simp add: mat_vec_mat_add [OF mul [OF A A] mul [OF B B]] mat_vec_mul [OF A A pos] mat_vec_mul [OF B B pos])
  note lin = mat_vec_add [OF A] mat_vec_sub [OF A] mat_vec_add [OF B] mat_vec_sub [OF B]
  note lens = length_vec_add [of _ N] length_vec_sub [of _ N] lenA lenB len
  note entry = nth_vec_add [of _ N] nth_vec_sub [of _ N]
  have comA: "mat_vec S (mat_vec A v) = mat_vec A (mat_vec S v)" and comB: "mat_vec S (mat_vec B v) = mat_vec B (mat_vec S v)"
    if "length v = N" for v
    using that by (simp_all only: Sv lin lens com)
  have Sadd: "mat_vec S (vec_add v w) = vec_add (mat_vec S v) (mat_vec S w)"
    and Ssub: "mat_vec S (vec_sub v w) = vec_sub (mat_vec S v) (mat_vec S w)" if "length v = N" "length w = N" for v w
    using that mat_vec_add [OF dimS] mat_vec_sub [OF dimS] by simp_all
  have "mat_vec S (vec_sub (mat_vec A x1) (mat_vec B x2)) = mat_vec S f1"
  proof -
    have "mat_vec S (vec_sub (mat_vec A x1) (mat_vec B x2)) =
        vec_sub (vec_add (mat_vec A (mat_vec A f1)) (mat_vec A (mat_vec B f2)))
          (vec_sub (mat_vec B (mat_vec A f2)) (mat_vec B (mat_vec B f1)))"
      by (simp only: Ssub lens comA comB e1 e2 lin)
    also have "\<dots> = mat_vec S f1" unfolding Sv [OF len(1)] com [OF len(2)]
      by (rule nth_equalityI) (simp_all add: lens entry del: length_mat_vec)
    finally show ?thesis .
  qed
  then show "vec_sub (mat_vec A x1) (mat_vec B x2) = f1"
    by (rule ns [unfolded nonsingular_def, rule_format, rotated 2]) (simp_all only: lens is_mat_length [OF dimS])
  have "mat_vec S (vec_add (mat_vec B x1) (mat_vec A x2)) = mat_vec S f2"
  proof -
    have "mat_vec S (vec_add (mat_vec B x1) (mat_vec A x2)) =
        vec_add (vec_add (mat_vec B (mat_vec A f1)) (mat_vec B (mat_vec B f2)))
          (vec_sub (mat_vec A (mat_vec A f2)) (mat_vec A (mat_vec B f1)))"
      by (simp only: Sadd lens comA comB e1 e2 lin)
    also have "\<dots> = mat_vec S f2" unfolding Sv [OF len(2)] com [OF len(1)]
      by (rule nth_equalityI) (simp_all add: lens entry del: length_mat_vec)
    finally show ?thesis .
  qed
  then show "vec_add (mat_vec B x1) (mat_vec A x2) = f2"
    by (rule ns [unfolded nonsingular_def, rule_format, rotated 2]) (simp_all only: lens is_mat_length [OF dimS])
qed

lemma solve_full:
  assumes inv: "dip_inv n d" and pos: "0 < n" and commute: "mat_mul (m_1 d) (m_2 d) = mat_mul (m_2 d) (m_1 d)"
    and lu: "solves lu (normal_matrix d)" and ns: "nonsingular (normal_matrix d)"
  shows "\<exists>A x. GetMatrixx d = Inr A \<and> Solve_EigenVec lu d = Inr x \<and> length x = 4 * n \<and>
    mat_vec A x = GetRightPart d"
proof -
  let ?A = "m_1 d" and ?B = "m_2 d"
  let ?f1 = "take (2 * n) (f_vec d)" and ?f2 = "take (2 * n) (drop (2 * n) (f_vec d))"
  let ?x1 = "lu (normal_matrix d) (vec_add (mat_vec ?A ?f1) (mat_vec ?B ?f2))"
  let ?x2 = "lu (normal_matrix d) (vec_sub (mat_vec ?A ?f2) (mat_vec ?B ?f1))"
  from inv have m: "is_mat (2 * n) (2 * n) ?A" "is_mat (2 * n) (2 * n) ?B" by (simp_all add: dip_inv_def)
  have pos2: "0 < 2 * n" using pos by simp
  have S: "is_mat (2 * n) (2 * n) (normal_matrix d)"
    unfolding normal_matrix_def by (intro is_mat_add is_mat_mul [OF _ _ pos2] m)
  have lenf: "length ?f1 = 2 * n" "length ?f2 = 2 * n" using dip_inv_length [OF inv] by simp_all
  have lenm: "length (mat_vec ?A v) = 2 * n" "length (mat_vec ?B v) = 2 * n" for v using m by (simp_all add: is_mat_length)
  have x1: "length ?x1 = 2 * n" "mat_vec (normal_matrix d) ?x1 = vec_add (mat_vec ?A ?f1) (mat_vec ?B ?f2)"
    and x2: "length ?x2 = 2 * n" "mat_vec (normal_matrix d) ?x2 = vec_sub (mat_vec ?A ?f2) (mat_vec ?B ?f1)"
    using lu length_vec_add [OF lenm(1,2)] length_vec_sub [OF lenm(1,2)]
    unfolding solves_def is_mat_length [OF S] by blast+
  note id = halves_identity [OF m pos2 commute lenf x1(1) x2(1) normal_matrix_def ns x1(2) x2(2)]
  from GetMatrixx_blocks [OF inv] x1(1) x2(1) obtain A
    where A: "GetMatrixx d = Inr A" "mat_vec A (?x1 @ ?x2) = ?f1 @ ?f2" using id by auto
  have "?f1 @ ?f2 = take (2 * n + 2 * n) (f_vec d)" by (simp only: take_add)
  then have "?f1 @ ?f2 = f_vec d" using dip_inv_length [OF inv] by simp
  moreover have "Solve_EigenVec lu d = Inr (?x1 @ ?x2)"
    using inv by (simp add: Solve_EigenVec_def Solve_halves_def get_n_def dip_inv_def Let_def)
  ultimately show ?thesis using A x1(1) x2(1) by (intro exI [of _ A] exI [of _ "?x1 @ ?x2"]) (simp add: GetRightPart_def)
qed

text \<open>With at most two dipoles the blocks commute.\<close>

lemma mat_22: "mk_mat 2 2 f = [[f 0 0, f 0 1], [f 1 0, f 1 1]]"
  by (simp add: mk_mat_def upt_rec)

lemma mat_44: "mk_mat 4 4 f = [[f 0 0, f 0 1, f 0 2, f 0 3], [f 1 0, f 1 1, f 1 2, f 1 3],
    [f 2 0, f 2 1, f 2 2, f 2 3], [f 3 0, f 3 1, f 3 2, f 3 3]]"
  by (simp add: mk_mat_def upt_rec numeral_2_eq_2 numeral_3_eq_3)

lemma mat_mul_22:
  "mat_mul [[a, b], [c, d]] [[e, f], [g, h]] = [[a * e + b * g, a * f + b * h], [c * e + d * g, c * f + d * h]]"
  by (simp add: mat_mul_def mat_cols_def mk_mat_def dot_def)

lemma commute_44:
  fixes D E K L M K' L' M' :: real
  assumes "K * L' + L * M' = K' * L + L' * M"
  shows "mat_mul [[D, 0, K, L], [0, D, L, M], [K, L, D, 0], [L, M, 0, D]]
      [[E, 0, K', L'], [0, E, L', M'], [K', L', E, 0], [L', M', 0, E]] =
    mat_mul [[E, 0, K', L'], [0, E, L', M'], [K', L', E, 0], [L', M', 0, E]]
      [[D, 0, K, L], [0, D, L, M], [K, L, D, 0], [L, M, 0, D]]"
  using assms by (simp add: mat_mul_def mat_cols_def mk_mat_def dot_def algebra_simps)

lemma small_commute:
  assumes "n \<le> 2" and "0 < n"
  shows "mat_mul (m_1 (placed n xi d)) (m_2 (placed n xi d)) = mat_mul (m_2 (placed n xi d)) (m_1 (placed n xi d))"
proof -
  from assms consider "n = 1" | "n = 2" by linarith
  then show ?thesis
  proof cases
    case 1
    then show ?thesis
      by (simp add: placed_def mat_22 block_ent_def block_1_def block_2_def scaled_id_def mat_neg_def ent_def mat_mul_22)
  next
    case 2
    obtain x y where r: "TwoDVecDifference 2 (Suc 0) 0 xi = (x, y)" by fastforce
    then have r': "TwoDVecDifference 2 0 (Suc 0) xi = (- x, - y)" by (auto simp: TwoDVecDifference_def)
    have dist: "GetDistance 2 0 (Suc 0) xi = GetDistance 2 (Suc 0) 0 xi" by (simp add: GetDistance_def r r')
    let ?b = "- an d" and ?R = "GetDistance 2 (Suc 0) 0 xi"
    let ?t = "param_omega * ?R / param_c"
    define p q s u co si where "p = 3 * x * x / ?R ^ 5 - 1 / ?R ^ 3" and "q = 3 * x * y / ?R ^ 5"
      and "s = 3 * y * y / ?R ^ 5 - 1 / ?R ^ 3" and "u = param_omega / (param_c * ?R ^ 2)"
      and "co = cos ?t" and "si = sin ?t"
    define D E where "D = param_omega0 * param_omega0 - param_omega * param_omega" and "E = - (param_yo * param_omega)"
    have m1: "m_1 (placed n xi d) = [[D, 0, ?b * (p * co - u * si), ?b * (q * co - 0 * si)],
        [0, D, ?b * (q * co - 0 * si), ?b * (s * co - u * si)],
        [?b * (p * co - u * si), ?b * (q * co - 0 * si), D, 0],
        [?b * (q * co - 0 * si), ?b * (s * co - u * si), 0, D]]"
      using 2 by (simp add: placed_def mat_44 block_ent_def block_1_def Let_def r r' dist mat_22 scaled_id_def ent_def
          k_1_def k_2_def D_def p_def q_def s_def u_def co_def si_def)
    have m2: "m_2 (placed n xi d) = [[E, 0, ?b * (u * co + p * si), ?b * (0 * co + q * si)],
        [0, E, ?b * (0 * co + q * si), ?b * (u * co + s * si)],
        [?b * (u * co + p * si), ?b * (0 * co + q * si), E, 0],
        [?b * (0 * co + q * si), ?b * (u * co + s * si), 0, E]]"
      using 2 by (simp add: placed_def mat_44 block_ent_def block_2_def Let_def r r' dist mat_22 scaled_id_def ent_def
          mat_neg_def k_1_def k_2_def E_def p_def q_def s_def u_def co_def si_def)
    show ?thesis unfolding m1 m2 by (rule commute_44) (simp add: algebra_simps)
  qed
qed

lemma Dipoles_of_Flat:
  "Dipoles_of (Flat xs) = (let n = length xs div 2 in if apart n (Flat xs)
     then Inr (placed n (Flat xs) (InitArrays n new_Dipoles)) else Inl (NonFinite ''coinciding dipoles''))"
  by (simp add: Dipoles_of_def SetMatrixes_inv [OF dip_inv_InitArrays] Let_def)

lemma Dipoles_of_Flat_inv: "Dipoles_of (Flat xs) = Inr d \<Longrightarrow> dip_inv (length xs div 2) d"
  by (auto simp: Dipoles_of_Flat Let_def dip_inv_placed dip_inv_InitArrays split: if_splits)

section \<open>The intensity as a square\<close>

text \<open>The quadratic form of the amplitudes, which the triangular double loop accumulates.\<close>

definition direction_spec :: "coords \<Rightarrow> real list \<Rightarrow> real \<Rightarrow> real \<Rightarrow> real" where
  "direction_spec xi sol phi theta =
    (let n = coords_size xi div 2; p = term_i xi sol n phi theta;
         total = (\<lambda>f. (\<Sum>i<n. f (p i)) ^ 2)
     in pi * 2 / param_omega * param_omega ^ 4 / 2 *
       (total (fst \<circ> t_pc1) + total (snd \<circ> t_pc1) + total (fst \<circ> t_ps1) + total (snd \<circ> t_ps1)
        + 2 * (total (fst \<circ> t_pcom) + total (snd \<circ> t_pcom))
        + (sin theta * cos theta) ^ 2 * (total t_pc + total t_ps)))"

lemma triangle_square:
  "(\<Sum>i<(n :: nat). (\<Sum>j<i. h i * h j) + h i * h i / 2) = (\<Sum>i<n. h i :: real) ^ 2 / 2"
  by (induction n) (simp_all add: sum_distrib_left [symmetric] power2_eq_square algebra_simps)

lemma add2_fst_snd: "add2 p q = (fst p + fst q, snd p + snd q)"
  and scale2_fst_snd: "scale2 k p = (k * fst p, k * snd p)"
  and cwise2_fst_snd: "cwise2 p q = (fst p * fst q, snd p * snd q)"
  and sum2_fst_snd: "sum2 p = fst p + snd p"
  by (cases p; cases q; simp)+

lemma loop_sums:
  "for_loop k (\<lambda>j (r, z). (add2 r (f j), z + g j)) ((a, b), c :: real) =
    ((a + (\<Sum>j<k. fst (f j)), b + (\<Sum>j<k. snd (f j))), c + (\<Sum>j<k. g j))"
  by (induction k) (simp_all add: add2_fst_snd add.assoc)

lemma double_loop_sums:
  "for_loop n (\<lambda>i (r, z). let (r, z) = for_loop i (\<lambda>j (r, z). (add2 r (f i j), z + g i j)) (r, z)
      in (add2 r (scale2 (1 / 2) (f' i)), z + g' i / 2)) ((a, b), c :: real) =
    ((a + (\<Sum>i<n. (\<Sum>j<i. fst (f i j)) + fst (f' i) / 2), b + (\<Sum>i<n. (\<Sum>j<i. snd (f i j)) + snd (f' i) / 2)),
     c + (\<Sum>i<n. (\<Sum>j<i. g i j) + g' i / 2))"
  by (induction n) (simp_all add: loop_sums, simp add: add2_fst_snd scale2_fst_snd add.assoc)

lemma direction_graph_eq:
  assumes "\<And>i j. j < i \<Longrightarrow> i < coords_size xi div 2 \<Longrightarrow>
    term_j xi sol (coords_size xi div 2) phi theta i j = term_i xi sol (coords_size xi div 2) phi theta j"
  shows "i_2_function_value xi sol phi theta = direction_spec xi sol phi theta"
proof -
  define n where "n = coords_size xi div 2"
  let ?p = "term_i xi sol n phi theta" and ?q = "term_j xi sol n phi theta"
  have sq: "(\<Sum>i<n. (\<Sum>j<i. h (?p i) * h (?q i j)) + h (?p i) * h (?p i) / 2) = (\<Sum>i<n. h (?p i)) ^ 2 / 2"
    for h :: "dipole_terms \<Rightarrow> real"
  proof -
    have "(\<Sum>j<i. h (?p i) * h (?q i j)) = (\<Sum>j<i. h (?p i) * h (?p j))" if "i < n" for i
      using that assms by (intro sum.cong) (simp_all add: n_def)
    then show ?thesis by (simp add: triangle_square [symmetric])
  qed
  have xy: "(\<Sum>i<n. (\<Sum>j<i. sel (cross_xy (?p i) (?q i j))) + sel (cross_xy (?p i) (?p i)) / 2) =
      ((\<Sum>i<n. sel (t_pc1 (?p i))) ^ 2 + (\<Sum>i<n. sel (t_ps1 (?p i))) ^ 2 + 2 * (\<Sum>i<n. sel (t_pcom (?p i))) ^ 2) / 2"
    if "sel = fst \<or> sel = snd" for sel :: "vec2 \<Rightarrow> real"
  proof -
    have c: "sel (cross_xy a b) = sel (t_pc1 a) * sel (t_pc1 b) + sel (t_ps1 a) * sel (t_ps1 b) +
        2 * (sel (t_pcom a) * sel (t_pcom b))" for a b
      using that by (auto simp: cross_xy_def add2_fst_snd cwise2_fst_snd scale2_fst_snd)
    have "(\<Sum>i<n. (\<Sum>j<i. sel (cross_xy (?p i) (?q i j))) + sel (cross_xy (?p i) (?p i)) / 2) =
        (\<Sum>i<n. (\<Sum>j<i. sel (t_pc1 (?p i)) * sel (t_pc1 (?q i j))) + sel (t_pc1 (?p i)) * sel (t_pc1 (?p i)) / 2) +
        (\<Sum>i<n. (\<Sum>j<i. sel (t_ps1 (?p i)) * sel (t_ps1 (?q i j))) + sel (t_ps1 (?p i)) * sel (t_ps1 (?p i)) / 2) +
        2 * (\<Sum>i<n. (\<Sum>j<i. sel (t_pcom (?p i)) * sel (t_pcom (?q i j))) + sel (t_pcom (?p i)) * sel (t_pcom (?p i)) / 2)"
      unfolding c sum_distrib_left sum.distrib [symmetric]
      by (intro sum.cong refl) (simp add: sum.distrib sum_distrib_left algebra_simps)
    then show ?thesis by (simp only: sq [of "\<lambda>t. sel (t_pc1 t)"] sq [of "\<lambda>t. sel (t_ps1 t)"] sq [of "\<lambda>t. sel (t_pcom t)"])
        (simp add: algebra_simps)
  qed
  have z: "(\<Sum>i<n. (\<Sum>j<i. cross_z (?p i) (?q i j)) + cross_z (?p i) (?p i) / 2) =
      ((\<Sum>i<n. t_pc (?p i)) ^ 2 + (\<Sum>i<n. t_ps (?p i)) ^ 2) / 2"
  proof -
    have "(\<Sum>i<n. (\<Sum>j<i. cross_z (?p i) (?q i j)) + cross_z (?p i) (?p i) / 2) =
        (\<Sum>i<n. (\<Sum>j<i. t_pc (?p i) * t_pc (?q i j)) + t_pc (?p i) * t_pc (?p i) / 2) +
        (\<Sum>i<n. (\<Sum>j<i. t_ps (?p i) * t_ps (?q i j)) + t_ps (?p i) * t_ps (?p i) / 2)"
      unfolding cross_z_def sum.distrib [symmetric]
      by (intro sum.cong refl) (simp add: sum.distrib algebra_simps)
    then show ?thesis by (simp only: sq [of t_pc] sq [of t_ps]) simp
  qed
  note vals = xy [of fst, OF disjI1 [OF refl]] xy [of snd, OF disjI2 [OF refl]] z
  define s1 s2 s3 s4 s5 s6 s7 s8 where "s1 = (\<Sum>i<n. fst (t_pc1 (?p i))) ^ 2" and "s2 = (\<Sum>i<n. fst (t_ps1 (?p i))) ^ 2"
    and "s3 = (\<Sum>i<n. fst (t_pcom (?p i))) ^ 2" and "s4 = (\<Sum>i<n. snd (t_pc1 (?p i))) ^ 2"
    and "s5 = (\<Sum>i<n. snd (t_ps1 (?p i))) ^ 2" and "s6 = (\<Sum>i<n. snd (t_pcom (?p i))) ^ 2"
    and "s7 = (\<Sum>i<n. t_pc (?p i)) ^ 2" and "s8 = (\<Sum>i<n. t_ps (?p i)) ^ 2"
  note abbr = s1_def [symmetric] s2_def [symmetric] s3_def [symmetric] s4_def [symmetric]
    s5_def [symmetric] s6_def [symmetric] s7_def [symmetric] s8_def [symmetric]
  have "i_2_function_value xi sol phi theta =
      sum2 (scale2 (pi * 2 / param_omega * param_omega ^ 2 * param_omega ^ 2) ((s1 + s2 + 2 * s3) / 2, (s4 + s5 + 2 * s6) / 2))
      + (s7 + s8) / 2 * (pi * 2 / param_omega) * (param_omega ^ 2 * param_omega ^ 2 * (sin theta * cos theta) ^ 2)"
    unfolding i_2_function_value_def Let_def n_def [symmetric]
    by (simp only: double_loop_sums [unfolded Let_def] prod.case vals abbr add_0)
  also have "\<dots> = pi * 2 / param_omega * param_omega ^ 4 / 2 *
      (s1 + s4 + s2 + s5 + 2 * (s3 + s6) + (sin theta * cos theta) ^ 2 * (s7 + s8))"
  proof -
    have "param_omega ^ 4 = param_omega ^ 2 * param_omega ^ 2" by (simp flip: power_add)
    then show ?thesis by (simp add: algebra_simps add_divide_distrib)
  qed
  also have "\<dots> = direction_spec xi sol phi theta"
    unfolding direction_spec_def Let_def n_def [symmetric] by (simp only: comp_def abbr)
  finally show ?thesis .
qed

section \<open>Properties\<close>

text \<open>C11: solving by halves gives a solution of the full \<open>4n\<close>-dimensional system whenever the
two blocks commute, the LU decomposition solves its half-size system and that system is not
singular; the halves have the right sizes.\<close>

theorem solve_full_system:
  assumes "dip_inv n d" and "0 < n" and "mat_mul (m_1 d) (m_2 d) = mat_mul (m_2 d) (m_1 d)"
    and "solves lu (normal_matrix d)" and "nonsingular (normal_matrix d)"
  shows "\<exists>A x. GetMatrixx d = Inr A \<and> Solve_EigenVec lu d = Inr x \<and> length x = 4 * n \<and>
    mat_vec A x = GetRightPart d"
  by (rule solve_full [OF assms])

definition sample_system :: matrix where
  "sample_system = [[1, 0, 0, 0], [0, 1, 0, 0], [0, 0, 1, 0], [0, 0, 0, 1]]"

lemma mat_2: "mk_mat (Suc (Suc 0)) (Suc (Suc 0)) f = [[f 0 0, f 0 1], [f 1 0, f 1 1]]"
  by (simp add: mk_mat_def)

lemma LoadFromMatrix_4:
  "LoadFromMatrix [[a, b, a2, b2], [c, e, c2, e2], [f, g, f2, g2], [h, k, h2, k2]] d =
    Inr ((InitArrays 1 d)\<lparr>m_1 := [[a, b], [c, e]], m_2 := [[f, g], [h, k]]\<rparr>)"
  by (simp add: LoadFromMatrix_def mat_cols_def block_def mat_2 mat_22 ent_def Let_def)

lemma f_vec_1: "f_vec (InitArrays (Suc 0) d) = [1, 0, 0, 1]"
  by (simp add: f_vec_InitArrays upt_rec param_a_def param_eps_def)

lemma loaded_inv:
  "dip_inv 1 ((InitArrays 1 new_Dipoles)\<lparr>m_1 := [[a, b], [c, e]], m_2 := [[f, g], [h, k]]\<rparr>)"
  by (simp add: dip_inv_def is_mat_def)

theorem solve_full_system_witness:
  "\<exists>d A x. LoadFromMatrix sample_system new_Dipoles = Inr d \<and> GetMatrixx d = Inr A \<and>
    Solve_EigenVec (\<lambda>A b. b) d = Inr x \<and> mat_vec A x = GetRightPart d"
proof -
  let ?d = "(InitArrays 1 new_Dipoles)\<lparr>m_1 := [[1, 0], [0, 1]], m_2 := [[0, 0], [0, 0]]\<rparr>"
  have n: "normal_matrix ?d = [[1, 0], [0, 1]]" by (simp add: normal_matrix_def mat_mul_22 mat_add_def)
  have id: "mat_vec [[1, 0], [0, 1]] b = b" if "length b = 2" for b :: "real list"
  proof -
    from that obtain u v where "b = [u, v]" by (auto simp: numeral_2_eq_2 length_Suc_conv)
    then show ?thesis by (simp add: mat_vec_def dot_def)
  qed
  have "LoadFromMatrix sample_system new_Dipoles = Inr ?d" by (simp only: sample_system_def LoadFromMatrix_4)
  moreover have "\<exists>A x. GetMatrixx ?d = Inr A \<and> Solve_EigenVec (\<lambda>A b. b) ?d = Inr x \<and> length x = 4 * 1 \<and>
    mat_vec A x = GetRightPart ?d"
    by (rule solve_full_system [OF loaded_inv]) (simp, simp add: mat_mul_22, simp_all only: n, simp_all add: solves_def nonsingular_def id)
  ultimately show ?thesis by blast
qed


text \<open>C12: the matrices of placed dipoles are symmetric, and for one or two dipoles in different
places their blocks commute, so that solving by halves solves the whole system.\<close>

theorem placed_dipoles_solved:
  assumes "Dipoles_of (Flat xs) = Inr d" and "n = length xs div 2"
  shows "IsSymmetric (m_1 d) = Inr True \<and> IsSymmetric (m_2 d) = Inr True \<and> dip_inv n d \<and>
    (0 < n \<and> n \<le> 2 \<and> solves lu (normal_matrix d) \<and> nonsingular (normal_matrix d) \<longrightarrow>
      (\<exists>A x. GetMatrixx d = Inr A \<and> Solve_EigenVec lu d = Inr x \<and> length x = 4 * n \<and> mat_vec A x = GetRightPart d))"
proof -
  from assms have d: "d = placed n (Flat xs) (InitArrays n new_Dipoles)"
    by (simp add: Dipoles_of_Flat Let_def split: if_splits)
  have inv: "dip_inv n d" using Dipoles_of_Flat_inv [OF assms(1)] assms(2) by simp
  show ?thesis
    using solve_full [OF inv] small_commute [of n "Flat xs" "InitArrays n new_Dipoles", folded d]
      placed_symmetric [of n "Flat xs" "InitArrays n new_Dipoles", folded d] inv
    by blast
qed

lemma apart_1 [simp]: "apart (Suc 0) xi"
  by (simp add: apart_def)

theorem placed_dipoles_solved_witness:
  "\<exists>d. Dipoles_of (Flat [3, 4]) = Inr d \<and> dip_inv 1 d"
proof -
  obtain d where d: "Dipoles_of (Flat [3, 4]) = Inr d" by (simp add: Dipoles_of_Flat)
  from placed_dipoles_solved [OF d, of 1] show ?thesis using d by simp
qed

lemma reuse_fresh:
  assumes "dip_inv k d"
  shows "SetNewCoordinates (Flat xs) d = rbind (Dipoles_of (Flat xs)) (\<lambda>d'. Inr (d'\<lparr>captured := captured d\<rparr>))"
proof -
  let ?n = "length xs div 2"
  let ?e = "if length (f_vec d) \<noteq> length xs * 2 then InitArrays ?n d else d"
  have e: "dip_inv ?n ?e"
  proof (cases "length (f_vec d) = length xs * 2")
    case True
    then have "k = ?n" using dip_inv_length [OF assms] by linarith
    with True assms show ?thesis by simp
  qed (simp add: dip_inv_InitArrays)
  have "captured ?e = captured d" by simp
  then have "placed ?n xi ?e = (placed ?n xi (InitArrays ?n new_Dipoles))\<lparr>captured := captured d\<rparr>" for xi
    using e by (simp add: placed_def dip_inv_def)
  moreover have "SetNewCoordinates (Flat xs) d = SetMatrixes (Flat xs) ?e" by (simp add: SetNewCoordinates_def)
  ultimately show ?thesis by (simp add: SetMatrixes_inv [OF e] Dipoles_of_Flat Let_def)
qed

text \<open>C14: giving new coordinates to a used object leaves it as a newly constructed one, whatever
matrices and sizes it held before (the captured arguments of its functions are kept).\<close>

theorem reuse_equals_fresh:
  assumes "dip_inv k d"
  shows "SetNewCoordinates (Flat xs) d = rbind (Dipoles_of (Flat xs)) (\<lambda>d'. Inr (d'\<lparr>captured := captured d\<rparr>))"
  by (rule reuse_fresh [OF assms])

theorem reuse_equals_fresh_witness:
  "SetNewCoordinates (Flat [3, 4]) (InitArrays 2 new_Dipoles) =
    rbind (Dipoles_of (Flat [3, 4])) (\<lambda>d'. Inr (d'\<lparr>captured := None\<rparr>))"
  using reuse_equals_fresh [OF dip_inv_InitArrays, of "[3, 4]" 2 new_Dipoles] by (simp add: new_Dipoles_def)

text \<open>Loading the matrix of a system gives back its two blocks and its right-hand side,
whatever the loading object held.\<close>

theorem load_round_trip:
  assumes "dip_inv n d" and "0 < n"
  shows "\<exists>A d'. GetMatrixx d = Inr A \<and> LoadFromMatrix A e = Inr d' \<and> m_1 d' = m_1 d \<and> m_2 d' = m_2 d \<and>
    GetRightPart d' = GetRightPart d \<and> dip_inv n d'"
proof -
  let ?f = "\<lambda>i j. if i < 2 * n then (if j < 2 * n then ent (m_1 d) i j else ent (mat_neg (m_2 d)) i (j - 2 * n))
     else (if j < 2 * n then ent (m_2 d) (i - 2 * n) j else ent (m_1 d) (i - 2 * n) (j - 2 * n))"
  let ?A = "mk_mat (4 * n) (4 * n) ?f"
  from assms have m: "is_mat (2 * n) (2 * n) (m_1 d)" "is_mat (2 * n) (2 * n) (m_2 d)" by (simp_all add: dip_inv_def)
  have A: "GetMatrixx d = Inr ?A" using assms by (simp add: GetMatrixx_def get_n_def dip_inv_def)
  have cols: "mat_cols ?A = 4 * n" by (rule is_mat_cols [OF mk_mat_dim]) (use assms(2) in simp)
  have b1: "block 0 0 (2 * n) (2 * n) ?A = m_1 d" by (rule mat_eqI [OF is_mat_block m(1)]) simp
  have b2: "block (2 * n) 0 (2 * n) (2 * n) ?A = m_2 d" by (rule mat_eqI [OF is_mat_block m(2)]) simp
  let ?d = "(InitArrays n e)\<lparr>m_1 := m_1 d, m_2 := m_2 d\<rparr>"
  have "LoadFromMatrix ?A e = Inr ?d" unfolding LoadFromMatrix_def Let_def length_mk_mat cols using b1 b2 by simp
  moreover have "dip_inv n ?d" using m by (simp add: dip_inv_def f_vec_InitArrays)
  ultimately show ?thesis using A assms(1)
    by (intro exI [of _ ?A] exI [of _ ?d]) (simp add: GetRightPart_def dip_inv_def)
qed

theorem load_round_trip_witness:
  "\<exists>A d'. GetMatrixx (InitArrays 3 new_Dipoles) = Inr A \<and> LoadFromMatrix A new_Dipoles = Inr d' \<and> dip_inv 3 d'"
  using load_round_trip [OF dip_inv_InitArrays, of 3 new_Dipoles new_Dipoles] by auto



lemma elem_zeros: "elem (Flat [0, 0, 0, 0]) 0 i 2 = 0" "elem (Flat [0, 0, 0, 0]) 1 i 2 = 0" if "i < 2"
  using that by (auto simp: less_2_cases_iff)

text \<open>With two dipoles and quadrature coefficients the code deviates from the quadratic form:
the cross term multiplies the amplitude of the other dipole with the wrong coefficient vector.\<close>

theorem direction_graph_defect:
  "i_2_function_value (Flat [0, 0, 0, 0]) [1, 0, 1, 0, 0, 1, 0, 2] 0 (pi / 2) -
     direction_spec (Flat [0, 0, 0, 0]) [1, 0, 1, 0, 0, 1, 0, 2] 0 (pi / 2)
   = pi * 2 / param_omega * param_omega ^ 4 * 4 * (param_omega / param_c) ^ 2"
proof -
  let ?xi = "Flat [0, 0, 0, 0]" and ?sol = "[1, 0, 1, 0, 0, 1, 0, 2] :: real list"
  define k where "k = param_omega / param_c"
  have s: "coef_A ?sol 0 = (1, 0)" "coef_A ?sol (Suc 0) = (1, 0)" "coef_b ?sol 2 0 = (0, 1)" "coef_b ?sol 2 (Suc 0) = (0, 2)"
    "coef_bj ?sol 2 0 = (0, 1)"
    by (simp_all add: coef_A_def coef_b_def coef_bj_def numeral_eq_Suc)
  have t: "terms_of ?xi 2 0 (pi / 2) i (a, 0) (0, b) (0, e) =
      \<lparr>t_pc1 = (0, 0), t_ps1 = (0, - b), t_pcom = (0, k * (a * e)), t_pc = a, t_ps = 0\<rparr>" if "i < 2" for i a b e
    unfolding terms_of_def Let_def elem_zeros [OF that] by (simp add: k_def)
  have i: "term_i ?xi ?sol 2 0 (pi / 2) 0 = \<lparr>t_pc1 = (0, 0), t_ps1 = (0, - 1), t_pcom = (0, k), t_pc = 1, t_ps = 0\<rparr>"
      "term_i ?xi ?sol 2 0 (pi / 2) (Suc 0) = \<lparr>t_pc1 = (0, 0), t_ps1 = (0, - 2), t_pcom = (0, k * 2), t_pc = 1, t_ps = 0\<rparr>"
      "term_j ?xi ?sol 2 0 (pi / 2) (Suc 0) 0 = \<lparr>t_pc1 = (0, 0), t_ps1 = (0, - 1), t_pcom = (0, k * 2), t_pc = 1, t_ps = 0\<rparr>"
    by (simp_all add: term_i_def term_j_def s t)
  have L: "for_loop 2 F st = F (Suc 0) (F 0 st)" for F :: "nat \<Rightarrow> vec2 \<times> real \<Rightarrow> vec2 \<times> real" and st
    by (simp add: numeral_2_eq_2)
  have S: "(\<Sum>i<2. g i) = g 0 + g (Suc 0)" for g :: "nat \<Rightarrow> real"
    by (simp add: numeral_2_eq_2)
  have n: "coords_size ?xi div 2 = 2" by simp
  have "i_2_function_value ?xi ?sol 0 (pi / 2) =
      (pi * 2 / param_omega * param_omega ^ 2 * param_omega ^ 2) * (9 / 2 + 13 * k ^ 2)"
    unfolding i_2_function_value_def Let_def n L
    by (simp add: i cross_xy_def cross_z_def power2_eq_square) (simp add: field_simps)
  moreover have "direction_spec ?xi ?sol 0 (pi / 2) = pi * 2 / param_omega * param_omega ^ 4 / 2 * (9 + 18 * k ^ 2)"
    unfolding direction_spec_def Let_def n S by (simp add: i power2_eq_square)
  moreover have "pi * 2 / param_omega * param_omega ^ 2 * param_omega ^ 2 = pi * 2 / param_omega * param_omega ^ 4"
    by (simp flip: power_add)
  moreover have "c * (9 / 2 + 13 * K) - c / 2 * (9 + 18 * K) = c * 4 * K" for c K :: real
    by (simp add: field_simps)
  ultimately show ?thesis unfolding k_def [symmetric] by (simp only:)
qed

end
