(* ===== verification/Mesh.thy ===== *)
theory Mesh
  imports Matrices
begin

text \<open>
  \<open>MeshCreator.h/.cpp\<close>: linearly spaced grids, the two-dimensional mesh of directions, and
  functions evaluated on it.  Sizes are natural numbers (a container of \<open>n\<close> elements fits the
  machine), doubles are real numbers; Boost's Gauss-Kronrod quadrature is an argument, as is the
  text the stream prints for a double.
\<close>

type_synonym mesh_storage = "real list"

section \<open>Functions on meshes\<close>

text \<open>\<open>boost::math::quadrature::gauss_kronrod<FloatType, Ndots>::integrate\<close>.\<close>

type_synonym quadrature = "nat \<Rightarrow> (real \<Rightarrow> real) \<Rightarrow> real \<Rightarrow> real \<Rightarrow> nat \<Rightarrow> real \<Rightarrow> real"

definition Integrate :: "quadrature \<Rightarrow> nat \<Rightarrow> (real \<Rightarrow> real) \<Rightarrow> real \<Rightarrow> real \<Rightarrow> nat \<Rightarrow> real \<Rightarrow> real" where
  "Integrate gk Ndots f left right max_depth tol = gk Ndots f left right max_depth tol"

definition IntegrateLambdaForOneVariable ::
    "quadrature \<Rightarrow> nat \<Rightarrow> (real \<Rightarrow> real \<Rightarrow> real \<Rightarrow> real) \<Rightarrow> real \<Rightarrow> real \<Rightarrow> real \<Rightarrow> real \<Rightarrow> nat \<Rightarrow> real \<Rightarrow> real" where
  "IntegrateLambdaForOneVariable gk Ndots f theta phi left right max_depth tol =
    Integrate gk Ndots (\<lambda>t. f theta phi t) left right max_depth tol"

definition ComputeFunction ::
    "mesh_storage \<Rightarrow> mesh_storage \<Rightarrow> (real \<Rightarrow> real \<Rightarrow> real) \<Rightarrow> fault + mesh_storage" where
  "ComputeFunction a b func =
    (if length a = 0 \<or> length b = 0
     then Inl (Thrown (PlainException (fmt_format ''Zero container sizes: a.size() = {},b.size() = {}''
                         [show_nat (length a), show_nat (length b)])))
     else if length a \<noteq> length b then Inl (Thrown (mismatchedSizes (length a) (length b)))
     else Inr (for_loop (length a) (\<lambda>i result. result[i := func (a ! i) (b ! i)]) (replicate (length a) 0)))"

text \<open>\<open>sum()\<close> of an empty value array is undefined.\<close>

definition GetMeshDiffNorm :: "mesh_storage \<Rightarrow> mesh_storage \<Rightarrow> fault + real" where
  "GetMeshDiffNorm mesh1 mesh2 =
    rbind (va_zip (-) mesh1 mesh2) (\<lambda>d.
      if d = [] then Inl (UB ''sum of an empty valarray'') else Inr (sqrt (sum_list (map (\<lambda>x. x ^ 2) d))))"

definition AddMesh :: "mesh_storage \<Rightarrow> mesh_storage \<Rightarrow> fault + mesh_storage" where
  "AddMesh a b = va_zip (+) a b"

section \<open>Grids\<close>

text \<open>
  With an end point and a single element the step is a quotient by zero: the element is
  \<open>0 * inf + lower_bound\<close>, which is not a number.
\<close>

definition MyLinspace :: "bool \<Rightarrow> real \<Rightarrow> real \<Rightarrow> nat \<Rightarrow> fault + real list" where
  "MyLinspace end_point lower_bound upper_bound n =
    (if n = 0 \<or> lower_bound - upper_bound = 0
     then Inl (Std (invalid_argument ''Zero linspace size''))
     else let dv = (if end_point then n - 1 else n)
          in if dv = 0 then Inl (NonFinite ''linspace step'')
             else let step = (upper_bound - lower_bound) / of_nat dv
                  in Inr (for_loop n (\<lambda>i result. result[i := of_nat i * step + lower_bound]) (replicate n 0)))"

definition MyMeshGrid :: "real list \<Rightarrow> real list \<Rightarrow> mesh_storage \<times> mesh_storage" where
  "MyMeshGrid a b =
    for_loop (length b) (\<lambda>i. for_loop (length a) (\<lambda>j (r0, r1).
        (r0[i * length a + j := a ! j], r1[i * length a + j := b ! i])))
      (replicate (length b * length a) 0, replicate (length b * length a) 0)"

definition Unflatten :: "mesh_storage \<Rightarrow> nat \<times> nat \<Rightarrow> fault + real list list" where
  "Unflatten mm dims = rmap (\<lambda>i. rmap (\<lambda>j. va_get mm (i * snd dims + j)) [0..<snd dims]) [0..<fst dims]"

section \<open>The mesh\<close>

record MeshCreator =
  dimensions :: "nat \<times> nat"
  limits :: "real list"
  data :: "mesh_storage list"

definition kDefaultDims :: "nat \<times> nat" where
  "kDefaultDims = (7, 25)"

definition kDefaultLims :: "real list" where
  "kDefaultLims = [0, pi / 2, 0, pi * 2]"

definition new_MeshCreator :: "bool \<Rightarrow> MeshCreator" where
  "new_MeshCreator alloc = \<lparr>dimensions = kDefaultDims, limits = kDefaultLims,
     data = (if alloc then replicate 3 (replicate (fst kDefaultDims * snd kDefaultDims) 0)
             else replicate 3 [])\<rparr>"

definition ConstructMeshes :: "nat \<times> nat \<Rightarrow> real list \<Rightarrow> (MeshCreator, fault, unit) action" where
  "ConstructMeshes dims lims = (\<lambda>m0.
    let m = m0\<lparr>dimensions := dims, limits := lims\<rparr>
    in sbind (slift (MyLinspace True (lims ! 2) (lims ! 3) (snd dims))) (\<lambda>phi.
       sbind (slift (MyLinspace True (lims ! 0) (lims ! 1) (fst dims))) (\<lambda>theta.
         (\<lambda>m. (Inr (), m\<lparr>data := (data m)[0 := fst (MyMeshGrid phi theta), 1 := snd (MyMeshGrid phi theta)]\<rparr>)))) m)"

definition ConstructMeshes_opt ::
    "(nat \<times> nat) option \<Rightarrow> real list option \<Rightarrow> (MeshCreator, fault, unit) action" where
  "ConstructMeshes_opt dim_opt lim_opt = (\<lambda>m.
    ConstructMeshes (case dim_opt of Some d \<Rightarrow> d | None \<Rightarrow> dimensions m)
                    (case lim_opt of Some l \<Rightarrow> l | None \<Rightarrow> limits m) m)"

definition ApplyFunction :: "(real \<Rightarrow> real \<Rightarrow> real) \<Rightarrow> (MeshCreator, fault, unit) action" where
  "ApplyFunction func = (\<lambda>m. case ComputeFunction (data m ! 0) (data m ! 1) func of
      Inl e \<Rightarrow> (Inl e, m) | Inr r \<Rightarrow> (Inr (), m\<lparr>data := (data m)[2 := r]\<rparr>))"

definition ApplyIntegrate ::
    "quadrature \<Rightarrow> (real \<Rightarrow> real \<Rightarrow> real \<Rightarrow> real) \<Rightarrow> real \<Rightarrow> real \<Rightarrow> (MeshCreator, fault, unit) action" where
  "ApplyIntegrate gk func a b =
    ApplyFunction (\<lambda>x y. IntegrateLambdaForOneVariable gk 61 func y x a b 5 (1 / 10 ^ 20))"

definition SphericalTransformation :: "MeshCreator \<Rightarrow> fault + mesh_storage list" where
  "SphericalTransformation oth =
    rbind (va_zip (*) (data oth ! 2) (map sin (data oth ! 1))) (\<lambda>rs.
    rbind (va_zip (*) rs (map cos (data oth ! 0))) (\<lambda>x.
    rbind (va_zip (*) rs (map sin (data oth ! 0))) (\<lambda>y.
    rbind (va_zip (*) (data oth ! 2) (map cos (data oth ! 1))) (\<lambda>z. Inr [x, y, z]))))"

text \<open>The table \<open>PrintDec\<close> writes; its second line is UTF-8 text.\<close>

definition function_word :: string where
  "function_word = map char_of [208, 164, 209, 131, 208, 189, 208, 186, 209, 134, 208, 184, 209, 143 :: nat]"

definition PrintDec :: "(real \<Rightarrow> string) \<Rightarrow> MeshCreator \<Rightarrow> fault + string" where
  "PrintDec fmt m =
    (let ext0 = fst (dimensions m); ext1 = snd (dimensions m)
     in if ext0 = 0 then Inl (UB ''vector index out of bounds'')
        else rbind (rmap (\<lambda>i. rbind (va_get (data m ! 1) (i * ext1)) (\<lambda>v. Inr (fmt v))) [0..<ext0]) (\<lambda>row.
             rbind (rmap (\<lambda>i. rbind (va_get (data m ! 0) i) (\<lambda>phi.
                      rbind (rmap (\<lambda>j. rbind (va_get (data m ! 2) (j * ext1 + i)) (\<lambda>v. Inr (fmt v))) [0..<ext0])
                        (\<lambda>cells. Inr (fmt phi @ tab @ join tab cells @ newline)))) [0..<ext1]) (\<lambda>lines.
             Inr (show_nat ext0 @ tab @ show_nat ext1 @ newline @ function_word @ '' I(phi,th)'' @ newline
               @ ''phi'' @ [char_of (92 :: nat)] @ ''th'' @ tab @ tab @ join tab row @ newline @ concat lines))))"

section \<open>Closed forms\<close>

definition lin :: "real \<Rightarrow> real \<Rightarrow> nat \<Rightarrow> nat \<Rightarrow> real" where
  "lin a b n k = of_nat k * ((b - a) / of_nat (n - 1)) + a"

lemma MyLinspace_eq:
  "a \<noteq> b \<Longrightarrow> 2 \<le> n \<Longrightarrow> MyLinspace True a b n = Inr (map (lin a b n) [0..<n])"
  by (simp add: MyLinspace_def for_loop_fill_all lin_def del: of_nat_diff)

lemma MyLinspace_Inr:
  "MyLinspace True a b n = Inr xs \<longleftrightarrow> a \<noteq> b \<and> 2 \<le> n \<and> xs = map (lin a b n) [0..<n]"
proof (cases "a \<noteq> b \<and> 2 \<le> n")
  case True
  then show ?thesis by (auto simp: MyLinspace_eq)
next
  case False
  then have "a = b \<or> n = 0 \<or> n - 1 = 0" by auto
  with False show ?thesis by (auto simp: MyLinspace_def Let_def)
qed

lemma MyMeshGrid_eq:
  "MyMeshGrid a b = (map (\<lambda>k. a ! (k mod length a)) [0..<length b * length a],
                     map (\<lambda>k. b ! (k div length a)) [0..<length b * length a])"
proof -
  have "MyMeshGrid a b = for_loop (length b) (\<lambda>i (x, y).
      (for_loop (length a) (\<lambda>j r0. r0[i * length a + j := a ! j]) x,
       for_loop (length a) (\<lambda>j r1. r1[i * length a + j := b ! i]) y))
      (replicate (length b * length a) 0, replicate (length b * length a) 0)"
    unfolding MyMeshGrid_def by (rule for_loop_cong) (clarsimp simp: for_loop_pair)
  then show ?thesis by (simp add: for_loop_pair for_loop_grid)
qed

lemma ComputeFunction_Inr:
  "ComputeFunction a b func = Inr r \<longleftrightarrow> a \<noteq> [] \<and> length a = length b \<and> r = map2 func a b"
proof -
  have "map (\<lambda>i. func (a ! i) (b ! i)) [0..<length a] = map2 func a b" if "length a = length b"
    using that by (intro nth_equalityI) simp_all
  then show ?thesis by (auto simp: ComputeFunction_def for_loop_fill_all)
qed

lemma Unflatten_eq:
  assumes "d0 * d1 \<le> length mm"
  shows "Unflatten mm (d0, d1) = Inr (mk_mat d0 d1 (\<lambda>i j. mm ! (i * d1 + j)))"
proof -
  have "va_get mm (i * d1 + j) = Inr (mm ! (i * d1 + j))" if "i < d0" "j < d1" for i j
    using grid_index(1) [OF that] assms by simp
  then have "rmap (\<lambda>j. va_get mm (i * d1 + j)) [0..<d1] = Inr (map (\<lambda>j. mm ! (i * d1 + j)) [0..<d1])" if "i < d0" for i
    using that by (intro rmap_all_Inr) simp
  then show ?thesis unfolding Unflatten_def mk_mat_def fst_conv snd_conv by (rule rmap_all_Inr) simp
qed

lemma ConstructMeshes_Inr:
  "ConstructMeshes dims lims m = (Inr (), m') \<longleftrightarrow>
    lims ! 2 \<noteq> lims ! 3 \<and> 2 \<le> snd dims \<and> lims ! 0 \<noteq> lims ! 1 \<and> 2 \<le> fst dims \<and>
    m' = m\<lparr>dimensions := dims, limits := lims, data := (data m)
      [0 := map (\<lambda>k. lin (lims ! 2) (lims ! 3) (snd dims) (k mod snd dims)) [0..<fst dims * snd dims],
       1 := map (\<lambda>k. lin (lims ! 0) (lims ! 1) (fst dims) (k div snd dims)) [0..<fst dims * snd dims]]\<rparr>"
proof -
  have len: "length (map (lin a b n) [0..<n]) = n" for a b n by simp
  have grid: "MyMeshGrid (map (lin a b n) [0..<n]) (map (lin c d k) [0..<k]) =
      (map (\<lambda>i. lin a b n (i mod n)) [0..<k * n], map (\<lambda>i. lin c d k (i div n)) [0..<k * n])" if "2 \<le> n" for a b c d n k
    using that by (auto simp: MyMeshGrid_eq less_mult_imp_div_less)
  show ?thesis
    by (auto simp: ConstructMeshes_def Let_def sbind_eq_Inr MyLinspace_Inr grid)
qed

text \<open>The mesh after both steps, in a form the other components use.\<close>

definition mesh_values :: "nat \<times> nat \<Rightarrow> real list \<Rightarrow> (real \<Rightarrow> real \<Rightarrow> real) \<Rightarrow> mesh_storage" where
  "mesh_values dims lims func = map (\<lambda>k. func (lin (lims ! 2) (lims ! 3) (snd dims) (k mod snd dims))
     (lin (lims ! 0) (lims ! 1) (fst dims) (k div snd dims))) [0..<fst dims * snd dims]"

definition on_grid :: "nat \<times> nat \<Rightarrow> real list \<Rightarrow> MeshCreator \<Rightarrow> bool" where
  "on_grid dims lims m \<longleftrightarrow> length (data m) = 3 \<and> 0 < fst dims * snd dims \<and>
    data m ! 0 = map (\<lambda>k. lin (lims ! 2) (lims ! 3) (snd dims) (k mod snd dims)) [0..<fst dims * snd dims] \<and>
    data m ! 1 = map (\<lambda>k. lin (lims ! 0) (lims ! 1) (fst dims) (k div snd dims)) [0..<fst dims * snd dims]"

lemma ConstructMeshes_on_grid:
  "ConstructMeshes dims lims m = (Inr (), m1) \<Longrightarrow> length (data m) = 3 \<Longrightarrow> on_grid dims lims m1"
  by (auto simp: ConstructMeshes_Inr on_grid_def)

lemma ApplyFunction_on_grid:
  assumes "on_grid dims lims m"
  shows "ApplyFunction func m = (Inr (), m\<lparr>data := (data m)[2 := mesh_values dims lims func]\<rparr>)"
    and "on_grid dims lims (m\<lparr>data := (data m)[2 := r]\<rparr>)"
proof -
  note d = assms [unfolded on_grid_def]
  have "map2 func (data m ! 0) (data m ! 1) = mesh_values dims lims func"
    using d by (simp add: mesh_values_def map2_map_map)
  then have "ComputeFunction (data m ! 0) (data m ! 1) func = Inr (mesh_values dims lims func)"
    unfolding ComputeFunction_Inr using d by simp
  then show "ApplyFunction func m = (Inr (), m\<lparr>data := (data m)[2 := mesh_values dims lims func]\<rparr>)"
    by (simp add: ApplyFunction_def)
  show "on_grid dims lims (m\<lparr>data := (data m)[2 := r]\<rparr>)" using d by (simp add: on_grid_def)
qed

lemma ApplyFunction_constructed:
  assumes "ConstructMeshes dims lims m = (Inr (), m1)" and "length (data m) = 3"
  shows "ApplyFunction func m1 = (Inr (), m1\<lparr>data := (data m1)[2 := mesh_values dims lims func]\<rparr>)"
    and "length (data m1) = 3" and "dimensions m1 = dims"
  using ApplyFunction_on_grid(1) [OF ConstructMeshes_on_grid [OF assms]] assms
  by (simp_all add: ConstructMeshes_Inr)

lemma length_mesh_values [simp]: "length (mesh_values dims lims func) = fst dims * snd dims"
  by (simp add: mesh_values_def)

lemma Unflatten_mesh_values:
  "Unflatten (mesh_values (d0, d1) lims func) (d0, d1) =
    Inr (mk_mat d0 d1 (\<lambda>i j. func (lin (lims ! 2) (lims ! 3) d1 j) (lin (lims ! 0) (lims ! 1) d0 i)))"
proof -
  have "mesh_values (d0, d1) lims func ! (i * d1 + j) =
      func (lin (lims ! 2) (lims ! 3) d1 j) (lin (lims ! 0) (lims ! 1) d0 i)" if "i < d0" "j < d1" for i j
    using grid_index [OF that] by (simp add: mesh_values_def)
  then have "mk_mat d0 d1 (\<lambda>i j. mesh_values (d0, d1) lims func ! (i * d1 + j)) =
      mk_mat d0 d1 (\<lambda>i j. func (lin (lims ! 2) (lims ! 3) d1 j) (lin (lims ! 0) (lims ! 1) d0 i))"
    by (intro mat_eqI [of d0 d1]) simp_all
  then show ?thesis by (simp add: Unflatten_eq mesh_values_def)
qed

lemma default_mesh:
  "\<exists>m1. ConstructMeshes_opt None None (new_MeshCreator True) = (Inr (), m1)"
  unfolding ConstructMeshes_opt_def by (simp add: ConstructMeshes_Inr new_MeshCreator_def kDefaultDims_def kDefaultLims_def)

section \<open>Properties\<close>

text \<open>With at least two points per direction and distinct limits, building the mesh and
applying a function succeeds, and the unflattened third array is exactly the table of the
function's values, rows over theta and columns over phi.\<close>

theorem mesh_pointwise:
  assumes "2 \<le> d0" and "2 \<le> d1" and "lims ! 0 \<noteq> lims ! 1" and "lims ! 2 \<noteq> lims ! 3"
    and "length (data m) = 3"
  shows "\<exists>m1 m2. ConstructMeshes (d0, d1) lims m = (Inr (), m1) \<and> ApplyFunction func m1 = (Inr (), m2) \<and>
    dimensions m2 = (d0, d1) \<and>
    Unflatten (data m2 ! 2) (d0, d1) =
      Inr (mk_mat d0 d1 (\<lambda>i j. func (lin (lims ! 2) (lims ! 3) d1 j) (lin (lims ! 0) (lims ! 1) d0 i)))"
proof -
  obtain m1 where m1: "ConstructMeshes (d0, d1) lims m = (Inr (), m1)"
    using assms by (simp add: ConstructMeshes_Inr)
  note a = ApplyFunction_constructed [OF m1 assms(5)]
  show ?thesis
    by (rule exI [of _ m1], rule exI, intro conjI, rule m1, rule a(1))
      (simp_all add: a(2,3) Unflatten_mesh_values)
qed

theorem mesh_pointwise_witness:
  "\<exists>m1 m2. ConstructMeshes (2, 3) [0, 1, 0, 2] (new_MeshCreator True) = (Inr (), m1) \<and>
    ApplyFunction (\<lambda>x y. 10 * y + x) m1 = (Inr (), m2) \<and>
    Unflatten (data m2 ! 2) (2, 3) = Inr [[0, 1, 2], [10, 11, 12]]"
proof -
  have "mk_mat 2 3 (\<lambda>i j. 10 * lin 0 1 2 i + lin 0 2 3 j) = [[0, 1, 2], [10, 11, 12]]"
    by (simp add: mk_mat_def lin_def upt_rec)
  with mesh_pointwise [of 2 3 "[0, 1, 0, 2]" "new_MeshCreator True" "\<lambda>x y. 10 * y + x"] show ?thesis
    by (simp add: new_MeshCreator_def) blast
qed

text \<open>A linearly spaced grid with end point starts at the lower bound, ends at the upper
bound, increases strictly and stays within the bounds; it is refused exactly for an empty size
or equal bounds.\<close>

theorem linspace_bounds:
  assumes "a < b" and "2 \<le> n"
  shows "\<exists>xs. MyLinspace True a b n = Inr xs \<and> length xs = n \<and> xs ! 0 = a \<and> xs ! (n - 1) = b \<and>
    (\<forall>i j. i < j \<longrightarrow> j < n \<longrightarrow> xs ! i < xs ! j) \<and> set xs \<subseteq> {a..b} \<and>
    (\<forall>l u k. MyLinspace e l u k = Inl (Std (invalid_argument ''Zero linspace size'')) \<longleftrightarrow> k = 0 \<or> l = u)"
proof -
  let ?d = "(b - a) / of_nat (n - 1)"
  have d: "0 < ?d" using assms by simp
  have first: "lin a b n 0 = a" by (simp add: lin_def)
  have last: "lin a b n (n - 1) = b" using assms by (simp add: lin_def del: of_nat_diff)
  have mono: "lin a b n i < lin a b n j" if "i < j" for i j
    unfolding lin_def using that by (intro add_strict_right_mono mult_strict_right_mono d) simp
  have le: "lin a b n i \<le> lin a b n j" if "i \<le> j" for i j
    using mono [of i j] that by (cases "i = j") auto
  have "set (map (lin a b n) [0..<n]) \<subseteq> {a..b}"
  proof
    fix x assume "x \<in> set (map (lin a b n) [0..<n])"
    then obtain i where "i < n" and x: "x = lin a b n i" by auto
    then show "x \<in> {a..b}" using le [of 0 i] le [of i "n - 1"] first last by auto
  qed
  moreover have "(MyLinspace e l u k = Inl (Std (invalid_argument ''Zero linspace size''))) \<longleftrightarrow> k = 0 \<or> l = u" for l u k
    by (simp add: MyLinspace_def Let_def)
  ultimately show ?thesis
    using assms mono last by (intro exI [of _ "map (lin a b n) [0..<n]"]) (simp add: MyLinspace_eq first)
qed

theorem linspace_bounds_witness:
  "\<exists>xs. MyLinspace True 0 (pi / 2) 7 = Inr xs \<and> xs ! 6 = pi / 2 \<and> set xs \<subseteq> {0..pi / 2}"
  using linspace_bounds [of 0 "pi / 2" 7 True] by auto

text \<open>Cutting a flat mesh into rows inverts laying rows out one after the other, and laying
out the rows cut from an array gives its used part back.\<close>

theorem unflatten_round_trip:
  "(is_mat d0 d1 A \<longrightarrow> Unflatten (concat A) (d0, d1) = Inr A) \<and>
   (Unflatten mm (d0, d1) = Inr B \<and> d0 * d1 \<le> length mm \<longrightarrow> concat B = take (d0 * d1) mm)"
proof (intro conjI impI)
  assume A: "is_mat d0 d1 A"
  then have rows: "row \<in> set A \<Longrightarrow> length row = d1" for row by (simp add: is_mat_def)
  have "concat A ! (i * d1 + j) = ent A i j" if "i < d0" "j < d1" for i j
    using A rows that by (simp add: nth_concat_uniform is_mat_length ent_def)
  then have "mk_mat d0 d1 (\<lambda>i j. concat A ! (i * d1 + j)) = A"
    by (intro mat_eqI [OF _ A]) simp_all
  then show "Unflatten (concat A) (d0, d1) = Inr A"
    using A rows by (simp add: Unflatten_eq length_concat_uniform is_mat_length)
next
  assume a: "Unflatten mm (d0, d1) = Inr B \<and> d0 * d1 \<le> length mm"
  then have B: "B = mk_mat d0 d1 (\<lambda>i j. mm ! (i * d1 + j))" using Unflatten_eq [of d0 d1 mm] by simp
  then have m: "is_mat d0 d1 B" by simp
  then have rows: "row \<in> set B \<Longrightarrow> length row = d1" for row by (simp add: is_mat_def)
  have len: "length (concat B) = d0 * d1" using m rows by (simp add: length_concat_uniform is_mat_length)
  show "concat B = take (d0 * d1) mm"
  proof (rule nth_equalityI)
    show "length (concat B) = length (take (d0 * d1) mm)" using a len by simp
    fix k assume "k < length (concat B)"
    with len have k: "k < d0 * d1" by simp
    then have "0 < d1" by (cases d1) simp_all
    then have "k div d1 < d0" "k mod d1 < d1" using k by (simp_all add: less_mult_imp_div_less)
    then have "concat B ! (k div d1 * d1 + k mod d1) = ent B (k div d1) (k mod d1)"
      using rows m by (simp only: nth_concat_uniform is_mat_length ent_def)
    also have "\<dots> = mm ! k" using \<open>k div d1 < d0\<close> \<open>k mod d1 < d1\<close> by (simp add: B)
    finally show "concat B ! k = take (d0 * d1) mm ! k" using k by simp
  qed
qed

theorem unflatten_round_trip_witness:
  "Unflatten (concat [[1, 2, 3], [4, 5, 6 :: real]]) (2, 3) = Inr [[1, 2, 3], [4, 5, 6]]"
  by (rule unflatten_round_trip [THEN conjunct1, THEN mp]) (simp add: is_mat_def)

text \<open>The spherical transformation of a mesh keeps the radius: the squares of the three
Cartesian coordinates of every point add up to the square of the mesh value.\<close>

theorem spherical_radius:
  assumes "SphericalTransformation m = Inr r" and "i < length (data m ! 2)"
  shows "length r = 3 \<and> (r ! 0 ! i) ^ 2 + (r ! 1 ! i) ^ 2 + (r ! 2 ! i) ^ 2 = (data m ! 2 ! i) ^ 2"
proof -
  from assms(1) have len: "length (data m ! 1) = length (data m ! 2)" "length (data m ! 0) = length (data m ! 2)"
    by (auto simp: SphericalTransformation_def rbind_eq_Inr dest!: va_zip_Inr)
  let ?r = "data m ! 2 ! i" and ?t = "data m ! 1 ! i" and ?p = "data m ! 0 ! i"
  from assms(1) len have "length r = 3" "r ! 0 ! i = ?r * sin ?t * cos ?p" "r ! 1 ! i = ?r * sin ?t * sin ?p"
      "r ! 2 ! i = ?r * cos ?t"
    using assms(2) by (auto simp: SphericalTransformation_def rbind_eq_Inr)
  moreover have "(?r * sin ?t * cos ?p) ^ 2 + (?r * sin ?t * sin ?p) ^ 2 + (?r * cos ?t) ^ 2
      = ?r ^ 2 * ((sin ?t) ^ 2 * ((sin ?p) ^ 2 + (cos ?p) ^ 2) + (cos ?t) ^ 2)"
    by (simp only: power_mult_distrib ring_distribs ac_simps)
  ultimately show ?thesis by simp
qed

theorem spherical_radius_witness:
  "length [[0 :: real], [0], [2]] = 3 \<and> ([[0 :: real], [0], [2]] ! 0 ! 0) ^ 2 + ([[0 :: real], [0], [2]] ! 1 ! 0) ^ 2 +
    ([[0 :: real], [0], [2]] ! 2 ! 0) ^ 2 = (data \<lparr>dimensions = (1, 1), limits = [], data = [[0], [0], [2]]\<rparr> ! 2 ! 0) ^ 2"
  by (rule spherical_radius) (simp_all add: SphericalTransformation_def)

end
