(* ===== verification/Timing.thy ===== *)
theory Timing
  imports ErrorHandling "HOL-Library.List_Lexorder" "HOL-Library.Char_ord"
begin

text \<open>
  \<open>timingUtils.h/.cpp\<close> and \<open>GetFileState\<close> of \<open>chronoClock.cpp\<close>: source locations and
  their order, and time points as text.  The time zone (\<open>localtime_r\<close>, \<open>mktime\<close>) and the
  text of a thread's identifier are arguments.
\<close>

section \<open>Locations\<close>

text \<open>\<open>std::array<std::string, 5>\<close>: function, line, column, file, thread.\<close>

datatype LocationType = Loc string string string string string

fun loc_at :: "LocationType \<Rightarrow> nat \<Rightarrow> string" where
  "loc_at (Loc a b c d e) i = [a, b, c, d, e] ! i"

text \<open>The loop with its early returns.\<close>

fun compare_from :: "LocationType \<Rightarrow> LocationType \<Rightarrow> nat list \<Rightarrow> bool" where
  "compare_from a b [] = False"
| "compare_from a b (i # is) = (if loc_at a i \<noteq> loc_at b i then loc_at b i > loc_at a i else compare_from a b is)"

definition LocationComparator :: "LocationType \<Rightarrow> LocationType \<Rightarrow> bool" where
  "LocationComparator a b = compare_from a b [0..<5]"

definition loc_list :: "LocationType \<Rightarrow> string list" where
  "loc_list a = map (loc_at a) [0..<5]"

lemma compare_from_lex: "compare_from a b is \<longleftrightarrow> map (loc_at a) is < map (loc_at b) is"
  by (induction "is") auto

lemma LocationComparator_lex: "LocationComparator a b \<longleftrightarrow> loc_list a < loc_list b"
  by (simp add: LocationComparator_def compare_from_lex loc_list_def)

lemma loc_list_Loc [simp]: "loc_list (Loc a b c d e) = [a, b, c, d, e]"
  by (simp add: loc_list_def upt_rec)

lemma loc_list_inj [simp]: "loc_list a = loc_list b \<longleftrightarrow> a = b"
  by (cases a; cases b) simp

instantiation LocationType :: linorder
begin

definition less_LocationType :: "LocationType \<Rightarrow> LocationType \<Rightarrow> bool" where
  "less_LocationType a b = LocationComparator a b"

definition less_eq_LocationType :: "LocationType \<Rightarrow> LocationType \<Rightarrow> bool" where
  "less_eq_LocationType a b \<longleftrightarrow> a = b \<or> LocationComparator a b"

instance
proof
  fix a b c :: LocationType
  show "a < b \<longleftrightarrow> a \<le> b \<and> \<not> b \<le> a"
    by (auto simp: less_LocationType_def less_eq_LocationType_def LocationComparator_lex)
  show "a \<le> a" by (simp add: less_eq_LocationType_def)
  show "a \<le> b \<Longrightarrow> b \<le> c \<Longrightarrow> a \<le> c" by (auto simp: less_eq_LocationType_def LocationComparator_lex)
  show "a \<le> b \<Longrightarrow> b \<le> a \<Longrightarrow> a = b" by (auto simp: less_eq_LocationType_def LocationComparator_lex)
  show "a \<le> b \<or> b \<le> a"
    using linorder_less_linear [of "loc_list a" "loc_list b"]
    by (auto simp: less_eq_LocationType_def LocationComparator_lex)
qed

end

subsection \<open>From a source location\<close>

record source_location =
  function_name :: string
  file_name :: string
  src_line :: nat
  src_column :: nat

text \<open>\<open>find\<close> and \<open>rfind\<close> give \<open>npos\<close>, all ones, for a missing character; positions are
computed modulo \<open>2 ^ 64\<close>.\<close>

definition find_pos :: "char \<Rightarrow> string \<Rightarrow> u64" where
  "find_pos c s = (case find_char c s of None \<Rightarrow> - 1 | Some i \<Rightarrow> of_nat i)"

definition rfind_pos :: "char \<Rightarrow> string \<Rightarrow> u64" where
  "rfind_pos c s = (case find_char c (rev s) of None \<Rightarrow> - 1 | Some i \<Rightarrow> of_nat (length s - 1 - i))"

definition out_of_substr :: fault where
  "out_of_substr = Std (out_of_range ''basic_string::substr'')"

definition GetFileState :: "string \<Rightarrow> source_location \<Rightarrow> fault + LocationType" where
  "GetFileState thread location =
    (let name = function_name location;
         id = find_pos (CHR '' '') name;
         id2 = find_pos (CHR ''('') name;
         fname = file_name location
     in rbind (of_opt out_of_substr (substr name (unat (id + 1)) (unat (id2 - id - 1)))) (\<lambda>fn.
        rbind (of_opt out_of_substr (substr fname (unat (rfind_pos (CHR ''/'') fname + 1)) (length fname))) (\<lambda>file.
          Inr (Loc fn (show_nat (src_line location)) (show_nat (src_column location)) file thread))))"

section \<open>Printing an array\<close>

text \<open>The bound \<open>sz - 1\<close> of the loop wraps for an empty array.\<close>

definition print_array :: "('a \<Rightarrow> string) \<Rightarrow> 'a list \<Rightarrow> fault + string" where
  "print_array to_text arr = (if arr = [] then Inl (UB ''array index out of bounds'')
     else Inr (concat (map (\<lambda>x. to_text x @ tab) (butlast arr)) @ to_text (last arr) @ newline))"

section \<open>Time points as text\<close>

record tm =
  tm_year :: int
  tm_mon :: int
  tm_mday :: int
  tm_hour :: int
  tm_min :: int
  tm_sec :: int

text \<open>\<open>localtime_r\<close> of a count of seconds and \<open>mktime\<close> of broken-down time whose other fields
are zero.\<close>

record time_zone =
  localtime_r :: "int \<Rightarrow> tm"
  mktime :: "tm \<Rightarrow> int"

text \<open>
  \<open>put_time\<close> with \<open>%Y-%m-%d %H:%M:%S\<close>.  The microseconds pass through the nanosecond count
  of the system clock, which overflows from \<open>2 ^ 63\<close> on.
\<close>

definition put_time :: "tm \<Rightarrow> string" where
  "put_time t = show_int (tm_year t + 1900) @ ''-'' @ pad 2 (nat (tm_mon t + 1)) @ ''-'' @ pad 2 (nat (tm_mday t)) @ '' ''
     @ pad 2 (nat (tm_hour t)) @ '':'' @ pad 2 (nat (tm_min t)) @ '':'' @ pad 2 (nat (tm_sec t))"

definition TpToString :: "time_zone \<Rightarrow> u64 \<Rightarrow> fault + string" where
  "TpToString tz system_ms =
    (let ms = sint system_ms
     in if \<not> (- (2 ^ 63) \<le> ms * 1000 \<and> ms * 1000 < 2 ^ 63) then Inl (UB ''signed integer overflow'')
        else let secs = (if ms < 0 then - ((- ms) div 1000000) else ms div 1000000);
                 frac = ms - secs * 1000000
             in Inr (put_time (localtime_r tz secs) @ ''.'' @
                     (if frac < 0 then replicate (6 - length (show_int frac)) (CHR ''0'') @ show_int frac
                      else pad 6 (nat frac))))"

text \<open>
  \<open>sscanf\<close> with \<open>%d-%d-%d %d:%d:%d.%d\<close>: an ordinary character must be present, a blank
  stands for any white space.  The format succeeds only when all seven numbers are read.
\<close>

definition scan_lit :: "char \<Rightarrow> string \<Rightarrow> string option" where
  "scan_lit c s = (case s of [] \<Rightarrow> None | d # r \<Rightarrow> if d = c then Some r else None)"

fun scan_fields :: "char list \<Rightarrow> string \<Rightarrow> int list option" where
  "scan_fields [] s = map_option (\<lambda>(i, r). [i]) (scan_decimal s)"
| "scan_fields (sep # seps) s =
    (case scan_decimal s of None \<Rightarrow> None
     | Some (i, r) \<Rightarrow>
         (case (if sep = CHR '' '' then Some (skip_ws r) else scan_lit sep r) of None \<Rightarrow> None
          | Some r' \<Rightarrow> map_option (\<lambda>is. i # is) (scan_fields seps r')))"

text \<open>
  The scale factor is \<open>10 ^ (6 - frac_part.size())\<close>, where the difference of sizes wraps for
  more than six characters: the factor is then infinite and its conversion to \<open>int\<close>
  undefined, also for trailing characters that are no digits.
\<close>

definition StrToTimepoint :: "time_zone \<Rightarrow> string \<Rightarrow> fault + u64 option" where
  "StrToTimepoint tz ts =
    (case scan_fields [CHR ''-'', CHR ''-'', CHR '' '', CHR '':'', CHR '':'', CHR ''.''] ts of
       Some [y, mo, d, h, mi, s, micros] \<Rightarrow>
         (let frac_part = drop (case find_char (CHR ''.'') ts of None \<Rightarrow> 0 | Some dot \<Rightarrow> dot + 1) ts
          in if 6 < length frac_part then Inl (UB ''conversion of an infinite double to int'')
             else let micros = micros * 10 ^ (6 - length frac_part);
                      secs = mktime tz \<lparr>tm_year = y - 1900, tm_mon = mo - 1, tm_mday = d, tm_hour = h, tm_min = mi, tm_sec = s\<rparr>
                  in Inr (Some (word_of_int secs * 1000000 + word_of_int micros)))
     | _ \<Rightarrow> Inr None)"

section \<open>Properties\<close>

lemma scan_sep:
  assumes "\<not> is_digit sep" and "sep \<noteq> CHR '' ''"
  shows "scan_fields (sep # seps) (pad w n @ sep # r) = map_option (\<lambda>is. int n # is) (scan_fields seps r)"
    and "scan_fields (sep # seps) (show_nat n @ sep # r) = map_option (\<lambda>is. int n # is) (scan_fields seps r)"
  using assms scan_pad [of "sep # r" w n] scan_decimal_digits [of "show_nat n" "sep # r"]
  by (simp_all add: scan_lit_def show_nat_digits)

lemma scan_blank:
  "starts_word r \<Longrightarrow> scan_fields (CHR '' '' # seps) (pad w n @ CHR '' '' # r) = map_option (\<lambda>is. int n # is) (scan_fields seps r)"
proof -
  assume r: "starts_word r"
  have "skip_ws (CHR '' '' # r) = r" using skip_ws_word [OF r] by (simp add: skip_ws_def isspace_def)
  then show ?thesis using scan_pad [of "CHR '' '' # r" w n] by (simp add: is_digit_def)
qed

lemma starts_word_pad: "starts_word (pad w n @ r)"
  using pad_digits [of "hd (pad w n)" w n] pad_nonempty [of w n]
  by (cases "pad w n") (auto simp: starts_word_def digit_not_space)

lemma char_facts: "\<not> is_digit (CHR ''-'')" "\<not> is_digit (CHR '':'')" "\<not> is_digit (CHR ''.'')"
  by (simp_all add: is_digit_def)

lemma scan_time_text:
  "scan_fields [CHR ''-'', CHR ''-'', CHR '' '', CHR '':'', CHR '':'', CHR ''.'']
     (show_nat y @ ''-'' @ pad 2 mo @ ''-'' @ pad 2 d @ '' '' @ pad 2 h @ '':'' @ pad 2 mi @ '':'' @ pad 2 s @ ''.'' @ pad 6 f) =
   Some [int y, int mo, int d, int h, int mi, int s, int f]"
proof -
  have last: "scan_decimal (pad 6 f) = Some (int f, [])" using scan_pad [of "[]" 6 f] by simp
  show ?thesis
    by (simp add: scan_sep char_facts scan_blank starts_word_pad last del: scan_fields.simps(2))
qed

text \<open>The order of locations is the lexicographic order of their five strings, hence a strict
total order, as \<open>std::map\<close> requires of its comparison.\<close>

theorem location_order:
  "(LocationComparator a b \<longleftrightarrow> loc_list a < loc_list b) \<and> \<not> LocationComparator a a \<and>
   (LocationComparator a b \<and> LocationComparator b c \<longrightarrow> LocationComparator a c) \<and>
   (a = b \<or> LocationComparator a b \<or> LocationComparator b a)"
  using linorder_less_linear [of "loc_list a" "loc_list b"] by (auto simp: LocationComparator_lex)

theorem location_order_witness:
  "LocationComparator (Loc ''f'' ''1'' ''2'' ''x'' ''t'') (Loc ''g'' ''0'' ''2'' ''x'' ''t'')"
proof -
  have 1: "LocationComparator (Loc ''f'' ''1'' ''2'' ''x'' ''t'') (Loc ''f'' ''1'' ''3'' ''x'' ''t'')"
    and 2: "LocationComparator (Loc ''f'' ''1'' ''3'' ''x'' ''t'') (Loc ''g'' ''0'' ''2'' ''x'' ''t'')"
    by (simp_all add: LocationComparator_def upt_rec less_char_def)
  from location_order [THEN conjunct2, THEN conjunct2, THEN conjunct1, THEN mp, OF conjI [OF 1 2]] show ?thesis .
qed

lemma drop_after_char:
  "c \<notin> set h \<Longrightarrow> drop (case find_char c (h @ c # r) of None \<Rightarrow> 0 | Some dot \<Rightarrow> dot + 1) (h @ c # r) = r"
  by (simp add: find_char_append)

text \<open>A time point within the range of the nanosecond clock survives being printed and read
again, provided \<open>mktime\<close> inverts \<open>localtime_r\<close> there (it does not while daylight saving
time is in effect) and the broken-down time has no negative part.\<close>

theorem time_round_trip:
  assumes "uint t * 1000 < 2 ^ 63" and "tm = localtime_r tz (uint t div 1000000)"
    and "mktime tz tm = uint t div 1000000"
    and "- 1900 \<le> tm_year tm \<and> 0 \<le> tm_mon tm \<and> 0 \<le> tm_mday tm \<and> 0 \<le> tm_hour tm \<and> 0 \<le> tm_min tm \<and> 0 \<le> tm_sec tm"
  shows "\<exists>s. TpToString tz t = Inr s \<and> StrToTimepoint tz s = Inr (Some t)"
proof -
  define f where "f = nat (uint t mod 1000000)"
  have sint: "sint t = uint t"
  proof -
    have "uint t < 2 ^ 63" using assms(1) uint_ge_0 [of t] by linarith
    moreover have "- (2 ^ 63) \<le> uint t" by (rule order_trans [of _ 0]) simp_all
    ultimately show ?thesis by (simp only: sint_uint) (rule signed_take_bit_int_eq_self, simp_all)
  qed
  have f: "f < 10 ^ 6" by (simp add: f_def nat_less_iff)
  have frac: "uint t - uint t div 1000000 * 1000000 = int f" by (simp add: f_def minus_div_mult_eq_mod)
  have lo: "- (2 ^ 63) \<le> uint t * 1000" by (rule order_trans [of _ 0]) simp_all
  have nl: "\<not> uint t < uint t div 1000000 * 1000000" using frac by linarith
  let ?head = "show_nat (nat (tm_year tm + 1900)) @ ''-'' @ pad 2 (nat (tm_mon tm + 1)) @ ''-'' @ pad 2 (nat (tm_mday tm)) @ '' ''
     @ pad 2 (nat (tm_hour tm)) @ '':'' @ pad 2 (nat (tm_min tm)) @ '':'' @ pad 2 (nat (tm_sec tm))"
  let ?s = "?head @ ''.'' @ pad 6 f"
  have "show_int (tm_year tm + 1900) = show_nat (nat (tm_year tm + 1900))" using assms(4) by (simp add: show_int_def)
  then have s: "TpToString tz t = Inr ?s"
    using assms(1,2) lo nl by (simp add: TpToString_def sint Let_def put_time_def frac)
  have "CHR ''.'' \<notin> set ?head" using char_facts(3) by (auto dest: pad_digits show_nat_digits)
  from drop_after_char [OF this, of "pad 6 f"]
  have fp: "drop (case find_char (CHR ''.'') ?s of None \<Rightarrow> 0 | Some dot \<Rightarrow> dot + 1) ?s = pad 6 f"
    by (simp only: append_Cons append_Nil append_assoc)
  have len: "length (pad 6 f) = 6" by (rule length_pad [OF f]) simp
  have tm: "\<lparr>tm_year = int (nat (tm_year tm + 1900)) - 1900, tm_mon = int (nat (tm_mon tm + 1)) - 1,
      tm_mday = int (nat (tm_mday tm)), tm_hour = int (nat (tm_hour tm)), tm_min = int (nat (tm_min tm)),
      tm_sec = int (nat (tm_sec tm))\<rparr> = tm"
    using assms(4) by simp
  have fields: "scan_fields [CHR ''-'', CHR ''-'', CHR '' '', CHR '':'', CHR '':'', CHR ''.''] ?s =
      Some [int (nat (tm_year tm + 1900)), int (nat (tm_mon tm + 1)), int (nat (tm_mday tm)), int (nat (tm_hour tm)),
        int (nat (tm_min tm)), int (nat (tm_sec tm)), int f]"
    using scan_time_text by simp
  have "word_of_int (uint t div 1000000) * 1000000 + word_of_int (int f) = (word_of_int (uint t) :: u64)"
  proof -
    have "word_of_int (uint t div 1000000) * 1000000 + word_of_int (int f)
        = (word_of_int (uint t div 1000000 * 1000000 + int f) :: u64)" by simp
    also have "uint t div 1000000 * 1000000 + int f = uint t" using frac by simp
    finally show ?thesis .
  qed
  then have "StrToTimepoint tz ?s = Inr (Some t)"
    unfolding StrToTimepoint_def fields fp Let_def len option.case list.case tm assms(3) by simp
  with s show ?thesis by blast
qed

definition sample_zone :: time_zone where
  "sample_zone = \<lparr>localtime_r = (\<lambda>s. \<lparr>tm_year = 70, tm_mon = 0, tm_mday = 1, tm_hour = 0, tm_min = 0, tm_sec = s\<rparr>),
     mktime = tm_sec\<rparr>"

theorem time_round_trip_witness:
  "\<exists>s. TpToString sample_zone 5000042 = Inr s \<and> StrToTimepoint sample_zone s = Inr (Some 5000042)"
  by (rule time_round_trip [OF _ refl]) (simp_all add: sample_zone_def)

lemma find_pos_Some: "find_char c s = Some i \<Longrightarrow> find_pos c s = of_nat i"
  by (simp add: find_pos_def)

text \<open>For a function name printed as a return type without blank or parenthesis, a blank,
the name and its parameter list, and a file path with a slash, the location holds the bare
function name, the decimal line and column, and the last component of the path.\<close>

theorem GetFileState_spec:
  assumes "function_name l = ret @ '' '' @ name @ ''('' @ args" and "file_name l = dir @ ''/'' @ file"
    and "CHR '' '' \<notin> set ret \<and> CHR ''('' \<notin> set ret \<and> CHR ''('' \<notin> set name \<and> CHR ''/'' \<notin> set file"
    and "length (function_name l) < 2 ^ 63 \<and> length (file_name l) < 2 ^ 63"
  shows "GetFileState thread l = Inr (Loc name (show_nat (src_line l)) (show_nat (src_column l)) file thread)"
proof -
  let ?n = "ret @ '' '' @ name @ ''('' @ args" and ?f = "dir @ ''/'' @ file"
  let ?id = "length ret" and ?id2 = "length ret + 1 + length name" and ?r = "length dir"
  have lim: "?id2 < 2 ^ 63" "?r < 2 ^ 63" using assms by simp_all
  have "find_pos (CHR '' '') ?n = of_nat ?id"
    using find_char_append [of "CHR '' ''" ret "name @ ''('' @ args"] assms(3) by (simp add: find_pos_def)
  moreover have "find_pos (CHR ''('') ?n = of_nat ?id2"
    using find_char_append [of "CHR ''(''" "ret @ '' '' @ name" args] assms(3) by (simp add: find_pos_def)
  moreover have "rfind_pos (CHR ''/'') ?f = of_nat ?r"
    using find_char_append [of "CHR ''/''" "rev file" "rev dir"] assms(3) by (simp add: rfind_pos_def)
  moreover have nat: "unat (of_nat k + 1 :: u64) = k + 1" if "k < 2 ^ 63" for k
  proof -
    have "unat (of_nat (k + 1) :: u64) = k + 1" using that by (simp only: unat_of_nat) simp
    then show ?thesis by (simp only: of_nat_add of_nat_1)
  qed
  moreover have "unat (of_nat ?id2 - of_nat ?id - 1 :: u64) = length name"
  proof -
    have "(of_nat ?id2 - of_nat ?id - 1 :: u64) = of_nat (length name)" by simp
    then show ?thesis using lim by (simp only: unat_of_nat) simp
  qed
  ultimately show ?thesis
    using lim by (simp add: GetFileState_def Let_def assms(1,2) substr_def)
qed

theorem GetFileState_spec_witness:
  "GetFileState ''7'' \<lparr>function_name = ''int main(int, char**)'', file_name = ''/a/b.cpp'', src_line = 12, src_column = 3\<rparr>
    = Inr (Loc ''main'' ''12'' ''3'' ''b.cpp'' ''7'')"
proof -
  have "show_nat 12 = ''12''" "show_nat 3 = ''3''" by code_simp+
  with GetFileState_spec [of "\<lparr>function_name = ''int main(int, char**)'', file_name = ''/a/b.cpp'', src_line = 12, src_column = 3\<rparr>"
      "''int''" "''main''" "''int, char**)''" "''/a''" "''b.cpp''" "''7''"]
  show ?thesis by simp
qed

end
