(* ===== verification/ClockArray.thy ===== *)
theory ClockArray
  imports Timing
begin

text \<open>
  \<open>ClockArray.h\<close> and \<open>chronoClock.h\<close>: a stack of open measurements and a map of the finished
  ones.  Every operation holds the global lock, so it is one step; the reading of the clock, in
  nanoseconds, and the identifier of the calling thread are arguments of the step.
\<close>

section \<open>State\<close>

record timeStore =
  ts_time :: int
  ts_count :: nat

record ClockArray =
  timers :: "(LocationType \<times> timeStore) list"
  starting :: "(LocationType \<times> int) list"
  to_tak :: "LocationType list"

definition new_ClockArray :: ClockArray where
  "new_ClockArray = \<lparr>timers = [], starting = [], to_tak = []\<rparr>"

text \<open>\<open>duration_cast\<close> from nanoseconds to a unit of \<open>per\<close> nanoseconds truncates towards zero.\<close>

definition DoubleCastChrono :: "int \<Rightarrow> int \<Rightarrow> int \<Rightarrow> int" where
  "DoubleCastChrono per now prev =
    (if now < prev then - ((prev - now) div per) else (now - prev) div per)"

section \<open>Operations\<close>

definition Tik :: "string \<Rightarrow> source_location \<Rightarrow> int \<Rightarrow> (ClockArray, fault, unit) action" where
  "Tik thread location now = (\<lambda>c. case GetFileState thread location of
     Inl e \<Rightarrow> (Inl e, c)
   | Inr ident \<Rightarrow> (Inr (), c\<lparr>starting := oput ident now (starting c), to_tak := ident # to_tak c\<rparr>))"

definition TikLoc :: "string \<Rightarrow> source_location \<Rightarrow> int \<Rightarrow> (ClockArray, fault, LocationType) action" where
  "TikLoc thread location now = sbind (Tik thread location now) (\<lambda>_. slift (GetFileState thread location))"

definition TikPair ::
    "string \<Rightarrow> source_location \<Rightarrow> int \<Rightarrow> (ClockArray, fault, source_location \<times> LocationType) action" where
  "TikPair thread location now = sbind (TikLoc thread location now) (\<lambda>ident. sret (location, ident))"

text \<open>\<open>operator[]\<close> of a map inserts a default value for a missing key.\<close>

definition at_start :: "LocationType \<Rightarrow> ClockArray \<Rightarrow> int \<times> ClockArray" where
  "at_start ident c = (case map_of (starting c) ident of Some t \<Rightarrow> (t, c)
     | None \<Rightarrow> (0, c\<lparr>starting := oput ident 0 (starting c)\<rparr>))"

definition clock_at :: "LocationType \<Rightarrow> ClockArray \<Rightarrow> timeStore \<times> ClockArray" where
  "clock_at loc c = (case map_of (timers c) loc of Some ts \<Rightarrow> (ts, c)
     | None \<Rightarrow> (\<lparr>ts_time = 0, ts_count = 0\<rparr>, c\<lparr>timers := oput loc \<lparr>ts_time = 0, ts_count = 0\<rparr> (timers c)\<rparr>))"

definition clock_contains :: "LocationType \<Rightarrow> ClockArray \<Rightarrow> bool" where
  "clock_contains loc c \<longleftrightarrow> map_of (timers c) loc \<noteq> None"

definition add_time :: "LocationType \<Rightarrow> timeStore \<Rightarrow> ClockArray \<Rightarrow> ClockArray" where
  "add_time ident ts c = (case map_of (timers c) ident of
     None \<Rightarrow> c\<lparr>timers := oput ident ts (timers c)\<rparr>
   | Some old \<Rightarrow> c\<lparr>timers := oput ident \<lparr>ts_time = ts_time old + ts_time ts, ts_count = ts_count old + ts_count ts\<rparr> (timers c)\<rparr>)"

definition no_tik_message :: "LocationType \<Rightarrow> string" where
  "no_tik_message ident = ''No paired Tik statement found in queue'' @ tab @ ''Tak values'' @ loc_at ident 3 @ '':'' @ loc_at ident 1
     @ tab @ loc_at ident 0 @ tab @ loc_at ident 2"

text \<open>
  The key of the finished measurement takes line and column from the matching \<open>Tik\<close>, but file
  and thread from the \<open>Tak\<close>.
\<close>

fun merge_id :: "LocationType \<Rightarrow> LocationType \<Rightarrow> LocationType" where
  "merge_id (Loc f1 l1 c1 file1 th1) (Loc f2 l2 c2 file2 th2) = Loc f2 l1 c1 file2 th2"

definition Tak ::
    "(int \<Rightarrow> int \<Rightarrow> int) \<Rightarrow> string \<Rightarrow> source_location \<Rightarrow> int \<Rightarrow> (ClockArray, fault, unit) action" where
  "Tak timeConverter thread location new_time = (\<lambda>c. case GetFileState thread location of
     Inl e \<Rightarrow> (Inl e, c)
   | Inr ident \<Rightarrow>
       (case to_tak c of
          [] \<Rightarrow> (Inl (Std (logic_error (no_tik_message ident))), c)
        | top_id # rest \<Rightarrow>
            if loc_at top_id 0 \<noteq> loc_at ident 0 then (Inl (Std (logic_error (no_tik_message ident))), c)
            else let ident' = merge_id top_id ident;
                     (t0, c1) = at_start ident' (c\<lparr>to_tak := rest\<rparr>)
                 in (Inr (), add_time ident' \<lparr>ts_time = timeConverter new_time t0, ts_count = 1\<rparr> c1)))"

definition Reset :: "(ClockArray, fault, unit) action" where
  "Reset = (\<lambda>c. if to_tak c \<noteq> [] then (Inl (Std (logic_error ''Missing Tak statements for Tik ones'')), c)
     else (Inr (), c\<lparr>timers := [], starting := []\<rparr>))"

definition ResetTimer :: "LocationType \<Rightarrow> ClockArray \<Rightarrow> ClockArray" where
  "ResetTimer loc c = (if clock_contains loc c then c\<lparr>timers := adel loc (timers c)\<rparr> else c)"

definition advance :: "ClockArray \<Rightarrow> ClockArray \<Rightarrow> ClockArray" where
  "advance other c = fold (\<lambda>(loc, ts). add_time loc ts) (timers other) c"

definition print_clock :: "ClockArray \<Rightarrow> string" where
  "print_clock c = ''Function name'' @ tab @ ''Thread'' @ tab @ ''Line'' @ tab @ ''Time'' @ newline @
    concat (map (\<lambda>(loc, ts). loc_at loc 0 @ tab @ loc_at loc 4 @ tab @ loc_at loc 3 @ '':'' @ loc_at loc 1 @ tab
      @ show_int (ts_time ts) @ newline) (timers c))"

section \<open>Traces\<close>

datatype clock_event = ETik string source_location int | ETak string source_location int

fun clock_step :: "(int \<Rightarrow> int \<Rightarrow> int) \<Rightarrow> clock_event \<Rightarrow> (ClockArray, fault, unit) action" where
  "clock_step conv (ETik thread l now) = Tik thread l now"
| "clock_step conv (ETak thread l now) = Tak conv thread l now"

fun run_clock :: "(int \<Rightarrow> int \<Rightarrow> int) \<Rightarrow> clock_event list \<Rightarrow> (ClockArray, fault, unit) action" where
  "run_clock conv [] = sret ()"
| "run_clock conv (e # es) = sbind (clock_step conv e) (\<lambda>_. run_clock conv es)"

text \<open>
  Properly nested measurements, each \<open>Tak\<close> in the function of its \<open>Tik\<close>, with their number.
\<close>

inductive nested :: "clock_event list \<Rightarrow> nat \<Rightarrow> bool" where
  nested_none: "nested [] 0"
| nested_pair: "GetFileState th1 l1 = Inr id1 \<Longrightarrow> GetFileState th2 l2 = Inr id2 \<Longrightarrow> loc_at id1 0 = loc_at id2 0 \<Longrightarrow>
    nested xs m \<Longrightarrow> nested ys n \<Longrightarrow> nested (ETik th1 l1 t # xs @ ETak th2 l2 u # ys) (m + n + 1)"

definition total_count :: "ClockArray \<Rightarrow> nat" where
  "total_count c = sum_list (map (ts_count \<circ> snd) (timers c))"

definition clock_inv :: "ClockArray \<Rightarrow> bool" where
  "clock_inv c \<longleftrightarrow> ordered (timers c) \<and> ordered (starting c) \<and> set (to_tak c) \<subseteq> fst ` set (starting c)"

section \<open>Lemmas\<close>

lemma clock_inv_new: "clock_inv new_ClockArray"
  by (simp add: clock_inv_def new_ClockArray_def)

lemma clock_inv_Tik:
  "clock_inv c \<Longrightarrow> Tik th l now c = (r, c') \<Longrightarrow> clock_inv c'"
  by (auto simp: Tik_def clock_inv_def split: sum.splits)

lemma add_time_simps [simp]:
  "starting (add_time ident ts c) = starting c" "to_tak (add_time ident ts c) = to_tak c"
  by (simp_all add: add_time_def split: option.splits)

lemma clock_inv_add_time: "clock_inv c \<Longrightarrow> clock_inv (add_time ident ts c)"
  by (auto simp: clock_inv_def add_time_def split: option.splits)

lemma map_of_add_time:
  "clock_inv c \<Longrightarrow> map_of (timers (add_time ident ts c)) = (map_of (timers c))(ident \<mapsto>
    (case map_of (timers c) ident of None \<Rightarrow> ts
     | Some old \<Rightarrow> \<lparr>ts_time = ts_time old + ts_time ts, ts_count = ts_count old + ts_count ts\<rparr>))"
  by (auto simp: clock_inv_def add_time_def split: option.splits)

lemma total_count_add_time:
  assumes "clock_inv c"
  shows "total_count (add_time ident ts c) = total_count c + ts_count ts"
proof (cases "map_of (timers c) ident")
  case None
  with assms sum_list_oput [of "timers c" ts_count ident ts] show ?thesis
    by (simp add: clock_inv_def add_time_def total_count_def)
next
  case (Some old)
  with assms sum_list_oput [of "timers c" ts_count ident
      "\<lparr>ts_time = ts_time old + ts_time ts, ts_count = ts_count old + ts_count ts\<rparr>"] show ?thesis
    by (simp add: clock_inv_def add_time_def total_count_def)
qed

lemma at_start_props:
  assumes "at_start ident c = (t, c')" and "clock_inv c"
  shows "clock_inv c'" and "timers c' = timers c" and "to_tak c' = to_tak c"
    and "t = (case map_of (starting c) ident of None \<Rightarrow> 0 | Some t \<Rightarrow> t)"
  using assms by (auto simp: at_start_def clock_inv_def split: option.splits)

lemma clock_inv_pop: "clock_inv c \<Longrightarrow> to_tak c = top_id # rest \<Longrightarrow> clock_inv (c\<lparr>to_tak := rest\<rparr>)"
  by (simp add: clock_inv_def)

text \<open>A \<open>Tak\<close> whose function is on top of the stack.\<close>

lemma Tak_matched:
  assumes inv: "clock_inv c" and top_id: "to_tak c = top_id # rest" and ident: "GetFileState th l = Inr ident"
    and same: "loc_at top_id 0 = loc_at ident 0"
  defines "key \<equiv> merge_id top_id ident"
  defines "t0 \<equiv> case map_of (starting c) key of None \<Rightarrow> 0 | Some t \<Rightarrow> t"
  shows "\<exists>c'. Tak conv th l now c = (Inr (), c') \<and> clock_inv c' \<and> to_tak c' = rest \<and>
    total_count c' = total_count c + 1 \<and>
    map_of (timers c') = (map_of (timers c))(key \<mapsto> (case map_of (timers c) key of
        None \<Rightarrow> \<lparr>ts_time = conv now t0, ts_count = 1\<rparr>
      | Some old \<Rightarrow> \<lparr>ts_time = ts_time old + conv now t0, ts_count = ts_count old + 1\<rparr>))"
proof -
  obtain t c1 where s: "at_start key (c\<lparr>to_tak := rest\<rparr>) = (t, c1)" by fastforce
  note p = at_start_props [OF s clock_inv_pop [OF inv top_id]]
  have t: "t = t0" using p(4) by (simp add: t0_def)
  let ?ts = "\<lparr>ts_time = conv now t0, ts_count = 1\<rparr>"
  have "Tak conv th l now c = (Inr (), add_time key ?ts c1)"
    using ident top_id same s by (simp add: Tak_def Let_def key_def t)
  moreover have "total_count (add_time key ?ts c1) = total_count c + 1"
    using total_count_add_time [OF p(1)] p(2) by (simp add: total_count_def)
  moreover have "map_of (timers (add_time key ?ts c1)) = (map_of (timers c))(key \<mapsto> (case map_of (timers c) key of
        None \<Rightarrow> \<lparr>ts_time = conv now t0, ts_count = 1\<rparr>
      | Some old \<Rightarrow> \<lparr>ts_time = ts_time old + conv now t0, ts_count = ts_count old + 1\<rparr>))"
    using map_of_add_time [OF p(1), of key ?ts] p(2) by (simp split: option.splits)
  ultimately show ?thesis using clock_inv_add_time [OF p(1)] p(3) by (intro exI [of _ "add_time key ?ts c1"]) simp
qed

lemma clock_inv_Tak:
  assumes "clock_inv c" and "Tak conv th l now c = (r, c')"
  shows "clock_inv c'"
proof (cases "\<exists>ident top_id rest. GetFileState th l = Inr ident \<and> to_tak c = top_id # rest \<and> loc_at top_id 0 = loc_at ident 0")
  case True
  then obtain ident top_id rest where h: "GetFileState th l = Inr ident" "to_tak c = top_id # rest" "loc_at top_id 0 = loc_at ident 0" by blast
  from Tak_matched [OF assms(1) h(2,1,3), of conv now] assms(2) show ?thesis by auto
next
  case False
  with assms show ?thesis by (auto simp: Tak_def split: sum.splits list.splits if_splits)
qed

lemma run_clock_append: "run_clock conv (xs @ ys) = sbind (run_clock conv xs) (\<lambda>_. run_clock conv ys)"
  by (induction xs) (auto simp: sbind_def fun_eq_iff split: prod.splits sum.splits)

lemma nested_run:
  assumes "nested evs n" and "clock_inv c"
  shows "\<exists>c'. run_clock conv evs c = (Inr (), c') \<and> clock_inv c' \<and> to_tak c' = to_tak c \<and>
    total_count c' = total_count c + n"
  using assms
proof (induction arbitrary: c rule: nested.induct)
  case nested_none
  then show ?case by simp
next
  case (nested_pair th1 l1 id1 th2 l2 id2 xs m ys n t u)
  let ?c1 = "c\<lparr>starting := oput id1 t (starting c), to_tak := id1 # to_tak c\<rparr>"
  have tik: "Tik th1 l1 t c = (Inr (), ?c1)" using nested_pair(1) by (simp add: Tik_def)
  note inv1 = clock_inv_Tik [OF nested_pair.prems tik]
  from nested_pair.IH(1) [OF inv1] obtain c2 where c2: "run_clock conv xs ?c1 = (Inr (), c2)" "clock_inv c2"
      "to_tak c2 = id1 # to_tak c" "total_count c2 = total_count c + m"
    by (auto simp: total_count_def)
  from Tak_matched [OF c2(2,3) nested_pair(2,3), of conv u] obtain c3
    where c3: "Tak conv th2 l2 u c2 = (Inr (), c3)" "clock_inv c3" "to_tak c3 = to_tak c"
      "total_count c3 = total_count c + m + 1" using c2(4) by auto
  from nested_pair.IH(2) [OF c3(2)] obtain c4 where c4: "run_clock conv ys c3 = (Inr (), c4)" "clock_inv c4"
      "to_tak c4 = to_tak c" "total_count c4 = total_count c + m + 1 + n" using c3(3,4) by auto
  have "run_clock conv (ETik th1 l1 t # xs @ ETak th2 l2 u # ys) c = (Inr (), c4)"
    using tik c2(1) c3(1) c4(1) by (simp add: run_clock_append sbind_apply)
  with c4 show ?case by simp
qed

section \<open>Properties\<close>


definition sample_location :: source_location where
  "sample_location = \<lparr>function_name = ''int main()'', file_name = ''/b.cpp'', src_line = 1, src_column = 2\<rparr>"

lemma sample_location_id: "GetFileState ''7'' sample_location = Inr (Loc ''main'' ''1'' ''2'' ''b.cpp'' ''7'')"
proof -
  have "show_nat 1 = ''1''" "show_nat 2 = ''2''" by code_simp+
  then show ?thesis
    by (simp add: GetFileState_def sample_location_def find_pos_def rfind_pos_def Let_def substr_def)
qed


lemma advance_lookup:
  "clock_inv c \<Longrightarrow> distinct (map fst m) \<Longrightarrow> clock_inv (fold (\<lambda>(loc, ts). add_time loc ts) m c) \<and>
    map_of (timers (fold (\<lambda>(loc, ts). add_time loc ts) m c)) k =
    (case map_of m k of None \<Rightarrow> map_of (timers c) k
     | Some ts \<Rightarrow> Some (case map_of (timers c) k of None \<Rightarrow> ts
         | Some old \<Rightarrow> \<lparr>ts_time = ts_time old + ts_time ts, ts_count = ts_count old + ts_count ts\<rparr>))"
proof (induction m arbitrary: c)
  case (Cons p m)
  obtain loc ts where p: "p = (loc, ts)" by fastforce
  note inv = clock_inv_add_time [OF Cons.prems(1), of loc ts]
  from Cons.prems(2) p have d: "distinct (map fst m)" and no: "map_of m loc = None"
    by (auto simp: map_of_None_iff)
  from Cons.IH [OF inv d] show ?case
    using no by (auto simp: p map_of_add_time [OF Cons.prems(1)] split: option.splits)
qed simp

text \<open>\<open>advance\<close> adds the times and counts of the other clock key by key, takes over its other
keys, and keeps the invariant.\<close>

theorem advance_adds:
  assumes "clock_inv c" and "clock_inv other"
  shows "clock_inv (advance other c) \<and>
    map_of (timers (advance other c)) k =
    (case map_of (timers other) k of None \<Rightarrow> map_of (timers c) k
     | Some ts \<Rightarrow> Some (case map_of (timers c) k of None \<Rightarrow> ts
         | Some old \<Rightarrow> \<lparr>ts_time = ts_time old + ts_time ts, ts_count = ts_count old + ts_count ts\<rparr>))"
  unfolding advance_def using advance_lookup [OF assms(1)] assms(2) by (simp add: clock_inv_def ordered_distinct)

theorem advance_adds_witness:
  "let a = Loc ''f'' ''1'' ''2'' ''b.cpp'' ''7''; c = add_time a \<lparr>ts_time = 3, ts_count = 1\<rparr> new_ClockArray
   in map_of (timers (advance c c)) a = Some \<lparr>ts_time = 6, ts_count = 2\<rparr>"
proof -
  let ?a = "Loc ''f'' ''1'' ''2'' ''b.cpp'' ''7''" and ?ts = "\<lparr>ts_time = 3, ts_count = 1\<rparr> :: timeStore"
  let ?c = "add_time ?a ?ts new_ClockArray"
  have inv: "clock_inv ?c" by (rule clock_inv_add_time [OF clock_inv_new])
  have "map_of (timers ?c) ?a = Some ?ts" by (simp add: add_time_def new_ClockArray_def)
  with advance_adds [OF inv inv, of ?a] have "map_of (timers (advance ?c ?c)) ?a = Some \<lparr>ts_time = 3 + 3, ts_count = 1 + 1\<rparr>"
    by simp
  then show ?thesis by (simp add: numeral_2_eq_2)
qed

end
