(* ===== verification/Generators.thy ===== *)
theory Generators
  imports NetworkTypes
begin

text \<open>
  \<open>Generator.h/.cpp\<close>: the choice of a random distribution from the arguments of a task.  A
  \<open>DistributionFunctor\<close> is described by the distribution and its parameters; the numbers the
  engine of the calling thread draws are an argument of the code that calls it.
\<close>

datatype DistributionType = NORMAL | UNIFORM | EXPONENTIAL | LAST

definition stringToDistributionType :: "(string \<times> DistributionType) list" where
  "stringToDistributionType = [(''normal'', NORMAL), (''uniform'', UNIFORM), (''exponential'', EXPONENTIAL)]"

fun distribution_index :: "DistributionType \<Rightarrow> nat" where
  "distribution_index NORMAL = 0"
| "distribution_index UNIFORM = 1"
| "distribution_index EXPONENTIAL = 2"
| "distribution_index LAST = 3"

definition distribution_size :: nat where
  "distribution_size = distribution_index LAST - distribution_index NORMAL"

definition distros :: "string list" where
  "distros = [''normal'', ''uniform'', ''exponential'']"

datatype 'f DistributionFunctor =
    normal_distribution 'f 'f
  | uniform_real_distribution 'f 'f
  | exponential_distribution 'f
  | constant_one

definition get_normal_generator :: "'f \<Rightarrow> 'f \<Rightarrow> 'f DistributionFunctor" where
  "get_normal_generator mean dev = normal_distribution mean dev"

definition get_uniform_generator :: "'f \<Rightarrow> 'f \<Rightarrow> 'f DistributionFunctor" where
  "get_uniform_generator a b = uniform_real_distribution a b"

definition get_exponential_generator :: "'f \<Rightarrow> 'f DistributionFunctor" where
  "get_exponential_generator lambda = exponential_distribution lambda"

text \<open>\<open>get<FloatType>(args.at(key))\<close>: an integer in the arguments is not converted.\<close>

definition double_arg :: "(string \<times> 'f JsonVariant) list \<Rightarrow> string \<Rightarrow> fault + 'f" where
  "double_arg as key =
    (case map_of as key of
       None \<Rightarrow> Inl (Std (out_of_range ''unordered_map::at''))
     | Some (V_double d) \<Rightarrow> Inr d
     | Some _ \<Rightarrow> Inl (Std bad_variant_access))"

definition ParseFunc_type ::
    "DistributionType \<Rightarrow> (string \<times> 'f JsonVariant) list \<Rightarrow> fault + 'f DistributionFunctor" where
  "ParseFunc_type distribution_type as =
    (case distribution_type of
       NORMAL \<Rightarrow> rbind (double_arg as ''mean'') (\<lambda>m. rbind (double_arg as ''dev'') (\<lambda>d. Inr (get_normal_generator m d)))
     | UNIFORM \<Rightarrow> rbind (double_arg as ''a'') (\<lambda>a. rbind (double_arg as ''b'') (\<lambda>b. Inr (get_uniform_generator a b)))
     | EXPONENTIAL \<Rightarrow> rbind (double_arg as ''lambda'') (\<lambda>l. Inr (get_exponential_generator l))
     | LAST \<Rightarrow> Inr constant_one)"

definition ParseFunc :: "string \<Rightarrow> (string \<times> 'f JsonVariant) list \<Rightarrow> fault + 'f DistributionFunctor" where
  "ParseFunc type as =
    (case map_of stringToDistributionType type of
       None \<Rightarrow> Inl (Thrown (InvalidOption type))
     | Some t \<Rightarrow> ParseFunc_type t as)"

lemma distros_table:
  "length distros = distribution_size"
  "t \<noteq> LAST \<Longrightarrow> map_of stringToDistributionType (distros ! distribution_index t) = Some t"
  by (simp_all add: distros_def distribution_size_def) (cases t; simp add: stringToDistributionType_def)

lemma stringToDistributionType_domain:
  "map_of stringToDistributionType type = None \<longleftrightarrow> type \<notin> {''normal'', ''uniform'', ''exponential''}"
  by (auto simp: stringToDistributionType_def)

lemma double_arg_Inr: "double_arg as k = Inr d \<longleftrightarrow> map_of as k = Some (V_double d)"
  by (auto simp: double_arg_def split: option.splits JsonVariant.splits)



end
