(* ===== verification/Benchmark.thy ===== *)
theory Benchmark
  imports Dipoles Mesh ClockArray Generators SharedConstants JsonContainers
begin

text \<open>
  \<open>BenchmarkRunnerService.h/.cpp\<close>: the benchmark a worker measures itself with and the
  callback that computes a task from the queue.  Both run the same simulation step in a loop
  that OpenMP splits among threads; the threads work on private copies and only add into a
  shared array under a lock, so the model runs the iterations in order on one thread.  The drawn
  coordinates, the clock readings and the LU solver are arguments.
\<close>

section \<open>One configuration\<close>

definition solve_and_map :: "lu_solver \<Rightarrow> real list \<Rightarrow> Dipoles \<times> MeshCreator \<Rightarrow> fault + Dipoles \<times> MeshCreator" where
  "solve_and_map lu coordinates = (\<lambda>(dipoles1, ms).
    rbind (SetNewCoordinates (Flat coordinates) dipoles1) (\<lambda>dipoles1.
    rbind (Solve_EigenVec lu dipoles1) (\<lambda>sol.
      let dipoles1 = GetFullFunction (Flat coordinates) sol dipoles1
      in rbind (GetI2Function dipoles1) (\<lambda>f.
           case ApplyFunction f ms of (Inl e, _) \<Rightarrow> Inl e | (Inr _, ms) \<Rightarrow> Inr (dipoles1, ms)))))"

text \<open>The default mesh both loops start from.\<close>

definition start_mesh :: "fault + MeshCreator" where
  "start_mesh = (case ConstructMeshes_opt None None (new_MeshCreator True) of
     (Inl e, _) \<Rightarrow> Inl e | (Inr _, ms) \<Rightarrow> Inr ms)"

text \<open>No exception may leave an OpenMP region: the runtime ends the process.\<close>

definition in_parallel :: "fault + 'a \<Rightarrow> fault + 'a" where
  "in_parallel r = (case r of Inl (UB m) \<Rightarrow> Inl (UB m) | Inl e \<Rightarrow> Inl (UB ''std::terminate'') | Inr x \<Rightarrow> Inr x)"

lemma in_parallel_Inr [simp]: "in_parallel r = Inr x \<longleftrightarrow> r = Inr x" "in_parallel (Inr x) = Inr x"
  by (auto simp: in_parallel_def split: sum.split fault.split)

section \<open>The benchmark\<close>

record BenchmarkRunner =
  bench_ns :: "u64 list"
  bench_iter_counts :: "u64 list"
  clk :: ClockArray

definition bench_iter_num :: u64 where
  "bench_iter_num = 10000"

definition new_BenchmarkRunner :: "u64 list \<Rightarrow> u64 list \<Rightarrow> fault + BenchmarkRunner" where
  "new_BenchmarkRunner nss iter_counts =
    (if length nss \<noteq> length iter_counts
     then Inl (Std (invalid_argument ''ns and iter_counts must have the same size''))
     else Inr \<lparr>bench_ns = nss, bench_iter_counts = iter_counts, clk = new_ClockArray\<rparr>)"

text \<open>
  What a run depends on: the drawn coordinates \<open>be_draw N i k\<close>, the calling thread, the source
  locations of the four clock calls and the clock reading of each call in round \<open>j\<close>.
\<close>

record bench_env =
  be_lu :: lu_solver
  be_draw :: "nat \<Rightarrow> nat \<Rightarrow> nat \<Rightarrow> real"
  be_thread :: string
  be_run_tik :: source_location
  be_run_tak :: source_location
  be_single_tik :: source_location
  be_single_tak :: source_location
  be_time :: "nat \<Rightarrow> nat \<Rightarrow> int"

definition milli :: "int \<Rightarrow> int \<Rightarrow> int" where
  "milli = DoubleCastChrono 1000000"

definition on_clk :: "(ClockArray, fault, 'a) action \<Rightarrow> (BenchmarkRunner, fault, 'a) action" where
  "on_clk act = (\<lambda>r. case act (clk r) of (x, c) \<Rightarrow> (x, r\<lparr>clk := c\<rparr>))"

text \<open>\<open>clk[loc].time\<close> followed by \<open>clk.ResetTimer(loc)\<close>.\<close>

definition take_time :: "LocationType \<Rightarrow> (ClockArray, fault, int) action" where
  "take_time loc = (\<lambda>c. case clock_at loc c of (ts, c) \<Rightarrow> (Inr (ts_time ts), ResetTimer loc c))"

definition bench_loop :: "bench_env \<Rightarrow> nat \<Rightarrow> nat \<Rightarrow> MeshCreator \<Rightarrow> fault + Dipoles \<times> MeshCreator" where
  "bench_loop env N conf_num ms =
    rfold (\<lambda>i. solve_and_map (be_lu env) (map (be_draw env N i) [0..<2 * N])) [0..<conf_num] (new_Dipoles, ms)"

definition RunSingleBenchmark ::
    "bench_env \<Rightarrow> nat \<Rightarrow> u64 \<Rightarrow> u64 \<Rightarrow> (BenchmarkRunner, fault, u64) action" where
  "RunSingleBenchmark env j N conf_num =
    (if conf_num = 0 then slift (Inl (UB ''integer division by zero''))
     else let mul = bench_iter_num div conf_num
     in sbind (slift start_mesh) (\<lambda>ms.
        sbind (on_clk (TikLoc (be_thread env) (be_single_tik env) (be_time env j 2))) (\<lambda>loc.
        sbind (slift (in_parallel (bench_loop env (unat N) (unat conf_num) ms))) (\<lambda>_.
        sbind (on_clk (Tak milli (be_thread env) (be_single_tak env) (be_time env j 3))) (\<lambda>_.
        sbind (on_clk (take_time loc)) (\<lambda>time.
          sret (word_of_int time * mul)))))))"

definition run_round :: "bench_env \<Rightarrow> nat \<Rightarrow> (BenchmarkRunner, fault, u64 \<times> u64) action" where
  "run_round env j = (\<lambda>r. sbind (on_clk (TikLoc (be_thread env) (be_run_tik env) (be_time env j 0))) (\<lambda>loc.
     sbind (RunSingleBenchmark env j (bench_ns r ! j) (bench_iter_counts r ! j)) (\<lambda>result.
     sbind (on_clk (Tak milli (be_thread env) (be_run_tak env) (be_time env j 4))) (\<lambda>_.
     sbind (on_clk (take_time loc)) (\<lambda>rr. sret (result, word_of_int rr))))) r)"

definition BenchmarkRunner_Run :: "bench_env \<Rightarrow> (BenchmarkRunner, fault, u64 list \<times> u64 list) action" where
  "BenchmarkRunner_Run env = (\<lambda>r. sbind (smap (run_round env) [0..<length (bench_ns r)])
     (\<lambda>rs. sret (map fst rs, map snd rs)) r)"

section \<open>Computing a task\<close>

text \<open>
  The callback of the worker's queue.  \<open>broken\<close> is the value a failed parse leaves, \<open>draw g i k\<close>
  the k-th number drawn from \<open>g\<close> in iteration \<open>i\<close>.  The functor is a \<open>thread_local\<close> variable of
  the lambda's body: a thread initialises it when it computes its first task and keeps it, so
  it is the state here.  The loop counter is an \<open>int\<close> compared with a \<open>size_t\<close>: the start is
  truncated, a negative counter compares as a huge one, and ends from \<open>2 ^ 31 - 1\<close> on overflow it.
\<close>

definition task_kind :: "real TestSolveParam \<Rightarrow> fault + string" where
  "task_kind ts = (case map_of (args ts) ''type'' of
     Some (V_string t) \<Rightarrow> Inr t | _ \<Rightarrow> Inl (Std bad_variant_access))"

definition task_step ::
    "lu_solver \<Rightarrow> (nat \<Rightarrow> nat \<Rightarrow> real) \<Rightarrow> nat \<Rightarrow> nat \<Rightarrow> (Dipoles \<times> MeshCreator) \<times> real list \<Rightarrow>
     fault + (Dipoles \<times> MeshCreator) \<times> real list" where
  "task_step lu draw N i = (\<lambda>(dm, res).
    rbind (solve_and_map lu (map (draw i) [0..<2 * N]) dm) (\<lambda>(d, ms).
    rbind (AddMesh res (data ms ! 2)) (\<lambda>res. Inr ((d, ms), res))))"

type_synonym functor_slot = "real DistributionFunctor option"

definition task_functor :: "real TestSolveParam \<Rightarrow> (functor_slot, fault, real DistributionFunctor) action" where
  "task_functor ts = (\<lambda>slot. case slot of
     Some g \<Rightarrow> (Inr g, slot)
   | None \<Rightarrow> (case rbind (task_kind ts) (\<lambda>kind. ParseFunc kind (args ts)) of
        Inl e \<Rightarrow> (Inl e, None) | Inr g \<Rightarrow> (Inr g, Some g)))"

definition task_iterations :: "'f TestSolveParam \<Rightarrow> nat list" where
  "task_iterations ts = (let i = ucast (fst (range ts)) :: 32 word
    in if sint i < 0 then [] else [unat i ..< Suc (unat (snd (range ts)))])"

definition iterate_task ::
    "lu_solver \<Rightarrow> (nat \<Rightarrow> nat \<Rightarrow> real) \<Rightarrow> real TestSolveParam \<Rightarrow> MeshCreator \<Rightarrow> fault + real list" where
  "iterate_task lu draw ts ms =
    rbind (require (uint (snd (range ts)) < 2 ^ 31 - 1) (UB ''signed integer overflow'')) (\<lambda>_.
    rbind (rfold (task_step lu draw (unat (ts_N ts))) (task_iterations ts) ((new_Dipoles, ms), data ms ! 0)) (\<lambda>(dm, res).
      Inr res))"

definition compute_task ::
    "lu_solver \<Rightarrow> (real DistributionFunctor \<Rightarrow> nat \<Rightarrow> nat \<Rightarrow> real) \<Rightarrow> real TestSolveParam \<Rightarrow>
     (functor_slot, fault, real list) action" where
  "compute_task lu draw ts = sbind (slift start_mesh) (\<lambda>ms slot.
     case sbind (task_functor ts) (\<lambda>g. slift (iterate_task lu (draw g) ts ms)) slot of
       (r, slot') \<Rightarrow> (in_parallel r, slot'))"

definition n_message_callback ::
    "('j, real) jsoncpp \<Rightarrow> 'j \<Rightarrow> lu_solver \<Rightarrow> (real DistributionFunctor \<Rightarrow> nat \<Rightarrow> nat \<Rightarrow> real) \<Rightarrow>
     string \<Rightarrow> (functor_slot, fault, 'j) action" where
  "n_message_callback J broken lu draw body =
    sbind (slift (TestSolveParam_FromJson J (case j_parse J body of Inl _ \<Rightarrow> broken | Inr v \<Rightarrow> v))) (\<lambda>ts.
    sbind (compute_task lu draw ts) (\<lambda>res.
      sret (ContinuousToJson J (j_ofDouble J) res False True)))"

section \<open>What one configuration contributes\<close>

text \<open>The intensity over the default mesh of dipoles placed at the given coordinates; it depends
on nothing else, so the iterations of a loop may be distributed in any way.\<close>

definition pattern :: "lu_solver \<Rightarrow> real list \<Rightarrow> fault + real list" where
  "pattern lu xs =
    rbind (Dipoles_of (Flat xs)) (\<lambda>d.
    rbind (Solve_EigenVec lu d) (\<lambda>sol.
      if function_readable (Flat xs) sol
      then Inr (mesh_values kDefaultDims kDefaultLims (i_2_function_value (Flat xs) sol))
      else Inl (UB ''vector index out of bounds'')))"

definition usable :: "Dipoles \<Rightarrow> bool" where
  "usable d \<longleftrightarrow> d = new_Dipoles \<or> (\<exists>k. dip_inv k d)"

lemma SetNewCoordinates_usable:
  assumes "usable d" and "xs \<noteq> []"
  shows "SetNewCoordinates (Flat xs) d = rbind (Dipoles_of (Flat xs)) (\<lambda>d'. Inr (d'\<lparr>captured := captured d\<rparr>))"
  using assms(1) unfolding usable_def
proof
  assume d: "d = new_Dipoles"
  then have "SetNewCoordinates (Flat xs) d = SetMatrixes (Flat xs) (InitArrays (length xs div 2) new_Dipoles)"
    using assms(2) by (simp add: SetNewCoordinates_def new_Dipoles_def)
  then show ?thesis
    by (simp add: SetMatrixes_inv [OF dip_inv_InitArrays] Dipoles_of_Flat Let_def placed_def d new_Dipoles_def)
qed (auto simp: reuse_fresh)

lemma start_mesh_on_grid: "\<exists>ms. start_mesh = Inr ms \<and> on_grid kDefaultDims kDefaultLims ms"
proof -
  obtain ms where ms: "ConstructMeshes_opt None None (new_MeshCreator True) = (Inr (), ms)" using default_mesh by blast
  then have "ConstructMeshes kDefaultDims kDefaultLims (new_MeshCreator True) = (Inr (), ms)"
    by (simp add: ConstructMeshes_opt_def new_MeshCreator_def)
  from ConstructMeshes_on_grid [OF this] have "on_grid kDefaultDims kDefaultLims ms" by (simp add: new_MeshCreator_def)
  with ms show ?thesis by (simp add: start_mesh_def)
qed

lemma solve_and_map_pattern:
  assumes "usable d" and "xs \<noteq> []" and grid: "on_grid kDefaultDims kDefaultLims ms"
  shows "case pattern lu xs of Inl e \<Rightarrow> solve_and_map lu xs (d, ms) = Inl e
    | Inr p \<Rightarrow> \<exists>d'. solve_and_map lu xs (d, ms) = Inr (d', ms\<lparr>data := (data ms)[2 := p]\<rparr>) \<and> usable d'"
proof (cases "Dipoles_of (Flat xs)")
  case (Inl e)
  then show ?thesis by (simp add: pattern_def solve_and_map_def SetNewCoordinates_usable [OF assms(1,2)])
next
  case (Inr d1)
  have inv: "dip_inv (length xs div 2) d1" by (rule Dipoles_of_Flat_inv [OF Inr])
  have cap: "Solve_EigenVec lu (d1\<lparr>captured := c\<rparr>) = Solve_EigenVec lu d1" for c
    by (simp add: Solve_EigenVec_def Solve_halves_def get_n_def normal_matrix_def)
  have us: "usable (d1\<lparr>captured := c\<rparr>)" for c
    using inv by (auto simp: usable_def dip_inv_def)
  from Inr show ?thesis
    by (cases "Solve_EigenVec lu d1")
      (auto simp: pattern_def solve_and_map_def SetNewCoordinates_usable [OF assms(1,2)] cap us Let_def
        GetFullFunction_def GetI2Function_def ApplyFunction_on_grid(1) [OF grid])
qed

lemma pattern_length: "pattern lu xs = Inr p \<Longrightarrow> length p = 175"
  by (auto simp: pattern_def rbind_eq_Inr kDefaultDims_def split: if_splits)

lemma task_step_pattern:
  assumes "usable d" and "0 < N" and "on_grid kDefaultDims kDefaultLims ms" and "length res = 175"
  shows "case pattern lu (map (draw i) [0..<2 * N]) of Inl e \<Rightarrow> task_step lu draw N i ((d, ms), res) = Inl e
    | Inr p \<Rightarrow> \<exists>d' ms'. task_step lu draw N i ((d, ms), res) = Inr ((d', ms'), map2 (+) res p) \<and> usable d' \<and>
        on_grid kDefaultDims kDefaultLims ms'"
proof -
  have "map (draw i) [0..<2 * N] \<noteq> []" using assms(2) by simp
  note sm = solve_and_map_pattern [OF assms(1) this assms(3), of lu]
  have "length (data ms) = 3" using assms(3) by (simp add: on_grid_def)
  with sm assms(3,4) show ?thesis
    by (auto simp: task_step_def AddMesh_def pattern_length ApplyFunction_on_grid(2) split: sum.splits)
qed

lemma task_loop:
  assumes "usable d" and "0 < N" and "on_grid kDefaultDims kDefaultLims ms" and "length res = 175"
  shows "(\<exists>i\<in>set is. \<exists>e. pattern lu (map (draw i) [0..<2 * N]) = Inl e \<and>
      (\<exists>e'. rfold (task_step lu draw N) is ((d, ms), res) = Inl e')) \<or>
    (\<exists>dm p. (\<forall>i\<in>set is. pattern lu (map (draw i) [0..<2 * N]) = Inr (p i)) \<and>
      rfold (task_step lu draw N) is ((d, ms), res) = Inr (dm, foldl (map2 (+)) res (map p is)))"
  using assms(1,3,4)
proof (induction "is" arbitrary: d ms res)
  case Nil
  then show ?case by simp
next
  case (Cons i "is")
  note st = task_step_pattern [OF Cons.prems(1) assms(2) Cons.prems(2,3), of lu draw i]
  show ?case
  proof (cases "pattern lu (map (draw i) [0..<2 * N])")
    case (Inl e)
    with st show ?thesis by auto
  next
    case (Inr q)
    with st obtain d' ms' where s: "task_step lu draw N i ((d, ms), res) = Inr ((d', ms'), map2 (+) res q)"
      "usable d'" "on_grid kDefaultDims kDefaultLims ms'" by auto
    have "length (map2 (+) res q) = 175" using Cons.prems(3) pattern_length [OF Inr] by simp
    from Cons.IH [OF s(2,3) this] show ?thesis
    proof
      assume "\<exists>dm p. (\<forall>i\<in>set is. pattern lu (map (draw i) [0..<2 * N]) = Inr (p i)) \<and>
        rfold (task_step lu draw N) is ((d', ms'), map2 (+) res q) = Inr (dm, foldl (map2 (+)) (map2 (+) res q) (map p is))"
      then obtain dm p where p: "\<forall>i\<in>set is. pattern lu (map (draw i) [0..<2 * N]) = Inr (p i)"
        "rfold (task_step lu draw N) is ((d', ms'), map2 (+) res q) = Inr (dm, foldl (map2 (+)) (map2 (+) res q) (map p is))"
        by blast
      let ?p = "\<lambda>k. if k = i then q else p k"
      have "\<forall>k\<in>set (i # is). pattern lu (map (draw k) [0..<2 * N]) = Inr (?p k)" using p(1) Inr by auto
      moreover have mp: "map ?p is = map p is" using p(1) Inr by (intro map_cong) auto
      have "foldl (map2 (+)) res (map ?p (i # is)) = foldl (map2 (+)) (map2 (+) res q) (map p is)"
        by (simp only: list.map foldl.simps mp simp_thms if_True)
      moreover have "rfold (task_step lu draw N) (i # is) ((d, ms), res) =
          Inr (dm, foldl (map2 (+)) (map2 (+) res q) (map p is))" using p(2) s(1) by simp
      ultimately show ?thesis by (intro disjI2 exI [of _ dm] exI [of _ ?p] conjI) (blast, simp only:)
    qed (use s(1) in auto)
  qed
qed

lemma foldl_map2_nth:
  assumes "\<forall>p\<in>set ps. length p = n" and "length res = n"
  shows "length (foldl (map2 (+)) res ps) = n \<and>
    (\<forall>k<n. foldl (map2 (+)) res ps ! k = res ! k + (\<Sum>p\<leftarrow>ps. p ! k :: real))"
  using assms
proof (induction ps arbitrary: res)
  case (Cons p ps)
  then have "length (map2 (+) res p) = n" by simp
  with Cons show ?case by (simp add: add.assoc)
qed simp

lemma start_mesh_grid: "start_mesh = Inr ms \<Longrightarrow> data ms ! 0 = map (\<lambda>k. lin 0 (pi * 2) 25 (k mod 25)) [0..<175]"
proof -
  assume ms: "start_mesh = Inr ms"
  from start_mesh_on_grid obtain m where "start_mesh = Inr m" "on_grid kDefaultDims kDefaultLims m" by blast
  with ms have "on_grid kDefaultDims kDefaultLims ms" by (metis sum.inject(2))
  then show ?thesis by (simp add: on_grid_def kDefaultDims_def kDefaultLims_def)
qed

text \<open>The iterations of a task, once its distribution is known.\<close>

definition configuration :: "(real DistributionFunctor \<Rightarrow> nat \<Rightarrow> nat \<Rightarrow> real) \<Rightarrow> real DistributionFunctor \<Rightarrow>
    real TestSolveParam \<Rightarrow> nat \<Rightarrow> real list" where
  "configuration draw g ts i = map (draw g i) [0..<2 * unat (ts_N ts)]"

lemma task_iterations_range:
  assumes "unat (fst (range ts)) \<le> unat (snd (range ts))" and "uint (snd (range ts)) < 2 ^ 31 - 1"
  shows "task_iterations ts = [unat (fst (range ts)) ..< Suc (unat (snd (range ts)))]"
proof -
  have f: "uint (fst (range ts)) < 2 ^ 31" using assms by (simp add: word_le_nat_alt [symmetric] word_le_def)
  then have u: "uint (ucast (fst (range ts)) :: 32 word) = uint (fst (range ts))"
    by (simp add: unsigned_ucast_eq take_bit_int_eq_self)
  then have "sint (ucast (fst (range ts)) :: 32 word) = uint (fst (range ts))"
    using f order_trans [OF _ uint_ge_0 [of "fst (range ts)"], of "- (2 ^ 31)"]
    by (simp only: sint_uint u) (rule signed_take_bit_int_eq_self; simp)
  moreover have "unat (ucast (fst (range ts)) :: 32 word) = unat (fst (range ts))"
    by (simp only: unat_eq_nat_uint u)
  ultimately show ?thesis by (simp add: task_iterations_def Let_def)
qed

lemma task_functor_Inr: "task_functor ts slot = (Inr g, slot') \<Longrightarrow> slot' = Some g"
  by (auto simp: task_functor_def split: option.splits sum.splits)

lemma iterate_task_Inr:
  assumes "ts_N ts \<noteq> 0" and ms: "start_mesh = Inr ms"
  shows "iterate_task lu (draw g) ts ms = Inr res \<longleftrightarrow> uint (snd (range ts)) < 2 ^ 31 - 1 \<and>
    (\<exists>p. (\<forall>i\<in>set (task_iterations ts). pattern lu (configuration draw g ts i) = Inr (p i)) \<and>
      res = foldl (map2 (+)) (map (\<lambda>k. lin 0 (pi * 2) 25 (k mod 25)) [0..<175]) (map p (task_iterations ts)))"
    (is "?l \<longleftrightarrow> ?r")
proof -
  from start_mesh_on_grid ms have grid: "on_grid kDefaultDims kDefaultLims ms" by (metis sum.inject(2))
  have N: "0 < unat (ts_N ts)" using assms(1) by (simp add: unat_gt_0)
  have us: "usable new_Dipoles" by (simp add: usable_def)
  have len: "length (data ms ! 0) = 175" using start_mesh_grid [OF ms] by simp
  have loop: "(\<exists>i\<in>set (task_iterations ts). \<exists>e. pattern lu (configuration draw g ts i) = Inl e \<and>
      (\<exists>e'. rfold (task_step lu (draw g) (unat (ts_N ts))) (task_iterations ts) ((new_Dipoles, ms), data ms ! 0) = Inl e')) \<or>
    (\<exists>dm p. (\<forall>i\<in>set (task_iterations ts). pattern lu (configuration draw g ts i) = Inr (p i)) \<and>
      rfold (task_step lu (draw g) (unat (ts_N ts))) (task_iterations ts) ((new_Dipoles, ms), data ms ! 0) =
        Inr (dm, foldl (map2 (+)) (data ms ! 0) (map p (task_iterations ts))))"
    using task_loop [OF us N grid len, of "task_iterations ts" lu "draw g"] by (simp only: configuration_def)
  have same: "map p (task_iterations ts) = map q (task_iterations ts)"
    if "\<forall>i\<in>set (task_iterations ts). pattern lu (configuration draw g ts i) = Inr (p i)"
      "\<forall>i\<in>set (task_iterations ts). pattern lu (configuration draw g ts i) = Inr (q i)" for p q
    using that by (intro map_cong) auto
  show ?thesis
  proof
    assume ?l
    then obtain dm where k: "uint (snd (range ts)) < 2 ^ 31 - 1"
      and r: "rfold (task_step lu (draw g) (unat (ts_N ts))) (task_iterations ts) ((new_Dipoles, ms), data ms ! 0) = Inr (dm, res)"
      by (auto simp: iterate_task_def rbind_eq_Inr require_eq_Inr)
    from loop r start_mesh_grid [OF ms] k show ?r by auto
  next
    assume ?r
    then obtain p where k: "uint (snd (range ts)) < 2 ^ 31 - 1"
      and p: "\<forall>i\<in>set (task_iterations ts). pattern lu (configuration draw g ts i) = Inr (p i)"
      and res: "res = foldl (map2 (+)) (map (\<lambda>k. lin 0 (pi * 2) 25 (k mod 25)) [0..<175]) (map p (task_iterations ts))" by blast
    from loop p obtain dm q where q: "\<forall>i\<in>set (task_iterations ts). pattern lu (configuration draw g ts i) = Inr (q i)"
      "rfold (task_step lu (draw g) (unat (ts_N ts))) (task_iterations ts) ((new_Dipoles, ms), data ms ! 0) =
        Inr (dm, foldl (map2 (+)) (data ms ! 0) (map q (task_iterations ts)))" by auto
    with k res start_mesh_grid [OF ms] same [OF p q(1)] show ?l by (simp add: iterate_task_def)
  qed
qed

lemma compute_task_Inr:
  assumes "ts_N ts \<noteq> 0"
  shows "compute_task lu draw ts slot = (Inr res, slot') \<longleftrightarrow>
    (\<exists>g p. task_functor ts slot = (Inr g, slot') \<and> uint (snd (range ts)) < 2 ^ 31 - 1 \<and>
      (\<forall>i\<in>set (task_iterations ts). pattern lu (configuration draw g ts i) = Inr (p i)) \<and>
      res = foldl (map2 (+)) (map (\<lambda>k. lin 0 (pi * 2) 25 (k mod 25)) [0..<175]) (map p (task_iterations ts)))"
proof -
  obtain ms where ms: "start_mesh = Inr ms" using start_mesh_on_grid by blast
  obtain r s where f: "task_functor ts slot = (r, s)" by fastforce
  show ?thesis
    by (cases r) (auto simp: compute_task_def ms sbind_apply f iterate_task_Inr [OF assms ms])
qed

section \<open>The measurements of a round\<close>

text \<open>The location of a clock call that opens a section and the one that closes it.\<close>

definition clock_site :: "string \<Rightarrow> source_location \<Rightarrow> source_location \<Rightarrow> LocationType \<Rightarrow> bool" where
  "clock_site thread tik tak a \<longleftrightarrow> GetFileState thread tik = Inr a \<and>
    (\<exists>b. GetFileState thread tak = Inr b \<and> merge_id a b = a)"

lemma section_start:
  assumes "clock_site th tik tak a" and "clock_inv c"
  shows "TikLoc th tik t c = (Inr a, c\<lparr>starting := oput a t (starting c), to_tak := a # to_tak c\<rparr>)"
    and "clock_inv (c\<lparr>starting := oput a t (starting c), to_tak := a # to_tak c\<rparr>)"
  using assms by (auto simp: clock_site_def TikLoc_def Tik_def sbind_apply clock_inv_def)

lemma section_end:
  assumes site: "clock_site th tik tak a" and inv: "clock_inv c" and st: "to_tak c = a # rest"
    and start: "map_of (starting c) a = Some t1" and fresh: "map_of (timers c) a = None"
  shows "\<exists>c3. Tak conv th tak t2 c = (Inr (), c3) \<and> take_time a c3 = (Inr (conv t2 t1), c\<lparr>to_tak := rest\<rparr>)"
proof -
  from site obtain b where b: "GetFileState th tak = Inr b" "merge_id a b = a" by (auto simp: clock_site_def)
  then have "loc_at a 0 = loc_at b 0" by (cases a; cases b) simp
  let ?ts = "\<lparr>ts_time = conv t2 t1, ts_count = 1\<rparr>"
  let ?c3 = "c\<lparr>to_tak := rest, timers := oput a ?ts (timers c)\<rparr>"
  have ord: "ordered (timers c)" using inv by (simp add: clock_inv_def)
  have "Tak conv th tak t2 c = (Inr (), ?c3)"
    using b st start fresh \<open>loc_at a 0 = loc_at b 0\<close> by (simp add: Tak_def Let_def at_start_def add_time_def)
  moreover have "take_time a ?c3 = (Inr (conv t2 t1), c\<lparr>to_tak := rest\<rparr>)"
    using ord fresh by (simp add: take_time_def clock_at_def ResetTimer_def clock_contains_def adel_oput_fresh)
  ultimately show ?thesis by blast
qed

lemma clock_inv_close: "clock_inv c \<Longrightarrow> to_tak c = a # rest \<Longrightarrow> clock_inv (c\<lparr>to_tak := rest\<rparr>)"
  by (rule clock_inv_pop)

lemma RunSingleBenchmark_value:
  assumes site: "clock_site (be_thread env) (be_single_tik env) (be_single_tak env) a"
    and inv: "clock_inv (clk r)" and fresh: "map_of (timers (clk r)) a = None"
    and ms: "start_mesh = Inr ms" and loop: "bench_loop env (unat N) (unat k) ms = Inr dm" and "k \<noteq> 0"
  shows "\<exists>c. RunSingleBenchmark env j N k r =
      (Inr (word_of_int (milli (be_time env j 3) (be_time env j 2)) * (bench_iter_num div k)), r\<lparr>clk := c\<rparr>) \<and>
    clock_inv c \<and> timers c = timers (clk r) \<and> to_tak c = to_tak (clk r) \<and>
    map_of (starting c) = (map_of (starting (clk r)))(a \<mapsto> be_time env j 2)"
proof -
  let ?t1 = "be_time env j 2" and ?t2 = "be_time env j 3" and ?c = "clk r"
  let ?c1 = "?c\<lparr>starting := oput a ?t1 (starting ?c), to_tak := a # to_tak ?c\<rparr>"
  note b = section_start [OF site inv, of ?t1]
  have ord: "ordered (starting ?c)" using inv by (simp add: clock_inv_def)
  have "map_of (starting ?c1) a = Some ?t1" "map_of (timers ?c1) a = None" "to_tak ?c1 = a # to_tak ?c"
    using ord fresh by simp_all
  from section_end [OF site b(2) this(3,1,2), of milli ?t2] obtain c3
    where e: "Tak milli (be_thread env) (be_single_tak env) ?t2 ?c1 = (Inr (), c3)"
      "take_time a c3 = (Inr (milli ?t2 ?t1), ?c1\<lparr>to_tak := to_tak ?c\<rparr>)" by auto
  have "RunSingleBenchmark env j N k r =
      (Inr (word_of_int (milli ?t2 ?t1) * (bench_iter_num div k)), r\<lparr>clk := ?c1\<lparr>to_tak := to_tak ?c\<rparr>\<rparr>)"
    using assms(6) by (simp add: RunSingleBenchmark_def Let_def sbind_apply ms on_clk_def b(1) loop e)
  moreover have "clock_inv (?c1\<lparr>to_tak := to_tak ?c\<rparr>)" by (rule clock_inv_close [OF b(2)]) simp
  ultimately show ?thesis using ord by (intro exI [of _ "?c1\<lparr>to_tak := to_tak ?c\<rparr>"]) simp
qed

lemma run_round_value:
  assumes outer: "clock_site (be_thread env) (be_run_tik env) (be_run_tak env) a0"
    and inner: "clock_site (be_thread env) (be_single_tik env) (be_single_tak env) a1" and "a0 \<noteq> a1"
    and inv: "clock_inv (clk r)" and fresh: "map_of (timers (clk r)) a0 = None" "map_of (timers (clk r)) a1 = None"
    and ms: "start_mesh = Inr ms" and loop: "\<exists>dm. bench_loop env (unat (bench_ns r ! j)) (unat (bench_iter_counts r ! j)) ms = Inr dm"
    and nz: "bench_iter_counts r ! j \<noteq> 0"
  shows "\<exists>c. run_round env j r = (Inr (word_of_int (milli (be_time env j 3) (be_time env j 2)) *
        (bench_iter_num div bench_iter_counts r ! j), word_of_int (milli (be_time env j 4) (be_time env j 0))), r\<lparr>clk := c\<rparr>) \<and>
    clock_inv c \<and> timers c = timers (clk r) \<and> to_tak c = to_tak (clk r)"
proof -
  let ?t0 = "be_time env j 0" and ?t3 = "be_time env j 4" and ?c = "clk r"
  let ?c1 = "?c\<lparr>starting := oput a0 ?t0 (starting ?c), to_tak := a0 # to_tak ?c\<rparr>"
  note b = section_start [OF outer inv, of ?t0]
  from loop obtain dm where dm: "bench_loop env (unat (bench_ns r ! j)) (unat (bench_iter_counts r ! j)) ms = Inr dm" by blast
  from RunSingleBenchmark_value [OF inner, of "r\<lparr>clk := ?c1\<rparr>", OF _ _ ms dm nz, of j] b(2) fresh
  obtain c2 where c2: "RunSingleBenchmark env j (bench_ns r ! j) (bench_iter_counts r ! j) (r\<lparr>clk := ?c1\<rparr>) =
        (Inr (word_of_int (milli (be_time env j 3) (be_time env j 2)) * (bench_iter_num div bench_iter_counts r ! j)), r\<lparr>clk := c2\<rparr>)"
      "clock_inv c2" "timers c2 = timers ?c" "to_tak c2 = a0 # to_tak ?c"
      "map_of (starting c2) = (map_of (starting ?c1))(a1 \<mapsto> be_time env j 2)"
    by auto
  have "map_of (starting c2) a0 = Some ?t0"
    using c2(5) assms(3) inv by (simp add: clock_inv_def)
  moreover have "map_of (timers c2) a0 = None" using c2(3) fresh by simp
  ultimately obtain c3 where e: "Tak milli (be_thread env) (be_run_tak env) ?t3 c2 = (Inr (), c3)"
      "take_time a0 c3 = (Inr (milli ?t3 ?t0), c2\<lparr>to_tak := to_tak ?c\<rparr>)"
    using section_end [OF outer c2(2,4), of ?t0 milli ?t3] by auto
  have "clock_inv (c2\<lparr>to_tak := to_tak ?c\<rparr>)" by (rule clock_inv_close [OF c2(2,4)])
  moreover have "run_round env j r = (Inr (word_of_int (milli (be_time env j 3) (be_time env j 2)) *
        (bench_iter_num div bench_iter_counts r ! j), word_of_int (milli ?t3 ?t0)), r\<lparr>clk := c2\<lparr>to_tak := to_tak ?c\<rparr>\<rparr>)"
    by (simp add: run_round_def sbind_apply on_clk_def b(1) c2(1) e)
  ultimately show ?thesis using c2(3) by (intro exI [of _ "c2\<lparr>to_tak := to_tak ?c\<rparr>"]) simp
qed

lemma rounds_value:
  assumes outer: "clock_site (be_thread env) (be_run_tik env) (be_run_tak env) a0"
    and inner: "clock_site (be_thread env) (be_single_tik env) (be_single_tak env) a1" and "a0 \<noteq> a1"
    and ms: "start_mesh = Inr ms"
    and loop: "\<forall>j\<in>set js. \<exists>dm. bench_loop env (unat (bench_ns r ! j)) (unat (bench_iter_counts r ! j)) ms = Inr dm"
    and nz: "\<forall>j\<in>set js. bench_iter_counts r ! j \<noteq> 0"
    and "clock_inv (clk r)" and "map_of (timers (clk r)) a0 = None" and "map_of (timers (clk r)) a1 = None"
  shows "\<exists>c. smap (run_round env) js r = (Inr (map (\<lambda>j. (word_of_int (milli (be_time env j 3) (be_time env j 2)) *
        (bench_iter_num div bench_iter_counts r ! j), word_of_int (milli (be_time env j 4) (be_time env j 0)))) js), r\<lparr>clk := c\<rparr>) \<and>
    clock_inv c \<and> timers c = timers (clk r) \<and> to_tak c = to_tak (clk r)"
  using assms(5-9)
proof (induction js arbitrary: r)
  case Nil
  then show ?case by (intro exI [of _ "clk r"]) simp
next
  case (Cons j js)
  have "\<exists>dm. bench_loop env (unat (bench_ns r ! j)) (unat (bench_iter_counts r ! j)) ms = Inr dm"
    and "bench_iter_counts r ! j \<noteq> 0" using Cons.prems by simp_all
  from run_round_value [OF outer inner assms(3) Cons.prems(3-5) ms this] obtain c
    where c: "run_round env j r = (Inr (word_of_int (milli (be_time env j 3) (be_time env j 2)) *
        (bench_iter_num div bench_iter_counts r ! j), word_of_int (milli (be_time env j 4) (be_time env j 0))), r\<lparr>clk := c\<rparr>)"
      "clock_inv c" "timers c = timers (clk r)" "to_tak c = to_tak (clk r)" by blast
  from Cons.IH [of "r\<lparr>clk := c\<rparr>"] Cons.prems c show ?case by (auto simp: sbind_apply)
qed

section \<open>Properties\<close>

text \<open>C19: a worker finishes a task of at least one dipole exactly when its thread has a
distribution or understands the task's, the range fits the loop counter and every drawn
configuration has a radiation pattern; the result is then, point by point over the 175
directions, the sum of the patterns of all iterations plus the phi coordinate of the mesh, from
which the accumulation starts, and the thread keeps the distribution.\<close>

theorem task_result:
  assumes "ts_N ts \<noteq> 0"
  shows "((\<exists>res. fst (compute_task lu draw ts slot) = Inr res) \<longleftrightarrow>
      (\<exists>g. fst (task_functor ts slot) = Inr g \<and> uint (snd (range ts)) < 2 ^ 31 - 1 \<and>
        (\<forall>i\<in>set (task_iterations ts). \<exists>q. pattern lu (configuration draw g ts i) = Inr q))) \<and>
    (\<forall>res slot'. compute_task lu draw ts slot = (Inr res, slot') \<longrightarrow>
      (\<exists>g p. slot' = Some g \<and> fst (task_functor ts slot) = Inr g \<and> length res = 175 \<and>
        (\<forall>i\<in>set (task_iterations ts). pattern lu (configuration draw g ts i) = Inr (p i)) \<and>
        (\<forall>k<175. res ! k = lin 0 (pi * 2) 25 (k mod 25) + (\<Sum>i\<leftarrow>task_iterations ts. p i ! k))))"
proof (intro conjI allI impI)
  have ch: "(\<exists>p. \<forall>i\<in>S. f i = Inr (p i)) \<longleftrightarrow> (\<forall>i\<in>S. \<exists>q. f i = Inr q)"
    for f :: "nat \<Rightarrow> fault + real list" and S by (metis (no_types))
  have "(\<exists>res. fst (compute_task lu draw ts slot) = Inr res) \<longleftrightarrow>
      (\<exists>res slot'. compute_task lu draw ts slot = (Inr res, slot'))" by (metis fst_conv surj_pair)
  also have "\<dots> \<longleftrightarrow> (\<exists>g slot'. task_functor ts slot = (Inr g, slot') \<and> uint (snd (range ts)) < 2 ^ 31 - 1 \<and>
        (\<forall>i\<in>set (task_iterations ts). \<exists>q. pattern lu (configuration draw g ts i) = Inr q))"
    unfolding compute_task_Inr [OF assms] ch [symmetric] by blast
  also have "\<dots> \<longleftrightarrow> (\<exists>g. fst (task_functor ts slot) = Inr g \<and> uint (snd (range ts)) < 2 ^ 31 - 1 \<and>
        (\<forall>i\<in>set (task_iterations ts). \<exists>q. pattern lu (configuration draw g ts i) = Inr q))"
    by (metis fst_conv surj_pair)
  finally show "(\<exists>res. fst (compute_task lu draw ts slot) = Inr res) \<longleftrightarrow>
      (\<exists>g. fst (task_functor ts slot) = Inr g \<and> uint (snd (range ts)) < 2 ^ 31 - 1 \<and>
        (\<forall>i\<in>set (task_iterations ts). \<exists>q. pattern lu (configuration draw g ts i) = Inr q))" .
next
  fix res slot' assume "compute_task lu draw ts slot = (Inr res, slot')"
  then obtain g p where g: "task_functor ts slot = (Inr g, slot')"
    and p: "\<forall>i\<in>set (task_iterations ts). pattern lu (configuration draw g ts i) = Inr (p i)"
    and res: "res = foldl (map2 (+)) (map (\<lambda>k. lin 0 (pi * 2) 25 (k mod 25)) [0..<175]) (map p (task_iterations ts))"
    unfolding compute_task_Inr [OF assms] by blast
  have "\<forall>q\<in>set (map p (task_iterations ts)). length q = 175" using p pattern_length by auto
  from foldl_map2_nth [OF this, of "map (\<lambda>k. lin 0 (pi * 2) 25 (k mod 25)) [0..<175]"] p g task_functor_Inr [OF g]
  show "\<exists>g p. slot' = Some g \<and> fst (task_functor ts slot) = Inr g \<and> length res = 175 \<and>
        (\<forall>i\<in>set (task_iterations ts). pattern lu (configuration draw g ts i) = Inr (p i)) \<and>
        (\<forall>k<175. res ! k = lin 0 (pi * 2) 25 (k mod 25) + (\<Sum>i\<leftarrow>task_iterations ts. p i ! k))"
    by (intro exI [of _ g] exI [of _ p]) (simp add: res comp_def)
qed

definition sample_worker_task :: "real TestSolveParam" where
  "sample_worker_task = \<lparr>experiment_id = 1, ts_N = 1, range = (0, 0),
     args = [(''type'', V_string ''exponential''), (''lambda'', V_double 1)]\<rparr>"

lemma sample_pattern: "\<exists>q. pattern (\<lambda>A b. b) [0, 1] = Inr q"
  by (simp add: pattern_def Dipoles_of_Flat Let_def Solve_EigenVec_def Solve_halves_def get_n_def placed_def
      function_readable_def vec_add_def vec_sub_def)

theorem task_result_witness:
  "\<exists>res. fst (compute_task (\<lambda>A b. b) (\<lambda>g i k. real k) sample_worker_task None) = Inr res"
proof -
  have it: "task_iterations sample_worker_task = [0]" by (simp add: task_iterations_def sample_worker_task_def)
  from sample_pattern have "\<exists>q. pattern (\<lambda>A b. b) (configuration (\<lambda>g i k. real k) (exponential_distribution 1) sample_worker_task i) = Inr q" for i
    by (simp add: configuration_def sample_worker_task_def upt_rec)
  moreover have "fst (task_functor sample_worker_task None) = Inr (exponential_distribution 1)"
    by (simp add: task_functor_def sample_worker_task_def task_kind_def ParseFunc_def stringToDistributionType_def
        ParseFunc_type_def double_arg_def get_exponential_generator_def)
  moreover have "uint (snd (range sample_worker_task)) < 2 ^ 31 - 1" "ts_N sample_worker_task \<noteq> 0"
    by (simp_all add: sample_worker_task_def)
  ultimately have "\<exists>g. fst (task_functor sample_worker_task None) = Inr g \<and>
      uint (snd (range sample_worker_task)) < 2 ^ 31 - 1 \<and> (\<forall>i\<in>set (task_iterations sample_worker_task).
        \<exists>q. pattern (\<lambda>A b. b) (configuration (\<lambda>g i k. real k) g sample_worker_task i) = Inr q)"
    by (intro exI [of _ "exponential_distribution 1"] conjI ballI) assumption+
  with task_result [OF \<open>ts_N sample_worker_task \<noteq> 0\<close>, of "\<lambda>A b. b" "\<lambda>g i k. real k" None, THEN conjunct1, THEN iffD2]
  show ?thesis .
qed

text \<open>Once a thread has computed a task, it draws from that task's distribution for good: the
arguments of later tasks, even missing or unknown ones, have no effect on their results.\<close>

theorem later_arguments_ignored:
  "compute_task lu draw (ts\<lparr>args := as\<rparr>) (Some g) = compute_task lu draw ts (Some g) \<and>
   snd (compute_task lu draw ts (Some g)) = Some g"
proof -
  obtain ms where ms: "start_mesh = Inr ms" using start_mesh_on_grid by blast
  have "iterate_task lu (draw g) (ts\<lparr>args := as\<rparr>) ms = iterate_task lu (draw g) ts ms"
    by (simp add: iterate_task_def task_iterations_def cong: if_cong)
  then show ?thesis by (simp add: compute_task_def ms sbind_apply task_functor_def)
qed

text \<open>C20: a benchmark run gives one entry per system size, the elapsed milliseconds of the round
scaled by \<open>10000 div\<close> its iteration count (in 64-bit arithmetic), and leaves the clock as it
found it: the same finished and the same open measurements.\<close>

theorem benchmark_run:
  assumes "clock_site (be_thread env) (be_run_tik env) (be_run_tak env) a0"
    and "clock_site (be_thread env) (be_single_tik env) (be_single_tak env) a1" and "a0 \<noteq> a1"
    and "start_mesh = Inr ms"
    and "\<forall>j<length (bench_ns r). \<exists>dm. bench_loop env (unat (bench_ns r ! j)) (unat (bench_iter_counts r ! j)) ms = Inr dm"
    and "\<forall>j<length (bench_ns r). bench_iter_counts r ! j \<noteq> 0"
    and "clock_inv (clk r)" and "map_of (timers (clk r)) a0 = None" and "map_of (timers (clk r)) a1 = None"
  shows "\<exists>c. BenchmarkRunner_Run env r =
    (Inr (map (\<lambda>j. word_of_int (milli (be_time env j 3) (be_time env j 2)) * (bench_iter_num div bench_iter_counts r ! j))
            [0..<length (bench_ns r)],
          map (\<lambda>j. word_of_int (milli (be_time env j 4) (be_time env j 0))) [0..<length (bench_ns r)]), r\<lparr>clk := c\<rparr>) \<and>
    timers c = timers (clk r) \<and> to_tak c = to_tak (clk r)"
proof -
  from assms(5,6) have "\<forall>j\<in>set [0..<length (bench_ns r)]. \<exists>dm. bench_loop env (unat (bench_ns r ! j)) (unat (bench_iter_counts r ! j)) ms = Inr dm"
    and "\<forall>j\<in>set [0..<length (bench_ns r)]. bench_iter_counts r ! j \<noteq> 0" by simp_all
  from rounds_value [OF assms(1-4) this assms(7-9)] show ?thesis
    by (auto simp: BenchmarkRunner_Run_def sbind_apply comp_def)
qed

definition sample_bench_env :: bench_env where
  "sample_bench_env = \<lparr>be_lu = (\<lambda>A b. b), be_draw = (\<lambda>N i k. real k), be_thread = ''7'',
     be_run_tik = sample_location\<lparr>function_name := ''int run()''\<rparr>, be_run_tak = sample_location\<lparr>function_name := ''int run()''\<rparr>,
     be_single_tik = sample_location, be_single_tak = sample_location, be_time = (\<lambda>j k. 1000000 * int k)\<rparr>"

lemma sample_run_id:
  "GetFileState ''7'' (sample_location\<lparr>function_name := ''int run()''\<rparr>) = Inr (Loc ''run'' ''1'' ''2'' ''b.cpp'' ''7'')"
proof -
  have "show_nat 1 = ''1''" "show_nat 2 = ''2''" by code_simp+
  then show ?thesis
    by (simp add: GetFileState_def sample_location_def find_pos_def rfind_pos_def Let_def substr_def)
qed

theorem benchmark_run_witness:
  "\<exists>c. BenchmarkRunner_Run sample_bench_env \<lparr>bench_ns = [1], bench_iter_counts = [1], clk = new_ClockArray\<rparr> =
    (Inr ([10000], [4]), \<lparr>bench_ns = [1], bench_iter_counts = [1], clk = c\<rparr>) \<and> to_tak c = []"
proof -
  let ?r = "\<lparr>bench_ns = [1], bench_iter_counts = [1], clk = new_ClockArray\<rparr> :: BenchmarkRunner"
  obtain ms where ms: "start_mesh = Inr ms" "on_grid kDefaultDims kDefaultLims ms" using start_mesh_on_grid by blast
  obtain q where "pattern (\<lambda>A b. b) [0, 1] = Inr q" using sample_pattern by blast
  with solve_and_map_pattern [OF _ _ ms(2), of new_Dipoles "[0, 1]" "\<lambda>A b. b"]
  obtain dm where "solve_and_map (\<lambda>A b. b) [0, 1] (new_Dipoles, ms) = Inr dm" by (auto simp: usable_def)
  then have loop: "\<exists>dm. bench_loop sample_bench_env 1 1 ms = Inr dm"
    by (simp add: bench_loop_def sample_bench_env_def upt_rec)
  have time: "milli (1000000 * int 3) (1000000 * int 2) = 1" "milli (1000000 * int 4) 0 = 4"
    by (simp_all add: milli_def DoubleCastChrono_def)
  have sites: "clock_site (be_thread sample_bench_env) (be_run_tik sample_bench_env) (be_run_tak sample_bench_env)
      (Loc ''run'' ''1'' ''2'' ''b.cpp'' ''7'')"
    "clock_site (be_thread sample_bench_env) (be_single_tik sample_bench_env) (be_single_tak sample_bench_env)
      (Loc ''main'' ''1'' ''2'' ''b.cpp'' ''7'')"
    using sample_location_id sample_run_id by (simp_all add: clock_site_def sample_bench_env_def)
  have "\<exists>c. BenchmarkRunner_Run sample_bench_env ?r =
    (Inr (map (\<lambda>j. word_of_int (milli (be_time sample_bench_env j 3) (be_time sample_bench_env j 2)) *
            (bench_iter_num div bench_iter_counts ?r ! j)) [0..<length (bench_ns ?r)],
          map (\<lambda>j. word_of_int (milli (be_time sample_bench_env j 4) (be_time sample_bench_env j 0)))
            [0..<length (bench_ns ?r)]), ?r\<lparr>clk := c\<rparr>) \<and>
    timers c = timers (clk ?r) \<and> to_tak c = to_tak (clk ?r)"
    by (rule benchmark_run [OF sites _ ms(1)]) (use loop clock_inv_new in \<open>simp_all add: new_ClockArray_def\<close>)
  moreover have "be_time sample_bench_env = (\<lambda>j k. 1000000 * int k)" by (simp add: sample_bench_env_def)
  ultimately show ?thesis by (simp add: time bench_iter_num_def new_ClockArray_def del: of_nat_numeral) blast
qed

end
