(* ===== verification/CompNode.thy ===== *)
theory CompNode
  imports MainNode Benchmark
begin

text \<open>
  \<open>CompNodeService.h/.cpp\<close>: a worker, and the HTTP controllers of both kinds of node
  (\<open>CompNode.h/.cpp\<close>, \<open>ClusterConfigController.h/.cpp\<close>).  A worker owns a consumer, the
  result of its benchmark and the thread that computes it.  The thread runs concurrently with
  the handlers; its two assignments, the result and the flag, are one step of the model, so a
  handler sees either neither or both.  The callback given to the consumer, the parser of
  request bodies and the outcome of a connection attempt are arguments.
\<close>

section \<open>The worker\<close>

record 'm ComputationNodeService =
  consumer_service :: "'m consumer"
  bench_res :: "u64 list"
  computation_thread :: bool
  characteristic_computed :: bool
  benchmark_runner :: BenchmarkRunner

text \<open>\<open>RunBench\<close> starts the thread, \<open>bench_job\<close> is what the thread does to the service; an
exception that leaves the thread ends the process.\<close>

definition RunBench :: "'m ComputationNodeService \<Rightarrow> 'm ComputationNodeService" where
  "RunBench s = s\<lparr>characteristic_computed := False, computation_thread := True\<rparr>"

definition bench_job :: "bench_env \<Rightarrow> ('m ComputationNodeService, fault, unit) action" where
  "bench_job env = (\<lambda>s. case BenchmarkRunner_Run env (benchmark_runner s) of
     (Inl (UB m), r) \<Rightarrow> (Inl (UB m), s\<lparr>benchmark_runner := r\<rparr>)
   | (Inl e, r) \<Rightarrow> (Inl (UB ''std::terminate''), s\<lparr>benchmark_runner := r\<rparr>)
   | (Inr res, r) \<Rightarrow> (Inr (), s\<lparr>benchmark_runner := r, bench_res := fst res,
        characteristic_computed := True, computation_thread := False\<rparr>))"

definition node_ns :: "u64 list" where
  "node_ns = [1, 2, 4, 5, 8, 10, 20, 40, 50, 100, 200, 400, 500]"

definition node_iter_count :: "u64 list" where
  "node_iter_count = [1000, 1000, 1000, 1000, 1000, 1000, 100, 100, 100, 25, 25, 5, 5]"

definition new_ComputationNodeService :: "fault + 'm ComputationNodeService" where
  "new_ComputationNodeService =
    rbind (new_BenchmarkRunner node_ns node_iter_count) (\<lambda>r.
      Inr (RunBench \<lparr>consumer_service = new_consumer, bench_res = [], computation_thread = False,
             characteristic_computed = False, benchmark_runner = r\<rparr>))"

definition Comp_GetStatus :: "('j, 'f) jsoncpp \<Rightarrow> 'm ComputationNodeService \<Rightarrow> 'j" where
  "Comp_GetStatus J s = answer J ''status''
    ((''worker_status'', j_ofString J (if IsConnected (consumer_service s) then ''running'' else ''not running'')) #
     (if characteristic_computed s
      then [(''bench'', ContinuousToJson J (j_ofUInt64 J) (bench_res s) True True)] else []) @
     [code_field J 200])"

definition Comp_Disconnect :: "('j, 'f) jsoncpp \<Rightarrow> 'm ComputationNodeService \<Rightarrow> 'j \<times> 'm ComputationNodeService" where
  "Comp_Disconnect J s =
    (if \<not> IsConnected (consumer_service s)
     then (answer J ''disconnect'' [code_field J 409,
             message_field J ''This worker node is currently not connected to any cluster''], s)
     else (answer J ''disconnect'' [code_field J 200],
           s\<lparr>consumer_service := Service_Disconnect (consumer_service s)\<rparr>))"

definition CheckConnection :: "'m ComputationNodeService \<Rightarrow> bool" where
  "CheckConnection s = IsConnected (consumer_service s)"

text \<open>The members of the request that \<open>Connect\<close> reads.\<close>

record connect_request =
  cr_ip :: string
  cr_name :: string
  cr_user :: string
  cr_password :: string

definition read_request :: "('j, 'f) jsoncpp \<Rightarrow> 'j \<Rightarrow> fault + connect_request" where
  "read_request J val =
    rbind (get_string J val ''ip'') (\<lambda>ip.
    rbind (get_string J val ''name'') (\<lambda>name.
    rbind (get_string J val ''user'') (\<lambda>user.
    rbind (get_string J val ''password'') (\<lambda>pass.
      Inr \<lparr>cr_ip = ip, cr_name = name, cr_user = user, cr_password = pass\<rparr>))))"

text \<open>The part of the answer assembled before the connection is tried.\<close>

definition connect_fields :: "('j, 'f) jsoncpp \<Rightarrow> u64 list \<Rightarrow> connect_request \<Rightarrow> (string \<times> 'j) list" where
  "connect_fields J bench q =
    [(''input'', j_ofString J (cr_ip q)), (''name'', j_ofString J (cr_name q)),
     (''bench'', ContinuousToJson J (j_ofUInt64 J) bench True True)]"

definition start_consumer ::
    "('m \<Rightarrow> fault + unit) \<Rightarrow> connect_env \<Rightarrow> connect_request \<Rightarrow> ('m consumer, fault, unit) action" where
  "start_consumer callback env q = (\<lambda>c.
    Service_Connect con_Reconnect con_ServiceName env
      (con_SetMessageCallback callback
        (con_SetParameters (make_amqp (cr_ip q) (cr_user q) (cr_password q) False) (cr_name q) c)))"

definition Comp_Connect ::
    "('j, 'f) jsoncpp \<Rightarrow> ('m \<Rightarrow> fault + unit) \<Rightarrow> connect_env \<Rightarrow> string \<Rightarrow>
     ('m ComputationNodeService, fault, 'j) action" where
  "Comp_Connect J callback env body = (\<lambda>s.
    case j_parse J body of
      Inl _ \<Rightarrow> (Inr (answer J ''connect'' []), s)
    | Inr val \<Rightarrow> (case read_request J val of
        Inl e \<Rightarrow> (Inl e, s)
      | Inr q \<Rightarrow>
          let pre = connect_fields J (bench_res s) q
          in if IsConnected (consumer_service s)
             then (Inr (answer J ''connect'' (pre @ [code_field J 409, message_field J (fmt_format
                     ''Node is already connected to RabbitMQ {}!''
                     [am_GetVerboseName (c_string (consumer_service s))])])), s)
             else (case start_consumer callback env q (consumer_service s) of
                 (Inr _, c) \<Rightarrow> (Inr (answer J ''connect'' (pre @ [code_field J 200])), s\<lparr>consumer_service := c\<rparr>)
               | (Inl (Std (runtime_error m)), c) \<Rightarrow>
                   (Inr (answer J ''connect'' (pre @ [code_field J 409, message_field J
                      (fmt_format ''Queue connection error msg :\"{}\"!'' [m])])), s\<lparr>consumer_service := c\<rparr>)
               | (Inl e, c) \<Rightarrow> (Inl e, s\<lparr>consumer_service := c\<rparr>))))"

section \<open>The controllers\<close>

text \<open>Every handler method answers with the JSON and its \<open>status\<close> member as the HTTP code.\<close>

definition http_response :: "('j, 'f) jsoncpp \<Rightarrow> 'j \<Rightarrow> fault + u32 \<times> 'j" where
  "http_response J res = rbind (get_uint J res ''status'') (\<lambda>code. Inr (code, res))"

definition respond :: "('j, 'f) jsoncpp \<Rightarrow> ('s, fault, 'j) action \<Rightarrow> ('s, fault, u32 \<times> 'j) action" where
  "respond J act = sbind act (\<lambda>res. slift (http_response J res))"

definition CompNode_GetStatus :: "('j, 'f) jsoncpp \<Rightarrow> ('m ComputationNodeService, fault, u32 \<times> 'j) action" where
  "CompNode_GetStatus J = respond J (\<lambda>s. (Inr (Comp_GetStatus J s), s))"

definition CompNode_ConnectHandler ::
    "('j, 'f) jsoncpp \<Rightarrow> ('m \<Rightarrow> fault + unit) \<Rightarrow> connect_env \<Rightarrow> string \<Rightarrow>
     ('m ComputationNodeService, fault, u32 \<times> 'j) action" where
  "CompNode_ConnectHandler J callback env body = respond J (Comp_Connect J callback env body)"

definition CompNode_DisconnectHandler :: "('j, 'f) jsoncpp \<Rightarrow> ('m ComputationNodeService, fault, u32 \<times> 'j) action" where
  "CompNode_DisconnectHandler J = respond J (\<lambda>s. apfst Inr (Comp_Disconnect J s))"

definition new_ClusterConfigController :: MainNodeService where
  "new_ClusterConfigController = new_MainNodeService ''sysadmin'' ''syspassword''"

definition Cluster_GetStatus :: "('j, 'f) jsoncpp \<Rightarrow> ('w, u32 \<times> 'j) handler" where
  "Cluster_GetStatus J = respond J (\<lambda>(w, s). (Inr (Status J s), (w, s)))"

definition Cluster_ConnectNodeHandler ::
    "('j, 'f) jsoncpp \<Rightarrow> 'w curl_env \<Rightarrow> (string \<Rightarrow> string \<Rightarrow> 'j option \<Rightarrow> 'j http_answer) \<Rightarrow>
     string \<Rightarrow> ('w, u32 \<times> 'j) handler" where
  "Cluster_ConnectNodeHandler J C http host_port = respond J (Node_ConnectNode J C http host_port host_port)"

definition Cluster_DisconnectNodeHandler ::
    "('j, 'f) jsoncpp \<Rightarrow> (string \<Rightarrow> string \<Rightarrow> 'j option \<Rightarrow> 'j http_answer) \<Rightarrow> string \<Rightarrow> ('w, u32 \<times> 'j) handler" where
  "Cluster_DisconnectNodeHandler J http host_port = respond J (Node_DisconnectNode J http host_port)"

text \<open>\<open>getJsonObject()\<close> is null when the request has no JSON body.\<close>

definition json_body :: "'j option \<Rightarrow> fault + 'j" where
  "json_body body = of_opt (null_deref ''getJsonObject()'') body"

definition Cluster_SentToExecution ::
    "('j, 'f) jsoncpp \<Rightarrow> (nat \<Rightarrow> u64 \<times> u64) \<Rightarrow> 'j option \<Rightarrow> ('w, u32 \<times> 'j) handler" where
  "Cluster_SentToExecution J clock body =
    sbind (slift (rbind (json_body body) (TestSolveParam_FromJson J))) (\<lambda>ts.
      respond J (\<lambda>(w, s). case SendToExecution J clock ts s of (r, s') \<Rightarrow> (r, (w, s'))))"

definition Cluster_ConnectQ ::
    "('j, 'f) jsoncpp \<Rightarrow> 'w curl_env \<Rightarrow> connect_env \<Rightarrow> 'j option \<Rightarrow> ('w, u32 \<times> 'j) handler" where
  "Cluster_ConnectQ J C env body =
    sbind (slift (rbind (json_body body) (\<lambda>json. rbind (get_string J json ''queue_host'')
      (\<lambda>qname. rbind (get_json J json ''queues'') (\<lambda>_. Inr qname))))) (\<lambda>qname.
      respond J (Node_Connect J C env qname))"

definition Cluster_DisconnectQ :: "('j, 'f) jsoncpp \<Rightarrow> ('w, u32 \<times> 'j) handler" where
  "Cluster_DisconnectQ J = respond J (\<lambda>(w, s). case Node_Disconnect J s of (j, s') \<Rightarrow> (Inr j, (w, s')))"

section \<open>The worker's invariant\<close>

text \<open>
  Between two steps the consumer is idle in a reachable state of its life cycle, and the result
  of the benchmark is empty until the flag says that it holds one entry per system size.
\<close>

definition consumer_inv :: "'m consumer \<Rightarrow> bool" where
  "consumer_inv c \<longleftrightarrow> idle_reachable con_Reconnect con_ServiceName new_consumer c"

definition worker_inv :: "'m ComputationNodeService \<Rightarrow> bool" where
  "worker_inv s \<longleftrightarrow> consumer_inv (consumer_service s) \<and> bench_ns (benchmark_runner s) = ns \<and>
     (bench_res s = [] \<or> length (bench_res s) = length ns) \<and>
     (characteristic_computed s \<longrightarrow> length (bench_res s) = length ns)"

lemma consumer_inv_new: "consumer_inv new_consumer"
  by (simp add: consumer_inv_def idle_reachable_def reach_init)
    (simp add: new_consumer_def new_service_def service.extend_def)

lemma consumer_inv_configured:
  assumes "consumer_inv c"
  shows "consumer_inv (con_SetMessageCallback cb (con_SetParameters a q c))"
proof -
  have eq: "con_SetMessageCallback cb (con_SetParameters a q c) = service.more_update
      (\<lambda>_. \<lparr>queue_name = q, message_callback = Some cb, consuming = consuming c, acked = acked c\<rparr>) (c\<lparr>c_string := a\<rparr>)"
    by (cases c) (simp add: con_SetMessageCallback_def con_SetParameters_def)
  show ?thesis unfolding eq consumer_inv_def
    by (intro idle_reachable_more idle_reachable_c_string) (use assms in \<open>simp add: consumer_inv_def\<close>)
qed

lemma start_consumer_run:
  assumes "consumer_inv c" and "start_consumer cb env q c = (r, c')" and "\<And>x. r \<noteq> Inl (UB x)"
  shows "consumer_inv c' \<and> (r = Inr () \<longrightarrow> IsConnected c')"
  using con.Connect_run [of new_consumer, OF _ assms(2) [unfolded start_consumer_def] assms(3)]
    consumer_inv_configured [OF assms(1)] by (simp add: consumer_inv_def)

lemma Disconnect_consumer:
  assumes "consumer_inv c"
  shows "consumer_inv (Service_Disconnect c) \<and> \<not> IsConnected (Service_Disconnect c)"
  using con.Disconnect_run [OF _ new_consumer_inv] assms by (simp add: consumer_inv_def)

text \<open>A node benchmarks the sizes by which the main node looks up its speed.\<close>

lemma new_worker: "\<exists>s. new_ComputationNodeService = Inr s \<and> worker_inv s \<and> \<not> characteristic_computed s \<and> bench_res s = []"
  by (simp add: new_ComputationNodeService_def new_BenchmarkRunner_def node_ns_def node_iter_count_def RunBench_def
      worker_inv_def consumer_inv_new ns_def)

text \<open>The benchmark job.\<close>

lemma keeps_on_clk [intro]: "keeps bench_ns (on_clk act)"
  by (simp add: keeps_def on_clk_def split: prod.split)

lemma keeps_run_round [intro]: "keeps bench_ns (run_round env j)"
proof -
  have "keeps bench_ns (\<lambda>r. sbind (on_clk (TikLoc (be_thread env) (be_run_tik env) (be_time env j 0))) (\<lambda>loc.
     sbind (RunSingleBenchmark env j N k) (\<lambda>result.
     sbind (on_clk (Tak milli (be_thread env) (be_run_tak env) (be_time env j 4))) (\<lambda>_.
     sbind (on_clk (take_time loc)) (\<lambda>rr. sret (result, word_of_int rr :: u64))))) r)" for N k
    by (auto simp: RunSingleBenchmark_def Let_def intro!: keeps_sbind)
  then show ?thesis by (simp add: keeps_def run_round_def)
qed

lemma Run_shape:
  assumes "BenchmarkRunner_Run env r = (Inr res, r')"
  shows "bench_ns r' = bench_ns r \<and> length (fst res) = length (bench_ns r)"
proof -
  from assms obtain rs where m: "smap (run_round env) [0..<length (bench_ns r)] r = (Inr rs, r')" and "res = (map fst rs, map snd rs)"
    by (auto simp: BenchmarkRunner_Run_def sbind_eq_Inr)
  with smap_length [OF m] keeps_run [OF keeps_smap [OF keeps_run_round] m] show ?thesis by simp
qed

lemma bench_job_inv:
  assumes "worker_inv s" and "bench_job env s = (Inr (), s')"
  shows "worker_inv s' \<and> characteristic_computed s' \<and> consumer_service s' = consumer_service s"
  using assms by (auto simp: bench_job_def worker_inv_def dest: Run_shape split: prod.splits sum.splits fault.splits)

text \<open>The handlers.\<close>

lemma Comp_Connect_cases:
  assumes "Comp_Connect J cb env body s = (Inr j, s')"
  obtains e where "j_parse J body = Inl e" "j = answer J ''connect'' []" "s' = s"
  | val q where "j_parse J body = Inr val" "read_request J val = Inr q" "IsConnected (consumer_service s)" "s' = s"
      "j = answer J ''connect'' (connect_fields J (bench_res s) q @ [code_field J 409, message_field J
        (fmt_format ''Node is already connected to RabbitMQ {}!'' [am_GetVerboseName (c_string (consumer_service s))])])"
  | val q c where "j_parse J body = Inr val" "read_request J val = Inr q" "\<not> IsConnected (consumer_service s)"
      "start_consumer cb env q (consumer_service s) = (Inr (), c)" "s' = s\<lparr>consumer_service := c\<rparr>"
      "j = answer J ''connect'' (connect_fields J (bench_res s) q @ [code_field J 200])"
  | val q c m where "j_parse J body = Inr val" "read_request J val = Inr q" "\<not> IsConnected (consumer_service s)"
      "start_consumer cb env q (consumer_service s) = (Inl (Std (runtime_error m)), c)" "s' = s\<lparr>consumer_service := c\<rparr>"
      "j = answer J ''connect'' (connect_fields J (bench_res s) q @ [code_field J 409, message_field J
        (fmt_format ''Queue connection error msg :\"{}\"!'' [m])])"
  using assms
  by (auto simp: Comp_Connect_def Let_def split: sum.splits prod.splits fault.splits std_exception.splits if_splits)

lemma worker_inv_Connect:
  assumes "worker_inv s" and "Comp_Connect J cb env body s = (Inr j, s')"
  shows "worker_inv s'"
  using assms(2)
proof (cases rule: Comp_Connect_cases)
  case (3 val q c)
  from start_consumer_run [OF _ 3(4)] assms(1) 3(5) show ?thesis by (simp add: worker_inv_def)
next
  case (4 val q c m)
  from start_consumer_run [OF _ 4(4)] assms(1) 4(5) show ?thesis by (simp add: worker_inv_def)
qed (use assms(1) in simp_all)

text \<open>The status member of an answer is the code of the response.\<close>

context jsoncpp_laws
begin

lemma response_answer:
  assumes "distinct (map fst ((''request'', j_ofString J req) # kvs))" and "n < 2 ^ 32"
  shows "map_of kvs ''status'' = Some (snd (code_field J n)) \<Longrightarrow>
      http_response J (answer J req kvs) = Inr (of_nat n, answer J req kvs)"
    and "map_of kvs ''status'' = None \<Longrightarrow> http_response J (answer J req kvs) = Inr (0, answer J req kvs)"
proof -
  have g: "j_get J (answer J req kvs) ''status'' =
      Some (case map_of kvs ''status'' of None \<Rightarrow> j_null J | Some x \<Rightarrow> x)"
    using get_sets [of "j_null J" "(''request'', j_ofString J req) # kvs" "''status''"] assms(1)
    by (simp add: answer_def split: option.split)
  have "uint (of_nat n :: u64) < 2 ^ 32"
    using assms(2) by (simp add: unsigned_of_nat take_bit_nat_eq_self)
  moreover have "ucast (of_nat n :: u64) = (of_nat n :: u32)"
    using assms(2) by (intro word_uint_eqI) (simp add: unsigned_ucast_eq unsigned_of_nat take_bit_nat_eq_self)
  ultimately have c: "j_asUInt J (snd (code_field J n)) = Some (of_nat n)"
    using asUInt_ofInt64 [of "of_nat n"] by (simp add: code_field_def)
  show "map_of kvs ''status'' = Some (snd (code_field J n)) \<Longrightarrow>
      http_response J (answer J req kvs) = Inr (of_nat n, answer J req kvs)"
    and "map_of kvs ''status'' = None \<Longrightarrow> http_response J (answer J req kvs) = Inr (0, answer J req kvs)"
    by (simp_all add: http_response_def get_uint_def get_json_def g c)
qed

lemma respond_answer:
  assumes "act w = (Inr (answer J req kvs), w')" and "distinct (map fst ((''request'', j_ofString J req) # kvs))"
    and "map_of kvs ''status'' = Some (snd (code_field J n))" and "n < 2 ^ 32"
  shows "respond J act w = (Inr (of_nat n, answer J req kvs), w')"
  using assms response_answer(1) [OF assms(2,4,3)] by (simp add: respond_def sbind_apply)

lemma bench_member:
  assumes "distinct (map fst (connect_fields J bench q @ kvs))"
    and "''request'' \<notin> fst ` set kvs"
  shows "j_get J (answer J ''connect'' (connect_fields J bench q @ kvs)) ''bench'' =
    Some (ContinuousToJson J (j_ofUInt64 J) bench True True)"
  using assms get_sets [of "j_null J" "(''request'', j_ofString J ''connect'') # connect_fields J bench q @ kvs" "''bench''"]
  by (auto simp: answer_def connect_fields_def)

text \<open>The main node reads one entry of the vector; from an empty one it reads a zero.\<close>

lemma recompute_bench:
  "RecomputeCoefficients J (ContinuousToJson J (j_ofUInt64 J) bench True True) n =
    (if node_speed n = [] then
       (if bench = [] \<or> bench ! 0 = 0 then Inl (UB ''integer division by zero'')
        else Inr (n\<lparr>bench_result := [bench ! 0], node_speed := [kBenchInfinity div bench ! 0]\<rparr>))
     else Inr (n\<lparr>bench_result := [if bench = [] then 0 else bench ! 0]\<rparr>))"
proof -
  have "rbind (at_json J (fill_array J (j_ofUInt64 J) bench (j_null J)) 0) (\<lambda>x. of_opt json_error (j_asUInt64 J x)) =
      Inr (if bench = [] then 0 else bench ! 0)"
    by (cases bench) (simp_all add: at_json_def fill_array_at fill_array_beyond)
  then have "JsonToContinuous J (j_asUInt64 J) (ContinuousToJson J (j_ofUInt64 J) bench True True) (Some 1) True =
      Inr [if bench = [] then 0 else bench ! 0]"
    by (simp add: JsonToContinuous_def ContinuousToJson_def)
  then show ?thesis by (simp add: RecomputeCoefficients_def scalar_div_def)
qed

end

context jsoncpp_laws
begin

lemma ConnectHandler_cases:
  assumes "CompNode_ConnectHandler J cb env body s = (Inr (code, j), s')"
  shows "Comp_Connect J cb env body s = (Inr j, s') \<and>
    ((\<exists>e. j_parse J body = Inl e) \<and> code = 0 \<or>
     (\<exists>val q. j_parse J body = Inr val \<and> read_request J val = Inr q \<and>
       (IsConnected (consumer_service s) \<and> code = 409 \<or>
        \<not> IsConnected (consumer_service s) \<and>
          (\<exists>r. start_consumer cb env q (consumer_service s) = (r, consumer_service s') \<and>
             (r = Inr () \<and> code = 200 \<and> j = answer J ''connect'' (connect_fields J (bench_res s) q @ [code_field J 200]) \<or>
              (\<exists>m. r = Inl (Std (runtime_error m))) \<and> code = 409)))))"
proof -
  from assms have run: "Comp_Connect J cb env body s = (Inr j, s')" and code: "http_response J j = Inr (code, j)"
    by (auto simp: CompNode_ConnectHandler_def respond_def sbind_eq_Inr http_response_def rbind_eq_Inr)
  have c409: "http_response J (answer J ''connect'' (connect_fields J (bench_res s) q @ [code_field J 409, message_field J t])) =
      Inr (of_nat 409, answer J ''connect'' (connect_fields J (bench_res s) q @ [code_field J 409, message_field J t]))" for q t
    by (rule response_answer(1)) (simp_all add: connect_fields_def code_field_def message_field_def)
  have c200: "http_response J (answer J ''connect'' (connect_fields J (bench_res s) q @ [code_field J 200])) =
      Inr (of_nat 200, answer J ''connect'' (connect_fields J (bench_res s) q @ [code_field J 200]))" for q
    by (rule response_answer(1)) (simp_all add: connect_fields_def code_field_def)
  have c0: "http_response J (answer J ''connect'' []) = Inr (0, answer J ''connect'' [])"
    by (rule response_answer(2) [of _ _ 0]) simp_all
  from run show ?thesis
  proof (cases rule: Comp_Connect_cases)
    case (1 e)
    from code [unfolded 1(2) c0] have "code = 0" by simp
    with run 1(1) show ?thesis by blast
  next
    case (2 val q)
    from code [unfolded 2(5) c409] have "code = 409" by simp
    with run 2(1-3) show ?thesis by blast
  next
    case (3 val q c)
    from code [unfolded 3(6) c200] have "code = 200" by simp
    moreover have "consumer_service s' = c" by (simp add: 3(5))
    ultimately show ?thesis using run 3(1-4,6) by blast
  next
    case (4 val q c m)
    from code [unfolded 4(6) c409] have "code = 409" by simp
    moreover have "consumer_service s' = c" by (simp add: 4(5))
    ultimately show ?thesis using run 4(1-4) by blast
  qed
qed

end

text \<open>A successful start keeps what the worker configured.\<close>

lemma start_consumer_configured:
  assumes "start_consumer cb env q c = (Inr (), c')" and "\<not> IsConnected c"
  shows "queue_name c' = cr_name q \<and> message_callback c' = Some cb \<and> consuming c' \<and>
    c_string c' = make_amqp (cr_ip q) (cr_user q) (cr_password q) False"
proof -
  let ?c = "con_SetMessageCallback cb
    (con_SetParameters (make_amqp (cr_ip q) (cr_user q) (cr_password q) False) (cr_name q) c)"
  have set: "queue_name ?c = cr_name q" "message_callback ?c = Some cb" "\<not> IsConnected ?c"
    "c_string ?c = make_amqp (cr_ip q) (cr_user q) (cr_password q) False"
    using assms(2) by (simp_all add: con_SetMessageCallback_def con_SetParameters_def IsConnected_def)
  from Service_Connect_Inr [OF assms(1) [unfolded start_consumer_def]] obtain s2
    where s2: "con_Reconnect (ce_ready env) (?c\<lparr>work := True, promise_set := False, promise_value := None\<rparr>) = Inr s2"
      "c' = s2\<lparr>joinable := True, phase := Idle, promise_value := Some [], promise_set := True, handler_connected := True\<rparr>"
    by blast
  have "queue_name s2 = queue_name ?c \<and> message_callback s2 = message_callback ?c \<and> consuming s2 \<and> c_string s2 = c_string ?c"
    using s2(1) set(3) by (auto simp: con_Reconnect_def open_channel_def IsConnected_def rbind_eq_Inr split: if_splits)
  with set show ?thesis by (simp add: s2(2))
qed

section \<open>Properties\<close>

text \<open>C21: a worker starts with an unfinished benchmark over the sizes the main node knows; every
handler that answers, and the benchmark thread when it finishes, keep the invariant: the
consumer is idle in a reachable state, and the result is empty or complete, and complete once
the flag is set.\<close>

theorem worker_invariant:
  assumes "worker_inv s"
  shows "(\<exists>s0. new_ComputationNodeService = Inr s0 \<and> worker_inv s0 \<and> \<not> characteristic_computed s0) \<and>
    (\<forall>j s'. Comp_Connect J cb env body s = (Inr j, s') \<longrightarrow> worker_inv s') \<and>
    worker_inv (snd (Comp_Disconnect J s)) \<and> \<not> CheckConnection (snd (Comp_Disconnect J s)) \<and>
    (\<forall>s'. bench_job benv s = (Inr (), s') \<longrightarrow> worker_inv s' \<and> characteristic_computed s')"
proof (intro conjI allI impI)
  have c: "consumer_inv (consumer_service s)" using assms by (simp add: worker_inv_def)
  show "worker_inv (snd (Comp_Disconnect J s))"
    using assms Disconnect_consumer [OF c] by (simp add: Comp_Disconnect_def worker_inv_def)
  show "\<not> CheckConnection (snd (Comp_Disconnect J s))"
    using Disconnect_consumer [OF c] by (simp add: Comp_Disconnect_def CheckConnection_def)
  show "worker_inv s'" if "Comp_Connect J cb env body s = (Inr j, s')" for j s'
    by (rule worker_inv_Connect [OF assms that])
  show "worker_inv s'" and "characteristic_computed s'" if "bench_job benv s = (Inr (), s')" for s'
    using bench_job_inv [OF assms that] by simp_all
qed (use new_worker in blast)

theorem worker_invariant_witness:
  "\<exists>s0. (new_ComputationNodeService :: fault + unit ComputationNodeService) = Inr s0 \<and> worker_inv s0"
proof -
  obtain s where "worker_inv (s :: unit ComputationNodeService)" using new_worker by blast
  from worker_invariant [OF this, THEN conjunct1] show ?thesis by blast
qed


text \<open>A worker, fresh from its constructor, reached with a well-formed request.\<close>

definition sample_node :: "unit ComputationNodeService" where
  "sample_node = \<lparr>consumer_service = new_consumer, bench_res = [], computation_thread = True,
     characteristic_computed = False,
     benchmark_runner = \<lparr>bench_ns = ns, bench_iter_counts = iter_count, clk = new_ClockArray\<rparr>\<rparr>"

definition connect_json :: "(unit json, unit) jsoncpp" where
  "connect_json = json_model\<lparr>j_parse := (\<lambda>_. Inr (JObj [(''ip'', JStr ''q''), (''name'', JStr ''n''),
     (''user'', JStr ''u''), (''password'', JStr ''p'')]))\<rparr>"

lemma connect_json_laws: "jsoncpp_laws connect_json"
  by (simp only: connect_json_def) (rule parse_update_laws [OF json_model_laws])

lemma sample_node_inv: "worker_inv sample_node"
  by (simp add: worker_inv_def sample_node_def consumer_inv_new)

lemma sample_connected:
  "\<exists>j s'. CompNode_ConnectHandler connect_json Inr \<lparr>ce_ready = False, ce_message = []\<rparr> [] sample_node = (Inr (200, j), s')"
proof -
  let ?q = "\<lparr>cr_ip = ''q'', cr_name = ''n'', cr_user = ''u'', cr_password = ''p''\<rparr>" and ?env = "\<lparr>ce_ready = False, ce_message = []\<rparr>"
  let ?pre = "connect_fields connect_json [] ?q"
  have req: "\<exists>val. j_parse connect_json [] = Inr val \<and> read_request connect_json val = Inr ?q"
    by (simp add: connect_json_def json_model_def read_request_def get_defs)
  have con: "\<exists>c. start_consumer Inr ?env ?q new_consumer = (Inr (), c)"
    by (simp add: start_consumer_def Service_Connect_def Connect_begin_def con_Reconnect_def open_channel_def
        con_SetMessageCallback_def con_SetParameters_def IsConnected_def Let_def new_consumer_def new_service_def
        service.extend_def make_amqp_def am_UpdateFormat_def)
  have node: "\<not> IsConnected (consumer_service sample_node)" "consumer_service sample_node = new_consumer" "bench_res sample_node = []"
    by (simp_all add: sample_node_def IsConnected_def new_consumer_def new_service_def service.extend_def)
  obtain val c where "j_parse connect_json [] = Inr val" "read_request connect_json val = Inr ?q"
    and "start_consumer Inr ?env ?q new_consumer = (Inr (), c)" using req con by blast
  with node obtain s' where "Comp_Connect connect_json Inr ?env [] sample_node =
      (Inr (answer connect_json ''connect'' (?pre @ [code_field connect_json 200])), s')"
    by (simp add: Comp_Connect_def Let_def)
  from jsoncpp_laws.respond_answer [where act = "Comp_Connect connect_json Inr ?env []" and w = sample_node, OF connect_json_laws this, of 200]
  have "respond connect_json (Comp_Connect connect_json Inr ?env []) sample_node =
      (Inr (of_nat 200, answer connect_json ''connect'' (?pre @ [code_field connect_json 200])), s')"
    by (simp add: connect_fields_def code_field_def)
  then show ?thesis by (simp add: CompNode_ConnectHandler_def)
qed


text \<open>C23: a worker's answer to its first registration always makes the main node's handler fail: the
main node reads one entry of the benchmark vector.  Before the worker has finished its benchmark
the vector is empty and the entry reads as zero, a division by zero; afterwards the one-entry
speed meets the thirteen slots of \<open>normalized_\<close>.\<close>

theorem registration_fails:
  assumes "jsoncpp_laws J" and "CompNode_ConnectHandler J cb env body s = (Inr (200, j), s')"
    and "map_of (status_map INACTIVE w) h = Some n" and "http_client n = Some url" and "node_speed n = []"
    and "length (normalized w) \<noteq> 1"
  shows "fst (Worker_ConnectNode J (\<lambda>_. Response 200 (Some j)) h w) =
    Inl (UB (if bench_res s = [] \<or> bench_res s ! 0 = 0 then ''integer division by zero'' else ''valarray size mismatch''))"
proof -
  from jsoncpp_laws.ConnectHandler_cases [OF assms(1,2)] obtain q
    where j: "j = answer J ''connect'' (connect_fields J (bench_res s) q @ [code_field J 200])" by auto
  have b: "j_get J j ''bench'' = Some (ContinuousToJson J (j_ofUInt64 J) (bench_res s) True True)"
    unfolding j by (rule jsoncpp_laws.bench_member [OF assms(1)]) (simp_all add: connect_fields_def code_field_def)
  note known = connect_known [where send = "\<lambda>_. Response 200 (Some j)", OF assms(3,4) refl]
  show ?thesis
    using assms(6) by (simp add: known get_json_def b jsoncpp_laws.recompute_bench [OF assms(1)] assms(5) va_zip_def)
qed

theorem registration_fails_witness:
  "\<exists>j s'. CompNode_ConnectHandler connect_json Inr \<lparr>ce_ready = False, ce_message = []\<rparr> [] sample_node
      = (Inr (200, j), s') \<and>
    fst (Worker_ConnectNode connect_json (\<lambda>_. Response 200 (Some j)) ''b''
      (snd (AddNewNode connect_json ''b'' new_WorkerManagementService))) = Inl (UB ''integer division by zero'')"
proof -
  obtain j s' where run: "CompNode_ConnectHandler connect_json Inr \<lparr>ce_ready = False, ce_message = []\<rparr> []
      sample_node = (Inr (200, j), s')" using sample_connected by blast
  let ?w = "snd (AddNewNode connect_json ''b'' new_WorkerManagementService)"
  have "map_of (status_map INACTIVE ?w) ''b'' = Some (empty_node\<lparr>http_client := Some ''http://b'', st := INACTIVE\<rparr>)"
    and "length (normalized ?w) \<noteq> 1"
    by (simp_all add: AddNewNode_def new_WorkerManagementService_def registry_eval DefaultBench_def kNValues_def)
  from registration_fails [OF connect_json_laws run this(1) _ _ this(2), of "''http://b''"] run
  show ?thesis by (auto simp: empty_node_def sample_node_def)
qed

text \<open>The status and disconnect handlers of both controllers always answer: status with 200 and
no effect, disconnect with 200 exactly when there was a connection to close and 409 otherwise.\<close>

theorem handler_codes:
  assumes "jsoncpp_laws J"
  shows "CompNode_GetStatus J s = (Inr (200, Comp_GetStatus J s), s) \<and>
    CompNode_DisconnectHandler J s = (Inr (if IsConnected (consumer_service s) then 200 else 409,
      fst (Comp_Disconnect J s)), snd (Comp_Disconnect J s)) \<and>
    Cluster_GetStatus J (w, m) = (Inr (200, Status J m), (w, m)) \<and>
    Cluster_DisconnectQ J (w, m) = (Inr (if IsConnected (publisher_service m) then 200 else 409,
      fst (Node_Disconnect J m)), (w, snd (Node_Disconnect J m)))"
proof -
  note resp = jsoncpp_laws.response_answer(1) [OF assms]
  have st: "http_response J (Comp_GetStatus J s) = Inr (of_nat 200, Comp_GetStatus J s)"
    unfolding Comp_GetStatus_def by (rule resp) (simp_all add: code_field_def)
  have ms: "http_response J (Status J m) = Inr (of_nat 200, Status J m)"
    unfolding Status_def by (rule resp) (simp_all add: code_field_def)
  have ok: "http_response J (answer J r [code_field J 200]) = Inr (of_nat 200, answer J r [code_field J 200])" for r
    by (rule resp) (simp_all add: code_field_def)
  have bad: "http_response J (answer J r [code_field J 409, message_field J t]) =
      Inr (of_nat 409, answer J r [code_field J 409, message_field J t])" for r t
    by (rule resp) (simp_all add: code_field_def message_field_def)
  from st ms ok bad show ?thesis
    by (simp add: CompNode_GetStatus_def CompNode_DisconnectHandler_def Cluster_GetStatus_def Cluster_DisconnectQ_def
        respond_def sbind_apply Comp_Disconnect_def Node_Disconnect_def)
qed

theorem handler_codes_witness:
  "fst (Cluster_DisconnectQ (json_model :: (unit json, unit) jsoncpp) ((), new_ClusterConfigController)) =
    Inr (409, fst (Node_Disconnect json_model new_ClusterConfigController))"
proof -
  have "\<not> IsConnected (publisher_service new_ClusterConfigController)"
    by (simp add: new_ClusterConfigController_def new_MainNodeService_def IsConnected_def new_publisher_def
        new_service_def service.extend_def)
  with handler_codes [where J = "json_model :: (unit json, unit) jsoncpp", OF json_model_laws,
      of sample_node "()" new_ClusterConfigController] show ?thesis by simp
qed

end
