(* ===== verification/Cluster.thy ===== *)
theory Cluster
  imports CompNode
begin

text \<open>
  The main node and its workers together: what \<open>SendToExecution\<close> publishes, the callbacks of the
  workers compute.
\<close>

text \<open>The bodies of the messages published between two states of the main node.\<close>

definition task_bodies :: "MainNodeService \<Rightarrow> MainNodeService \<Rightarrow> string list" where
  "task_bodies s s' = map (\<lambda>(exch, key, e). env_body e)
     (drop (length (published (publisher_service s))) (published (publisher_service s')))"

lemma dispatch_log_bodies:
  "length hosts = length slices \<Longrightarrow> map (\<lambda>(exch, key, e). env_body e) (dispatch_log J clock exch start hosts slices) =
    map (\<lambda>sl. j_styled J (TestSolveParam_ToJson J sl)) slices"
  by (intro nth_equalityI) (simp_all add: dispatch_log_def task_envelope_def)

section \<open>A task depends on its arguments as a map\<close>

lemma double_arg_map: "map_of as = map_of bs \<Longrightarrow> double_arg as = double_arg bs"
  by (simp add: double_arg_def fun_eq_iff)

lemma ParseFunc_map: "map_of as = map_of bs \<Longrightarrow> ParseFunc kind as = ParseFunc kind bs"
  by (auto simp: ParseFunc_def ParseFunc_type_def double_arg_map [of as bs] cong: DistributionType.case_cong split: option.split)

lemma compute_task_map:
  assumes "map_of as = map_of (args ts)"
  shows "compute_task lu draw (ts\<lparr>args := as\<rparr>) slot = compute_task lu draw ts slot"
proof -
  have "task_functor (ts\<lparr>args := as\<rparr>) = task_functor ts"
  proof
    fix slot
    show "task_functor (ts\<lparr>args := as\<rparr>) slot = task_functor ts slot"
      by (cases slot) (simp_all add: task_functor_def task_kind_def assms ParseFunc_map [OF assms])
  qed
  moreover have "task_iterations (ts\<lparr>args := as\<rparr>) = task_iterations ts" by (simp add: task_iterations_def cong: if_cong)
  then have "iterate_task lu d (ts\<lparr>args := as\<rparr>) ms = iterate_task lu d ts ms" for d ms
    by (simp add: iterate_task_def)
  ultimately show ?thesis by (simp add: compute_task_def)
qed

section \<open>A slice of a task\<close>

text \<open>\<open>slice_of sl ts\<close>: a non-empty part of the iterations of \<open>ts\<close>.\<close>

definition slice_of :: "'f TestSolveParam \<Rightarrow> 'f TestSolveParam \<Rightarrow> bool" where
  "slice_of sl ts \<longleftrightarrow> sl\<lparr>range := range ts\<rparr> = ts \<and> iterations sl \<noteq> [] \<and> set (iterations sl) \<subseteq> set (iterations ts)"

lemma slice_of_range:
  assumes "slice_of sl ts"
  shows "sl = ts\<lparr>range := range sl\<rparr>" and "unat (fst (range sl)) \<le> unat (snd (range sl))"
    and "unat (snd (range sl)) \<le> unat (snd (range ts))"
proof -
  from assms have "sl\<lparr>range := range ts\<rparr> = ts" by (simp add: slice_of_def)
  then have "(sl\<lparr>range := range ts\<rparr>)\<lparr>range := range sl\<rparr> = ts\<lparr>range := range sl\<rparr>" by simp
  then show "sl = ts\<lparr>range := range sl\<rparr>" by simp
  show le: "unat (fst (range sl)) \<le> unat (snd (range sl))"
    using assms by (simp add: slice_of_def iterations_def split: if_splits)
  then have "unat (snd (range sl)) \<in> set (iterations sl)" by (simp add: iterations_def)
  with assms have "unat (snd (range sl)) \<in> set (iterations ts)" by (auto simp: slice_of_def)
  then show "unat (snd (range sl)) \<le> unat (snd (range ts))" by (auto simp: iterations_def split: if_splits)
qed

lemma small_range: "unat (a :: u64) \<le> unat b \<Longrightarrow> uint b < n \<Longrightarrow> uint a < n"
proof -
  assume "unat a \<le> unat b" "uint b < n"
  then have "int (unat a) \<le> int (unat b)" by linarith
  then have "uint a \<le> uint b" by (simp only: uint_nat)
  with \<open>uint b < n\<close> show ?thesis by linarith
qed

text \<open>What the thread of a worker computes for a slice, in terms of the whole task.\<close>

lemma compute_slice:
  assumes "ts_N ts \<noteq> 0" and "task_functor ts slot = (Inr g, slot')" and "uint (snd (range ts)) < 2 ^ 31 - 1"
    and "\<forall>i\<in>set (iterations ts). pattern lu (configuration draw g ts i) = Inr (p i)" and "slice_of sl ts"
  shows "\<exists>r. compute_task lu draw sl slot = (Inr r, slot') \<and>
    (\<forall>k<175. r ! k = lin 0 (pi * 2) 25 (k mod 25) + (\<Sum>i\<leftarrow>iterations sl. p i ! k))"
proof -
  note s = slice_of_range [OF assms(5)]
  let ?r = "foldl (map2 (+)) (map (\<lambda>k. lin 0 (pi * 2) 25 (k mod 25)) [0..<175]) (map p (iterations sl))"
  have small: "uint (snd (range sl)) < 2 ^ 31 - 1" using small_range [OF s(3) assms(3)] .
  with task_iterations_range [OF s(2)] have it: "task_iterations sl = iterations sl" by (simp add: iterations_def)
  have same: "ts_N sl = ts_N ts" "args sl = args ts" by (subst s(1), simp)+
  have f: "task_functor sl slot = (Inr g, slot')" using assms(2) by (cases slot) (simp_all add: task_functor_def task_kind_def same)
  have c: "configuration draw g sl i = configuration draw g ts i" for i by (simp add: configuration_def same)
  have ps: "\<forall>i\<in>set (iterations sl). pattern lu (configuration draw g sl i) = Inr (p i)"
    using assms(4,5) unfolding c by (auto simp: slice_of_def)
  have "compute_task lu draw sl slot = (Inr ?r, slot')"
    unfolding compute_task_Inr [OF assms(1) [folded same(1)]]
    by (intro exI [of _ g] exI [of _ p] conjI f ps [folded it] small) (simp add: it)
  moreover have "\<forall>q\<in>set (map p (iterations sl)). length q = 175" using ps pattern_length by auto
  from foldl_map2_nth [OF this, of "map (\<lambda>k. lin 0 (pi * 2) 25 (k mod 25)) [0..<175]"]
  have "\<forall>k<175. ?r ! k = lin 0 (pi * 2) 25 (k mod 25) + (\<Sum>i\<leftarrow>iterations sl. p i ! k)" by (simp add: comp_def)
  ultimately show ?thesis by blast
qed

text \<open>A worker whose thread is fresh gets the slice out of the message and computes it.\<close>

lemma callback_slice:
  assumes "jsoncpp_laws J" and "slice_of sl ts"
    and "j_parse J (j_styled J (TestSolveParam_ToJson J sl)) = Inr (TestSolveParam_ToJson J sl)"
    and "uint (experiment_id ts) < 2 ^ 32" and "uint (ts_N ts) < 2 ^ 32" and "uint (snd (range ts)) < 2 ^ 31 - 1"
    and "distinct (map fst (args ts))" and "compute_task lu draw sl slot = (Inr r, slot')"
  shows "n_message_callback J broken lu draw (j_styled J (TestSolveParam_ToJson J sl)) slot =
    (Inr (ContinuousToJson J (j_ofDouble J) r False True), slot')"
proof -
  note s = slice_of_range [OF assms(2)]
  have same: "experiment_id sl = experiment_id ts" "ts_N sl = ts_N ts" "args sl = args ts" by (subst s(1), simp)+
  have small: "uint (snd (range sl)) < 2 ^ 32" using small_range [OF s(3) assms(6)] by simp
  from jsoncpp_laws.TestSolveParam_rt [OF assms(1), of sl] small small_range [OF s(2) small] assms(4,5,7) same obtain as
    where "TestSolveParam_FromJson J (TestSolveParam_ToJson J sl) = Inr (sl\<lparr>args := as\<rparr>)" "map_of as = map_of (args sl)"
    by auto
  then show ?thesis
    using compute_task_map [of as sl lu draw slot] assms(3,8) by (simp add: n_message_callback_def sbind_apply)
qed

lemma slices_cover:
  assumes "concat (map iterations slices) = iterations ts" and "\<forall>sl\<in>set slices. iterations sl \<noteq> [] \<and> sl\<lparr>range := range ts\<rparr> = ts"
  shows "\<forall>sl\<in>set slices. slice_of sl ts"
proof
  fix sl
  assume sl: "sl \<in> set slices"
  then have "set (iterations sl) \<subseteq> set (concat (map iterations slices))" by auto
  with sl assms show "slice_of sl ts" by (simp add: slice_of_def)
qed

lemma sum_slices:
  "(\<Sum>sl\<leftarrow>slices. c + (\<Sum>i\<leftarrow>iterations sl. f i)) = of_nat (length slices) * c + (\<Sum>i\<leftarrow>concat (map iterations slices). f i :: real)"
  by (induction slices) (simp_all add: algebra_simps)

section \<open>Properties\<close>


text \<open>A task of four iterations for the two workers of the sample node; its slices travel as texts of
the two bounds.\<close>

definition cluster_task :: "real TestSolveParam" where
  "cluster_task = sample_worker_task\<lparr>range := (0, 3)\<rparr>"

definition bound_text :: "real TestSolveParam \<Rightarrow> string" where
  "bound_text p = replicate (unat (fst (range p))) (CHR ''a'') @ replicate (unat (snd (range p))) (CHR ''b'')"

definition bounds_of_text :: "string \<Rightarrow> real TestSolveParam" where
  "bounds_of_text t = cluster_task\<lparr>range := (of_nat (length (filter (\<lambda>c. c = CHR ''a'') t)), of_nat (length (filter (\<lambda>c. c = CHR ''b'') t)))\<rparr>"

definition cluster_json :: "(real json, real) jsoncpp" where
  "cluster_json = json_model\<lparr>
     j_styled := (\<lambda>v. case TestSolveParam_FromJson json_model v of Inl _ \<Rightarrow> [] | Inr p \<Rightarrow> bound_text p),
     j_parse := (\<lambda>t. Inr (TestSolveParam_ToJson json_model (bounds_of_text t)))\<rparr>"

lemma cluster_json_laws: "jsoncpp_laws cluster_json"
  using json_model_laws [where 'a = real] by (simp add: cluster_json_def jsoncpp_laws_def)

lemma cluster_json_ToJson: "TestSolveParam_ToJson cluster_json p = TestSolveParam_ToJson json_model p"
proof -
  have "VariantToJson cluster_json v = VariantToJson json_model v" for v :: "real JsonVariant"
    by (cases v) (simp_all add: cluster_json_def)
  then show ?thesis by (simp add: TestSolveParam_ToJson_def j_sets_def cluster_json_def Let_def)
qed

lemma cluster_json_parse:
  assumes "slice_of sl cluster_task"
  shows "j_parse cluster_json (j_styled cluster_json (TestSolveParam_ToJson cluster_json sl)) = Inr (TestSolveParam_ToJson cluster_json sl)"
proof -
  note s = slice_of_range [OF assms]
  have f: "experiment_id sl = 1" "ts_N sl = 1" "distinct (map fst (args sl))"
    by (subst s(1), simp add: cluster_task_def sample_worker_task_def)+
  have "uint (snd (range sl)) < 2 ^ 32" by (rule small_range [OF s(3)]) (simp add: cluster_task_def)
  with f small_range [OF s(2) this] jsoncpp_laws.TestSolveParam_rt [OF json_model_laws, of sl] obtain as where
    "TestSolveParam_FromJson json_model (TestSolveParam_ToJson json_model sl) = Inr (sl\<lparr>args := as\<rparr>)" by auto
  moreover have "bounds_of_text (bound_text (sl\<lparr>args := as\<rparr>)) = sl"
    by (subst (2) s(1)) (simp add: bounds_of_text_def bound_text_def)
  ultimately show ?thesis unfolding cluster_json_ToJson by (simp add: cluster_json_def)
qed

lemma cluster_dispatch:
  "\<exists>s'. SendToExecution cluster_json (\<lambda>_. (0, 0)) cluster_task sample_main =
    (Inr (answer cluster_json ''send_task'' [code_field cluster_json 200]), s')"
proof -
  have "NIndex 1 = 0" by (simp add: NIndex_def ns_def)
  then have "fst (SendToExecution cluster_json (\<lambda>_. (0, 0)) cluster_task sample_main) =
      Inr (answer cluster_json ''send_task'' [code_field cluster_json 200])"
    using task_dispatched_lemma [OF sample_main_inv, of cluster_task cluster_json "\<lambda>_. (0, 0)"]
    by (simp add: sample_main_defs cluster_task_def sample_worker_task_def RangeSize_def share_nat_def)
  then show ?thesis by (metis prod.collapse)
qed

lemma cluster_compute:
  "\<exists>res slot. compute_task (\<lambda>A b. b) (\<lambda>g i k. real k) cluster_task None = (Inr res, slot)"
proof -
  obtain q where q: "pattern (\<lambda>A b. b) [0, 1] = Inr q" using sample_pattern by blast
  have "configuration (\<lambda>g i k. real k) g cluster_task i = [0, 1]" for g i
    by (simp add: configuration_def cluster_task_def sample_worker_task_def upt_rec)
  moreover have "task_functor cluster_task None = (Inr (exponential_distribution 1), Some (exponential_distribution 1))"
    by (simp add: task_functor_def cluster_task_def sample_worker_task_def task_kind_def ParseFunc_def stringToDistributionType_def
        ParseFunc_type_def double_arg_def get_exponential_generator_def)
  moreover have "ts_N cluster_task \<noteq> 0" "uint (snd (range cluster_task)) < 2 ^ 31 - 1"
    by (simp_all add: cluster_task_def sample_worker_task_def)
  ultimately show ?thesis using q compute_task_Inr [of cluster_task "\<lambda>A b. b" "\<lambda>g i k. real k" None] by (simp only:) auto
qed


end
