(* ===== verification/Db.thy ===== *)
theory Db
  imports ConnectionString
begin

text \<open>
  \<open>network_shared/dbCommon.h/.cpp\<close>: connections, transactions, subtransactions and the
  creation and removal of databases.  libpqxx and the PostgreSQL server are not part of the
  repository: the record \<open>pqxx\<close> holds the calls the code makes, as actions over the state
  \<open>'w\<close> of the server and of its connections.  The locale \<open>pqxx_laws\<close> states the documented
  contract of transactions; \<open>server\<close> is an executable instance: one database, a working copy
  per transaction and a stack of savepoints.
\<close>

section \<open>The client library\<close>

text \<open>The exceptions of libpqxx the code meets; \<open>sql_error\<close> holds message, query and state.\<close>

datatype px_error =
    sql_error string string string
  | broken_connection
  | in_doubt_error
  | unexpected_rows
  | conversion_error
  | px_argument_error
  | px_failure string

datatype thrown = Px px_error | Fault fault

datatype sql_param = PStr string | PNum u64 | PNull

type_synonym row = "(string \<times> string option) list"
type_synonym ResType = "row list"
type_synonym ('w, 'a) db_action = "('w, thrown, 'a) action"

record ('c, 'w) pqxx =
  px_connect :: "string \<Rightarrow> ('w, px_error, 'c) action"
  px_is_open :: "'c \<Rightarrow> 'w \<Rightarrow> bool"
  px_close :: "'c \<Rightarrow> 'w \<Rightarrow> 'w"
  px_begin :: "'c \<Rightarrow> ('w, px_error, unit) action"
  px_exec :: "'c \<Rightarrow> string \<Rightarrow> sql_param list \<Rightarrow> ('w, px_error, ResType) action"
  px_commit :: "'c \<Rightarrow> ('w, px_error, unit) action"
  px_abort :: "'c \<Rightarrow> 'w \<Rightarrow> 'w"
  px_savepoint :: "'c \<Rightarrow> string \<Rightarrow> ('w, px_error, unit) action"
  px_release :: "'c \<Rightarrow> ('w, px_error, unit) action"
  px_rollback_to :: "'c \<Rightarrow> 'w \<Rightarrow> 'w"
  px_exec_now :: "'c \<Rightarrow> string \<Rightarrow> ('w, px_error, ResType) action"
  px_index :: "string \<Rightarrow> u64 option"
  px_array_size :: "string \<Rightarrow> nat option"

definition lift_px :: "('w, px_error, 'a) action \<Rightarrow> ('w, 'a) db_action" where
  "lift_px act = (\<lambda>w. case act w of (Inl e, w) \<Rightarrow> (Inl (Px e), w) | (Inr x, w) \<Rightarrow> (Inr x, w))"

text \<open>\<open>catch (const pqxx::sql_error &e) { throw SQL_ERROR(...); }\<close>\<close>

fun rethrow_sql :: "thrown \<Rightarrow> thrown" where
  "rethrow_sql (Px (sql_error w q s)) = Fault (Thrown (SQL_ERROR w q s))"
| "rethrow_sql e = e"

text \<open>Rows and fields: \<open>as<IndexType>()\<close>, \<open>as<std::string>()\<close>, \<open>one_row()\<close>.\<close>

definition as_string :: "string option \<Rightarrow> thrown + string" where
  "as_string v = of_opt (Px conversion_error) v"

definition as_index :: "('c, 'w) pqxx \<Rightarrow> string option \<Rightarrow> thrown + u64" where
  "as_index X v = rbind (as_string v) (\<lambda>s. of_opt (Px conversion_error) (px_index X s))"

definition field_of :: "row \<Rightarrow> string \<Rightarrow> thrown + string option" where
  "field_of r name = of_opt (Px px_argument_error) (map_of r name)"

definition one_row :: "ResType \<Rightarrow> thrown + row" where
  "one_row res = (if length res = 1 then Inr (hd res) else Inl (Px unexpected_rows))"

definition row_at :: "ResType \<Rightarrow> nat \<Rightarrow> thrown + row" where
  "row_at res i = (if i < length res then Inr (res ! i) else Inl (Fault (UB ''row index out of range'')))"

definition field_at :: "row \<Rightarrow> nat \<Rightarrow> thrown + string option" where
  "field_at r i = (if i < length r then Inr (snd (r ! i)) else Inl (Fault (UB ''field index out of range'')))"

section \<open>Optional values\<close>

definition GetOpt :: "(string option \<Rightarrow> thrown + 'a) \<Rightarrow> string option \<Rightarrow> thrown + 'a option" where
  "GetOpt as a = (if a = None then Inr None else rbind (as a) (\<lambda>x. Inr (Some x)))"

definition deref :: "fault + 'a option \<Rightarrow> thrown + 'a" where
  "deref v = (case v of Inl e \<Rightarrow> Inl (Fault e) | Inr None \<Rightarrow> Inl (Fault (UB ''empty optional dereferenced''))
    | Inr (Some x) \<Rightarrow> Inr x)"

definition GetFunctionOpt :: "(string \<Rightarrow> fault + 'a option) \<Rightarrow> string option \<Rightarrow> thrown + 'a option" where
  "GetFunctionOpt func a = (case a of None \<Rightarrow> Inr None | Some s \<Rightarrow> rbind (deref (func s)) (\<lambda>x. Inr (Some x)))"

definition ParseArray :: "(row \<Rightarrow> thrown + 'a) \<Rightarrow> ResType \<Rightarrow> thrown + 'a list" where
  "ParseArray from_row result = rmap from_row result"

definition PaginateRequest :: "string \<Rightarrow> u64 \<Rightarrow> u64 \<Rightarrow> string" where
  "PaginateRequest initial_request page_num page_size = fmt_format ''{} LIMIT {} OFFSET {}''
    [initial_request, show_nat (unat page_size), show_nat (unat ((page_num - 1) * page_size))]"

section \<open>Connections\<close>

type_synonym 'c ConnPtr = "'c option"

definition Db_CheckConnection :: "('c, 'w) pqxx \<Rightarrow> 'c ConnPtr \<Rightarrow> 'w \<Rightarrow> bool" where
  "Db_CheckConnection X conn_ptr w = (case conn_ptr of None \<Rightarrow> False | Some c \<Rightarrow> px_is_open X c w)"

definition Db_Disconnect :: "('c, 'w) pqxx \<Rightarrow> 'c ConnPtr \<Rightarrow> 'w \<Rightarrow> 'c ConnPtr \<times> 'w" where
  "Db_Disconnect X conn_ptr w = (case conn_ptr of None \<Rightarrow> (None, w) | Some c \<Rightarrow> (None, px_close X c w))"

definition TryConnect :: "('c, 'w) pqxx \<Rightarrow> PostgreSQLCStr \<Rightarrow> string \<Rightarrow> ('w, 'c) db_action" where
  "TryConnect X conn_str service_name = (\<lambda>w.
    case px_connect X (pg_formatted conn_str) w of
      (Inr c, w) \<Rightarrow> (Inr c, w)
    | (Inl broken_connection, w) \<Rightarrow>
        (Inl (Fault (Thrown (Broken_Connection service_name (pg_GetVerboseName conn_str)))), w)
    | (Inl e, w) \<Rightarrow> (Inl (Px e), w))"

section \<open>Transactions\<close>

text \<open>
  \<open>func\<close> is the body with its captured results; \<open>px_abort\<close> and \<open>px_rollback_to\<close> are what the
  destructors of an uncommitted transaction and subtransaction do.
\<close>

definition ExecuteTransaction ::
    "('c, 'w) pqxx \<Rightarrow> 'c ConnPtr \<Rightarrow> ('c \<Rightarrow> ('w, 'a) db_action) \<Rightarrow> string \<Rightarrow> PostgreSQLCStr \<Rightarrow> ('w, 'a) db_action" where
  "ExecuteTransaction X ptr func service_name conn_str = (\<lambda>w.
    case (if Db_CheckConnection X ptr w then ptr else None) of
      None \<Rightarrow> (Inl (Fault (Thrown (Broken_Connection service_name (pg_GetVerboseName conn_str)))), w)
    | Some c \<Rightarrow>
        (case px_begin X c w of
           (Inl e, w) \<Rightarrow> (Inl (Px e), w)
         | (Inr _, w) \<Rightarrow>
             (case sbind (func c) (\<lambda>r. sbind (lift_px (px_commit X c)) (\<lambda>_. sret r)) w of
                (Inr r, w) \<Rightarrow> (Inr r, w)
              | (Inl e, w) \<Rightarrow> (Inl (rethrow_sql e), px_abort X c w))))"

definition ExecuteSubTransaction ::
    "('c, 'w) pqxx \<Rightarrow> 'c \<Rightarrow> ('c \<Rightarrow> ('w, 'a) db_action) \<Rightarrow> string \<Rightarrow> ('w, 'a) db_action" where
  "ExecuteSubTransaction X c func sub_name = (\<lambda>w.
    case px_savepoint X c sub_name w of
      (Inl e, w) \<Rightarrow> (Inl (Px e), w)
    | (Inr _, w) \<Rightarrow>
        (case sbind (func c) (\<lambda>r. sbind (lift_px (px_release X c)) (\<lambda>_. sret r)) w of
           (Inr r, w) \<Rightarrow> (Inr r, w)
         | (Inl e, w) \<Rightarrow> (Inl (rethrow_sql e), px_rollback_to X c w)))"

definition exec :: "('c, 'w) pqxx \<Rightarrow> 'c \<Rightarrow> string \<Rightarrow> sql_param list \<Rightarrow> ('w, ResType) db_action" where
  "exec X c qq params = lift_px (px_exec X c qq params)"

section \<open>Databases\<close>

text \<open>
  A nontransaction executes at once; its \<open>commit\<close> and \<open>abort\<close> send nothing.  The temporary
  connection is closed by \<open>Disconnect\<close> or, when an exception leaves the function, by its
  destructor.
\<close>

definition c_str :: "string \<Rightarrow> string" where
  "c_str s = takeWhile (\<lambda>c. c \<noteq> char_of (0 :: nat)) s"

definition exec_now :: "('c, 'w) pqxx \<Rightarrow> 'c \<Rightarrow> string \<Rightarrow> ('w, ResType) db_action" where
  "exec_now X c qq = lift_px (px_exec_now X c qq)"

definition CheckDatabaseExistence :: "('c, 'w) pqxx \<Rightarrow> 'c \<Rightarrow> string \<Rightarrow> ('w, bool) db_action" where
  "CheckDatabaseExistence X c db_name =
    sbind (exec_now X c (fmt_format (''SELECT 1 FROM pg_database WHERE datname = '' @ [CHR 0x27] @ ''{}'' @ [CHR 0x27] @ '';'') [c_str db_name]))
      (\<lambda>r. sret (length r \<noteq> 0))"

definition terminate_query :: string where
  "terminate_query = ''SELECT pg_terminate_backend(pg_stat_activity.pid)'' @ newline @ ''FROM pg_stat_activity '' @
    ''WHERE pg_stat_activity.datname = '' @ [CHR 0x27] @ ''{}'' @ [CHR 0x27] @ '' '' @ '' AND pid <> pg_backend_pid();''"

definition TerminateAllDbConnections :: "('c, 'w) pqxx \<Rightarrow> 'c \<Rightarrow> string \<Rightarrow> ('w, ResType) db_action" where
  "TerminateAllDbConnections X c db_name = exec_now X c (fmt_format terminate_query [db_name])"

definition SampleTempDb :: string where
  "SampleTempDb = ''template1''"

definition guarded :: "('c, 'w) pqxx \<Rightarrow> 'c \<Rightarrow> ('w, 'a) db_action \<Rightarrow> ('w, 'a) db_action" where
  "guarded X c body = (\<lambda>w. case body w of
      (Inr r, w) \<Rightarrow> (Inr r, snd (Db_Disconnect X (Some c) w))
    | (Inl e, w) \<Rightarrow> (Inl (rethrow_sql e), px_close X c w))"

definition catch_sql :: "('w, 'a) db_action \<Rightarrow> ('w, 'a) db_action" where
  "catch_sql act = scatch act (\<lambda>e w. (Inl (rethrow_sql e), w))"

definition CreateDatabase :: "('c, 'w) pqxx \<Rightarrow> PostgreSQLCStr \<Rightarrow> string \<Rightarrow> ('w, 'c) db_action" where
  "CreateDatabase X c_string db_name =
    (let c_string = pg_SetDbname db_name c_string; t_string = pg_SetDbname SampleTempDb c_string
     in sbind (TryConnect X t_string ''OuterService'') (\<lambda>temp_connection.
        sbind (guarded X temp_connection
          (sbind (CheckDatabaseExistence X temp_connection (pg_dbname c_string)) (\<lambda>there.
            if there then sret True
            else sbind (exec_now X temp_connection (fmt_format ''CREATE DATABASE \"{}\";'' [pg_dbname c_string])) (\<lambda>_.
                 sbind (exec_now X temp_connection (fmt_format ''GRANT ALL ON DATABASE \"{}\" TO {};'' [pg_dbname c_string, pg_user c_string])) (\<lambda>_.
                 sret False)))))
        (\<lambda>there. if there then catch_sql (TryConnect X c_string ''Outer'') else TryConnect X c_string ''Outer'')))"

definition DropDatabase :: "('c, 'w) pqxx \<Rightarrow> PostgreSQLCStr \<Rightarrow> string \<Rightarrow> ('w, unit) db_action" where
  "DropDatabase X c_string db_name =
    (let c_string = pg_SetDbname db_name c_string; t_string = pg_SetDbname SampleTempDb c_string
     in sbind (TryConnect X t_string ''Outer'') (\<lambda>temp_connection.
        guarded X temp_connection
          (sbind (CheckDatabaseExistence X temp_connection (pg_dbname c_string)) (\<lambda>there.
            if \<not> there then sret ()
            else sbind (TerminateAllDbConnections X temp_connection (pg_dbname c_string)) (\<lambda>_.
                 sbind (exec_now X temp_connection (fmt_format ''DROP DATABASE \"{}\";'' [pg_dbname c_string])) (\<lambda>_.
                 sret ()))))))"

definition FillDatabase :: "('c, 'w) pqxx \<Rightarrow> PostgreSQLCStr \<Rightarrow> string \<Rightarrow> ('w, unit) db_action" where
  "FillDatabase X c_string script =
    sbind (TryConnect X c_string ''Outer'') (\<lambda>conn w.
      let (r, w) = ExecuteTransaction X (Some conn) (\<lambda>c. sbind (exec X c script []) (\<lambda>_. sret ())) ''Outer'' c_string w
      in (r, px_close X conn w))"

section \<open>The contract of transactions\<close>

text \<open>
  \<open>db\<close> is the committed database, \<open>work\<close> the one the running transaction sees, \<open>sql\<close> the
  effect of a statement, \<open>known\<close> the connection objects created so far.  A connection may fail at any point; only a commit publishes, and only
  a commit whose outcome the server could not confirm leaves the database in doubt.
\<close>

locale pqxx_laws =
  fixes X :: "('c, 'w) pqxx" and db :: "'w \<Rightarrow> 'd"
  assumes begin_data: "keeps db (px_begin X c)"
    and exec_data: "keeps db (px_exec X c q ps)"
    and savepoint_data: "keeps db (px_savepoint X c n)"
    and release_data: "keeps db (px_release X c)"
    and abort_data: "db (px_abort X c w) = db w"
    and rollback_data: "db (px_rollback_to X c w) = db w"
    and commit_fails: "px_commit X c w = (Inl e, w') \<Longrightarrow> e \<noteq> in_doubt_error \<Longrightarrow> db w' = db w"
begin

lemma keeps_lift: "keeps db act \<Longrightarrow> keeps db (lift_px act)"
  unfolding keeps_def lift_px_def by (auto split: prod.splits sum.splits) (metis snd_conv)+

lemma keeps_exec: "keeps db (exec X c q ps)"
  by (simp add: exec_def keeps_lift exec_data)

lemma keeps_sub:
  assumes "\<And>c. keeps db (f c)"
  shows "keeps db (ExecuteSubTransaction X c f n)"
  unfolding keeps_def
proof
  fix w
  let ?b = "sbind (f c) (\<lambda>r. sbind (lift_px (px_release X c)) (\<lambda>_. sret r))"
  have b: "keeps db ?b" by (intro keeps_sbind keeps_lift release_data keeps_sret assms)
  show "db (snd (ExecuteSubTransaction X c f n w)) = db w"
    using keeps_run [OF savepoint_data] keeps_run [OF b]
    by (auto simp: ExecuteSubTransaction_def rollback_data split: prod.splits sum.splits)
qed

text \<open>A transaction that throws has changed nothing.\<close>

lemma transaction_atomic:
  assumes "\<And>c. keeps db (f c)" and "ExecuteTransaction X ptr f name cs w = (Inl e, w')" and "e \<noteq> Px in_doubt_error"
  shows "db w' = db w"
proof (cases "if Db_CheckConnection X ptr w then ptr else None")
  case None
  with assms(2) show ?thesis by (simp add: ExecuteTransaction_def split: if_splits option.splits)
next
  case (Some c)
  obtain r1 w1 where b: "px_begin X c w = (r1, w1)" by fastforce
  then have d1: "db w1 = db w" using keeps_run [OF begin_data] by simp
  show ?thesis
  proof (cases r1)
    case (Inl e1)
    with assms(2) Some b d1 show ?thesis by (simp add: ExecuteTransaction_def split: if_splits)
  next
    case (Inr u)
    obtain r2 w2 where f: "f c w1 = (r2, w2)" by fastforce
    then have d2: "db w2 = db w" using keeps_run [OF assms(1)] d1 by simp
    show ?thesis
    proof (cases r2)
      case (Inl e2)
      with assms(2) Some b Inr f d2 show ?thesis
        by (simp add: ExecuteTransaction_def sbind_apply abort_data split: if_splits) (metis abort_data)
    next
      case (Inr x)
      obtain r3 w3 where c: "px_commit X c w2 = (r3, w3)" by fastforce
      from assms(2) Some b \<open>r1 = Inr u\<close> f Inr c obtain e3 where e3: "r3 = Inl e3" "e = rethrow_sql (Px e3)" "w' = px_abort X c w3"
        by (cases r3) (auto simp: ExecuteTransaction_def sbind_apply lift_px_def split: if_splits)
      then have "e3 \<noteq> in_doubt_error" using assms(3) by auto
      with commit_fails c e3 d2 show ?thesis by (metis abort_data)
    qed
  qed
qed

end

section \<open>One transaction is one action on the database\<close>

text \<open>
  \<open>direct\<close> runs every statement on the database itself: transactions, savepoints and
  connections are gone, so an operation over it is what the operation means.
\<close>

definition direct :: "('c, 'w) pqxx \<Rightarrow> (string \<Rightarrow> sql_param list \<Rightarrow> ('d, px_error, ResType) action) \<Rightarrow> ('c, 'd) pqxx" where
  "direct X sql = \<lparr>px_connect = (\<lambda>_. slift (Inl broken_connection)), px_is_open = (\<lambda>_ _. True), px_close = (\<lambda>_ d. d),
     px_begin = (\<lambda>_. sret ()), px_exec = (\<lambda>_. sql), px_commit = (\<lambda>_. sret ()), px_abort = (\<lambda>_ d. d),
     px_savepoint = (\<lambda>_ _. sret ()), px_release = (\<lambda>_. sret ()), px_rollback_to = (\<lambda>_ d. d),
     px_exec_now = (\<lambda>_ q. sql q []), px_index = px_index X, px_array_size = px_array_size X\<rparr>"

definition follows :: "('w \<Rightarrow> 'd) \<Rightarrow> ('w, 'e, 'a) action \<Rightarrow> ('d, 'e, 'a) action \<Rightarrow> bool" where
  "follows view f g \<longleftrightarrow> (\<forall>w r w'. f w = (Inr r, w') \<longrightarrow> g (view w) = (Inr r, view w'))"

named_theorems follow_intros \<open>rules that relate an operation to its direct form\<close>

lemma follows_sret [follow_intros]: "follows view (sret x) (sret x)"
  by (simp add: follows_def)

lemma follows_slift [follow_intros]: "follows view (slift r) (slift r)"
  by (simp add: follows_def)

lemma follows_sbind [follow_intros]:
  "follows view m m' \<Longrightarrow> (\<And>x. follows view (f x) (f' x)) \<Longrightarrow> follows view (sbind m f) (sbind m' f')"
  unfolding follows_def sbind_eq_Inr by blast

lemma follows_if [follow_intros]:
  "(b \<Longrightarrow> follows view f f') \<Longrightarrow> (\<not> b \<Longrightarrow> follows view g g') \<Longrightarrow> follows view (if b then f else g) (if b then f' else g')"
  by simp

locale pqxx_store = pqxx_laws X db
  for X :: "('c, 'w) pqxx" and db :: "'w \<Rightarrow> 'd" +
  fixes work :: "'w \<Rightarrow> 'd" and known :: "'w \<Rightarrow> 'c set" and sql :: "string \<Rightarrow> sql_param list \<Rightarrow> ('d, px_error, ResType) action"
  assumes begin_work: "px_begin X c w = (Inr u, w') \<Longrightarrow> work w' = db w"
    and exec_work: "px_exec X c q ps w = (Inr r, w') \<Longrightarrow> sql q ps (work w) = (Inr r, work w')"
    and savepoint_work: "px_savepoint X c n w = (Inr u, w') \<Longrightarrow> work w' = work w"
    and release_work: "px_release X c w = (Inr u, w') \<Longrightarrow> work w' = work w"
    and commit_data: "px_commit X c w = (Inr u, w') \<Longrightarrow> db w' = work w"
    and connect_data: "keeps db (px_connect X s)"
    and close_data: "db (px_close X c w) = db w"
    and connect_opens: "px_connect X s w = (Inr c, w') \<Longrightarrow> px_is_open X c w'"
    and connect_new: "px_connect X s w = (Inr c, w') \<Longrightarrow> c \<notin> known w \<and> known w' = insert c (known w)"
    and connect_fails: "px_connect X s w = (Inl e, w') \<Longrightarrow> known w' = known w"
    and close_closes: "\<not> px_is_open X c (px_close X c w)"
    and close_other: "c' \<noteq> c \<Longrightarrow> px_is_open X c' (px_close X c w) = px_is_open X c' w"
    and close_known: "known (px_close X c w) = known w"
begin

lemma TryConnect_result:
  assumes "TryConnect X cs name w = (r, w')"
  shows "db w' = db w" and "r = Inr c \<Longrightarrow> px_is_open X c w' \<and> c \<notin> known w \<and> known w' = insert c (known w)"
    and "r = Inl e \<Longrightarrow> known w' = known w \<and> e \<noteq> Px broken_connection"
proof -
  obtain r1 w1 where p: "px_connect X (pg_formatted cs) w = (r1, w1)" by fastforce
  then have w': "w' = w1" using assms by (cases r1; cases "projl r1") (auto simp: TryConnect_def)
  show "db w' = db w" using keeps_run [OF connect_data p] w' by simp
  show "r = Inr c \<Longrightarrow> px_is_open X c w' \<and> c \<notin> known w \<and> known w' = insert c (known w)"
    using assms p connect_opens [of _ w c w1] connect_new [of _ w c w1]
    by (cases r1; cases "projl r1") (auto simp: TryConnect_def)
  show "r = Inl e \<Longrightarrow> known w' = known w \<and> e \<noteq> Px broken_connection"
    using assms p connect_fails [of _ w _ w1] by (cases r1; cases "projl r1") (auto simp: TryConnect_def)
qed

lemma exec_follows: "follows work (exec X c q ps) (exec (direct X sql) c' q ps)"
  by (auto simp: follows_def exec_def lift_px_def direct_def dest: exec_work split: prod.splits sum.splits)

lemma lift_follows: "(\<And>w u w'. act w = (Inr u, w') \<Longrightarrow> work w' = work w) \<Longrightarrow> follows work (lift_px act) (lift_px (sret u0))"
  for act :: "('w, px_error, unit) action"
  by (auto simp: follows_def lift_px_def split: prod.splits sum.splits)

lemma sub_follows:
  assumes "\<And>c. follows work (f c) (f' c)"
  shows "follows work (ExecuteSubTransaction X c f n) (ExecuteSubTransaction (direct X sql) c f' n)"
proof -
  let ?b = "sbind (f c) (\<lambda>r. sbind (lift_px (px_release X c)) (\<lambda>_. sret r))"
  let ?d = "sbind (f' c) (\<lambda>r. sbind (lift_px (sret ())) (\<lambda>_. sret r))"
  have b: "follows work ?b ?d"
    by (intro follows_sbind follows_sret assms lift_follows release_work)
  have "ExecuteSubTransaction (direct X sql) c f' n (work w) = (Inr r, work w')"
    if run: "ExecuteSubTransaction X c f n w = (Inr r, w')" for w r w'
  proof -
    obtain w1 where s: "px_savepoint X c n w = (Inr (), w1)"
      using run by (cases "px_savepoint X c n w"; cases "fst (px_savepoint X c n w)") (auto simp: ExecuteSubTransaction_def)
    then have "?b w1 = (Inr r, w')"
      using run by (cases "?b w1"; cases "fst (?b w1)") (simp_all add: ExecuteSubTransaction_def)
    with b have "?d (work w) = (Inr r, work w')"
      using savepoint_work [OF s] unfolding follows_def by metis
    then show ?thesis by (simp add: ExecuteSubTransaction_def direct_def)
  qed
  then show ?thesis by (simp add: follows_def)
qed

lemma transaction_follows:
  assumes "\<And>c. follows work (f c) (f' c)"
  shows "follows db (ExecuteTransaction X ptr f name cs) (ExecuteTransaction (direct X sql) ptr f' name cs)"
proof -
  have "ExecuteTransaction (direct X sql) ptr f' name cs (db w) = (Inr r, db w')"
    if run: "ExecuteTransaction X ptr f name cs w = (Inr r, w')" for w r w'
  proof -
    obtain c where c: "ptr = Some c" "Db_CheckConnection X ptr w"
      using run by (cases ptr) (auto simp: ExecuteTransaction_def split: if_splits)
    obtain w1 where b: "px_begin X c w = (Inr (), w1)"
      using run c by (cases "px_begin X c w"; cases "fst (px_begin X c w)") (auto simp: ExecuteTransaction_def)
    obtain w2 where f: "f c w1 = (Inr r, w2)" "px_commit X c w2 = (Inr (), w')"
      using run c b
      by (auto simp: ExecuteTransaction_def sbind_apply lift_px_def split: prod.splits sum.splits)
    from f(1) begin_work [OF b] assms [of c] have "f' c (db w) = (Inr r, work w2)" unfolding follows_def by metis
    with commit_data [OF f(2)] c(1) show ?thesis
      by (simp add: ExecuteTransaction_def Db_CheckConnection_def direct_def sbind_apply lift_px_def)
  qed
  then show ?thesis by (simp add: follows_def)
qed

end

section \<open>An executable server\<close>

record 'd store =
  committed :: 'd
  opened :: "nat list"
  created :: nat
  copies :: "'d list"

definition working :: "'d store \<Rightarrow> 'd" where
  "working w = (case copies w of [] \<Rightarrow> committed w | d # _ \<Rightarrow> d)"

fun in_copy :: "('d, px_error, 'a) action \<Rightarrow> ('d store, px_error, 'a) action" where
  "in_copy f w = (case copies w of
      [] \<Rightarrow> (Inl (px_failure ''no transaction''), w)
    | d # ds \<Rightarrow> (let (r, d') = f d in case r of Inl e \<Rightarrow> (Inl e, w) | Inr x \<Rightarrow> (Inr x, w\<lparr>copies := d' # ds\<rparr>)))"

definition server :: "(string \<Rightarrow> sql_param list \<Rightarrow> ('d, px_error, ResType) action) \<Rightarrow> (string \<Rightarrow> u64 option) \<Rightarrow>
    (string \<Rightarrow> nat option) \<Rightarrow> (nat, 'd store) pqxx" where
  "server sql ix az = \<lparr>
     px_connect = (\<lambda>_ w. (Inr (created w), w\<lparr>opened := created w # opened w, created := Suc (created w)\<rparr>)),
     px_is_open = (\<lambda>c w. c \<in> set (opened w)), px_close = (\<lambda>c w. w\<lparr>opened := removeAll c (opened w)\<rparr>),
     px_begin = (\<lambda>_ w. (Inr (), w\<lparr>copies := [committed w]\<rparr>)),
     px_exec = (\<lambda>_ q ps. in_copy (sql q ps)),
     px_commit = (\<lambda>_ w. (Inr (), w\<lparr>committed := working w, copies := []\<rparr>)),
     px_abort = (\<lambda>_ w. w\<lparr>copies := []\<rparr>),
     px_savepoint = (\<lambda>_ _ w. (Inr (), w\<lparr>copies := working w # copies w\<rparr>)),
     px_release = (\<lambda>_ w. (Inr (), w\<lparr>copies := working w # drop 2 (copies w)\<rparr>)),
     px_rollback_to = (\<lambda>_ w. w\<lparr>copies := drop 1 (copies w)\<rparr>),
     px_exec_now = (\<lambda>_ q w. let (r, d) = sql q [] (committed w) in (r, w\<lparr>committed := d\<rparr>)),
     px_index = ix, px_array_size = az\<rparr>"

interpretation server: pqxx_store "server sql ix az" committed working "\<lambda>w. {..<created w}" sql
  for sql :: "string \<Rightarrow> sql_param list \<Rightarrow> ('d, px_error, ResType) action" and ix az
  by unfold_locales
    (auto simp: server_def keeps_def working_def Let_def split: list.splits prod.splits sum.splits)

end
