(* ===== verification/PrintUtils.thy ===== *)
theory PrintUtils
  imports EnumUtils
begin

text \<open>
  \<open>printUtils.h/.cpp\<close>: output formats and their text form, delimiters, and the guards that
  restore a stream's flags.  An input stream is the text that is left with its fail and eof
  bits; every extraction is a function on it.  Eigen's \<open>IOFormat\<close> is the record \<open>EFormat\<close> of
  the members the code reads; Eigen's numeric constants are a parameter.
\<close>

named_theorems stream_simps "results of extractions from a stream"

section \<open>Input streams\<close>

record istream =
  is_text :: string
  is_fail :: bool
  is_eof :: bool

definition istringstream :: "string \<Rightarrow> istream" where
  "istringstream s = \<lparr>is_text = s, is_fail = False, is_eof = False\<rparr>"

definition good :: "istream \<Rightarrow> bool" where
  "good i \<longleftrightarrow> \<not> is_fail i \<and> \<not> is_eof i"

definition setfail :: "istream \<Rightarrow> istream" where
  "setfail i = i\<lparr>is_fail := True\<rparr>"

text \<open>\<open>rdstate()\<close> with the values of the GNU library: eofbit 2, failbit 4.\<close>

definition rdstate :: "istream \<Rightarrow> nat" where
  "rdstate i = (if is_eof i then (2::nat) else 0) + (if is_fail i then 4 else 0)"

text \<open>
  Formatted extraction: the sentry skips white space and fails at the end of the text; then the
  value's reader runs.  A reader that finds no value leaves \<open>zero\<close> and the fail bit.  \<open>old\<close> is
  the variable's value before.
\<close>

definition get_value :: "(string \<Rightarrow> ('a \<times> string) option) \<Rightarrow> 'a \<Rightarrow> 'a \<Rightarrow> istream \<Rightarrow> 'a \<times> istream" where
  "get_value rd zero old i =
    (if \<not> good i then (old, setfail i)
     else let t = skip_ws (is_text i)
       in if t = [] then (old, i\<lparr>is_text := [], is_eof := True, is_fail := True\<rparr>)
          else case rd t of
            None \<Rightarrow> (zero, i\<lparr>is_text := t, is_fail := True\<rparr>)
          | Some (x, r) \<Rightarrow> (x, i\<lparr>is_text := r, is_eof := (r = [])\<rparr>))"

text \<open>Unformatted extraction of one character.\<close>

definition get_char :: "istream \<Rightarrow> char option \<times> istream" where
  "get_char i =
    (if \<not> good i then (None, setfail i)
     else case is_text i of
       [] \<Rightarrow> (None, i\<lparr>is_eof := True, is_fail := True\<rparr>)
     | c # cs \<Rightarrow> (Some c, i\<lparr>is_text := cs\<rparr>))"

text \<open>Words, \<open>int\<close> values and \<open>size_t\<close> values; a minus sign wraps an unsigned value.\<close>

definition scan_word :: "string \<Rightarrow> (string \<times> string) option" where
  "scan_word s = Some (takeWhile (\<lambda>c. \<not> isspace c) s, dropWhile (\<lambda>c. \<not> isspace c) s)"

definition in_int :: "int \<Rightarrow> bool" where
  "in_int i \<longleftrightarrow> - (2 ^ 31) \<le> i \<and> i < 2 ^ 31"

definition scan_int :: "string \<Rightarrow> (int \<times> string) option" where
  "scan_int s = (case scan_decimal s of Some (i, r) \<Rightarrow> if in_int i then Some (i, r) else None | None \<Rightarrow> None)"

definition scan_size :: "string \<Rightarrow> (u64 \<times> string) option" where
  "scan_size s = (case scan_decimal s of
     Some (i, r) \<Rightarrow> if \<bar>i\<bar> < 2 ^ 64 then Some (word_of_int i, r) else None | None \<Rightarrow> None)"

text \<open>\<open>std::getline\<close>: the line is discarded by all callers.\<close>

definition getline :: "istream \<Rightarrow> istream" where
  "getline i =
    (if \<not> good i then setfail i
     else case find_char (char_of (10 :: nat)) (is_text i) of
       Some k \<Rightarrow> i\<lparr>is_text := drop (Suc k) (is_text i)\<rparr>
     | None \<Rightarrow> i\<lparr>is_text := [], is_eof := True, is_fail := (is_text i = [])\<rparr>)"

section \<open>Formats\<close>

record EFormat =
  precision :: int
  flags :: int
  coeffSeparator :: string
  rowSeparator :: string
  rowPrefix :: string
  rowSuffix :: string
  matPrefix :: string
  matSuffix :: string
  fill :: char

text \<open>Eigen's \<open>StreamPrecision\<close> and \<open>DontAlignCols\<close>.\<close>

record eigen_constants =
  StreamPrecision :: int
  DontAlignCols :: int

definition plain_format :: "eigen_constants \<Rightarrow> string \<Rightarrow> string \<Rightarrow> string \<Rightarrow> string \<Rightarrow> string \<Rightarrow> EFormat" where
  "plain_format E coeff row pre suf matsuf = \<lparr>precision = StreamPrecision E, flags = DontAlignCols E,
     coeffSeparator = coeff, rowSeparator = row, rowPrefix = pre, rowSuffix = suf,
     matPrefix = [], matSuffix = matsuf, fill = CHR '' ''\<rparr>"

definition kEnumTo :: "eigen_constants \<Rightarrow> EFormat list" where
  "kEnumTo E =
    [plain_format E '','' [] ''['' '']'' newline,
     plain_format E tab [] [] [] newline,
     plain_format E tab newline ''['' '']'' newline,
     plain_format E tab newline [] [] newline,
     plain_format E '','' [] ''{'' ''}'' []]"

datatype EigenPrintFormats = BASIC_ONE_DIMENSIONAL_VECTOR | VECTOR_FORMAT_1 | MATRIX_FORMAT | MATRIX_FORMAT_1
  | VECTOR_DB_FORMAT

fun format_index :: "EigenPrintFormats \<Rightarrow> nat" where
  "format_index BASIC_ONE_DIMENSIONAL_VECTOR = 0"
| "format_index VECTOR_FORMAT_1 = 1"
| "format_index MATRIX_FORMAT = 2"
| "format_index MATRIX_FORMAT_1 = 3"
| "format_index VECTOR_DB_FORMAT = 4"

definition kEfEnToEigenFormatMappings :: "eigen_constants \<Rightarrow> (EigenPrintFormats, EFormat) EnumDoubleMapping list" where
  "kEfEnToEigenFormatMappings E =
    [(BASIC_ONE_DIMENSIONAL_VECTOR, kEnumTo E ! 0), (VECTOR_FORMAT_1, kEnumTo E ! 1), (MATRIX_FORMAT, kEnumTo E ! 2),
     (MATRIX_FORMAT_1, kEnumTo E ! 3), (VECTOR_DB_FORMAT, kEnumTo E ! 4)]"

definition kEnumToEigenFormatMap :: "eigen_constants \<Rightarrow> (EigenPrintFormats \<rightharpoonup> EFormat)" where
  "kEnumToEigenFormatMap E = CreateEnumToTypeMap (kEfEnToEigenFormatMappings E)"

text \<open>The macro \<open>EIGENF\<close> and the function; both are checked accesses.\<close>

definition EIGENF :: "eigen_constants \<Rightarrow> EigenPrintFormats \<Rightarrow> fault + EFormat" where
  "EIGENF E form = of_opt (Std (out_of_range ''map::at'')) (kEnumToEigenFormatMap E form)"

definition PrintEnumToFormat :: "eigen_constants \<Rightarrow> EigenPrintFormats \<Rightarrow> fault + EFormat" where
  "PrintEnumToFormat E fmt =
    (if format_index fmt < length (kEnumTo E) then Inr (kEnumTo E ! format_index fmt)
     else Inl (Std (out_of_range ''array::at'')))"

datatype IoFormat = SERIALIZABLE | HUMAN_READABLE

definition kIoFormatMappings :: "(IoFormat \<times> string) list" where
  "kIoFormatMappings = [(SERIALIZABLE, ''Serializable''), (HUMAN_READABLE, ''HumanReadable'')]"

definition kStringToIoFormat :: "string \<rightharpoonup> IoFormat" where
  "kStringToIoFormat = CreateStrToEnumMap kIoFormatMappings"

definition kIoToStr :: "IoFormat \<rightharpoonup> string" where
  "kIoToStr = CreateEnumToStrMap kIoFormatMappings"

interpretation ioFormat: enum_table kIoFormatMappings
proof
  fix v :: IoFormat
  show "v \<in> fst ` set kIoFormatMappings" by (cases v) (simp_all add: kIoFormatMappings_def)
qed (simp_all add: kIoFormatMappings_def)

definition put_IoFormat :: "IoFormat \<Rightarrow> fault + string" where
  "put_IoFormat form = EnumToStr form kIoToStr"

definition get_IoFormat :: "(istream, fault, IoFormat) action" where
  "get_IoFormat = (\<lambda>i. case get_value scan_word [] [] i of (a, i') \<Rightarrow> (StrToEnum a kStringToIoFormat, i'))"

section \<open>Delimiters\<close>

definition isOnlyWhitespace :: "string \<Rightarrow> bool" where
  "isOnlyWhitespace text \<longleftrightarrow> text \<noteq> [] \<and> list_all isspace text"

fun expect :: "string \<Rightarrow> istream \<Rightarrow> istream" where
  "expect [] i = i"
| "expect (k # ks) i = (case get_char i of
     (Some c, i') \<Rightarrow> if c = k then expect ks i' else setfail i'
   | (None, i') \<Rightarrow> setfail i')"

definition get_Delimiter :: "string \<Rightarrow> istream \<Rightarrow> istream" where
  "get_Delimiter delim i = (if isOnlyWhitespace delim then i else expect delim i)"

definition ParseDelim :: "string \<Rightarrow> istream \<Rightarrow> bool \<times> istream" where
  "ParseDelim str i = (let i' = get_Delimiter str i in (good i', i'))"

section \<open>Formats as text\<close>

text \<open>\<open>std::quoted\<close>: quotes and backslashes are escaped; a text without a quote is read as a word.\<close>

definition quote :: char where "quote = char_of (34 :: nat)"

definition backslash :: char where "backslash = char_of (92 :: nat)"

definition put_quoted :: "string \<Rightarrow> string" where
  "put_quoted s = quote # concat (map (\<lambda>c. if c = quote \<or> c = backslash then [backslash, c] else [c]) s) @ [quote]"

fun read_escaped :: "string \<Rightarrow> string \<times> string option" where
  "read_escaped [] = ([], None)"
| "read_escaped (c # cs) =
    (if c = backslash then (case cs of [] \<Rightarrow> ([], None) | d # ds \<Rightarrow> apfst ((#) d) (read_escaped ds))
     else if c = quote then ([], Some cs) else apfst ((#) c) (read_escaped cs))"

definition get_quoted :: "string \<Rightarrow> istream \<Rightarrow> string \<times> istream" where
  "get_quoted old i =
    (if \<not> good i then (old, setfail i)
     else case skip_ws (is_text i) of
       [] \<Rightarrow> (old, i\<lparr>is_text := [], is_eof := True, is_fail := True\<rparr>)
     | c # cs \<Rightarrow>
         if c = quote then
           (case read_escaped cs of
              (s, Some r) \<Rightarrow> (s, i\<lparr>is_text := r\<rparr>)
            | (s, None) \<Rightarrow> (s, i\<lparr>is_text := [], is_eof := True, is_fail := True\<rparr>))
         else get_value scan_word [] old (i\<lparr>is_text := c # cs\<rparr>))"

definition put_EFormat :: "EFormat \<Rightarrow> string" where
  "put_EFormat fmt = show_int (precision fmt) @ '' '' @ show_int (flags fmt) @ '' '' @
    put_quoted (coeffSeparator fmt) @ '' '' @ put_quoted (rowSeparator fmt) @ '' '' @
    put_quoted (rowPrefix fmt) @ '' '' @ put_quoted (rowSuffix fmt) @ '' '' @
    put_quoted (matPrefix fmt) @ '' '' @ put_quoted (matSuffix fmt) @ '' '' @ put_quoted [fill fmt]"

text \<open>\<open>fmt\<close> is the variable's value before; it is kept when the fill text is not one character.\<close>

definition get_EFormat :: "EFormat \<Rightarrow> istream \<Rightarrow> EFormat \<times> istream" where
  "get_EFormat fmt i =
    (let (prec, i) = get_value scan_int 0 0 i;
         (fl, i) = get_value scan_int 0 0 i;
         (cs, i) = get_quoted [] i;
         (rs, i) = get_quoted [] i;
         (rp, i) = get_quoted [] i;
         (rsf, i) = get_quoted [] i;
         (mp, i) = get_quoted [] i;
         (msf, i) = get_quoted [] i;
         (fill_str, i) = get_quoted [] i
     in if length fill_str \<noteq> 1 then (fmt, setfail i)
        else (\<lparr>precision = prec, flags = fl, coeffSeparator = cs, rowSeparator = rs, rowPrefix = rp, rowSuffix = rsf,
               matPrefix = mp, matSuffix = msf, fill = fill_str ! 0\<rparr>, i))"

definition EFormat_eq :: "EFormat \<Rightarrow> EFormat \<Rightarrow> bool" where
  "EFormat_eq lhs rhs \<longleftrightarrow> precision lhs = precision rhs \<and> flags lhs = flags rhs \<and>
     coeffSeparator lhs = coeffSeparator rhs \<and> rowSeparator lhs = rowSeparator rhs \<and>
     rowPrefix lhs = rowPrefix rhs \<and> rowSuffix lhs = rowSuffix rhs \<and>
     matPrefix lhs = matPrefix rhs \<and> matSuffix lhs = matSuffix rhs \<and> fill lhs = fill rhs"

section \<open>Tuples and guards\<close>

text \<open>The elements of the tuple as the stream prints them.\<close>

definition TupleToString :: "string list \<Rightarrow> string \<Rightarrow> string \<Rightarrow> string \<Rightarrow> string" where
  "TupleToString tp delim left right = left @ join delim tp @ right"

record ostream =
  os_flags :: nat
  os_precision :: int

definition kDefaultPrec :: nat where
  "kDefaultPrec = 15"

text \<open>The guards: what a constructor saves and does, and what its destructor restores.\<close>

definition IosStatePreserve :: "ostream \<Rightarrow> nat" where
  "IosStatePreserve out = os_flags out"

definition destroy_Preserve :: "nat \<Rightarrow> ostream \<Rightarrow> ostream" where
  "destroy_Preserve saved out = out\<lparr>os_flags := saved\<rparr>"

text \<open>\<open>scientific\<close> is the effect of \<open>std::fixed << std::scientific\<close> on the flags; when the
constructor throws, the base class is destroyed.\<close>

definition IosStateScientific :: "(nat \<Rightarrow> nat) \<Rightarrow> nat \<Rightarrow> (ostream, fault, nat \<times> int) action" where
  "IosStateScientific scientific prec = (\<lambda>out.
    let saved = IosStatePreserve out; old_precision = os_precision out
    in if 10 * kDefaultPrec < prec
       then (Inl (Thrown (outOfRange (int prec) 0 (10 * int kDefaultPrec))), destroy_Preserve saved out)
       else (Inr (saved, old_precision),
             out\<lparr>os_precision := int prec, os_flags := scientific (os_flags out)\<rparr>))"

definition destroy_Scientific :: "nat \<times> int \<Rightarrow> ostream \<Rightarrow> ostream" where
  "destroy_Scientific saved out = out\<lparr>os_flags := fst saved, os_precision := snd saved\<rparr>"

section \<open>Facts\<close>

lemma good_fields [simp]:
  "good (i\<lparr>is_text := t\<rparr>) = good i" "\<not> good (setfail i)" "\<not> good (i\<lparr>is_fail := True\<rparr>)"
  by (simp_all add: good_def setfail_def)

lemma good_new [simp]: "good (istringstream s)" "is_text (istringstream s) = s"
  by (simp_all add: good_def istringstream_def)

lemma good_record: "good i \<Longrightarrow> i\<lparr>is_text := is_text i\<rparr> = i"
  by simp

text \<open>An extraction of a value that is followed by more text.\<close>

lemma get_value_word [stream_simps]:
  assumes "good i" and "is_text i = w @ t" and "\<forall>c\<in>set w. isspace c" and "starts_word t"
    and "rd t = Some (x, r)" and "r \<noteq> []"
  shows "get_value rd zero old i = (x, i\<lparr>is_text := r\<rparr>)"
proof -
  have ws: "skip_ws (w @ t) = t"
    using assms(3,4) by (simp add: skip_ws_def starts_word_def dropWhile_append1 dropWhile_append2 split: list.splits)
  have "t \<noteq> []" using assms(4) by (auto simp: starts_word_def)
  with ws assms show ?thesis by (simp add: get_value_def good_def)
qed

lemma expect_prefix [stream_simps]:
  assumes "good i" and "is_text i = ks @ r"
  shows "expect ks i = i\<lparr>is_text := r\<rparr>"
  using assms
proof (induction ks arbitrary: i)
  case (Cons k ks)
  from Cons.IH [of "i\<lparr>is_text := ks @ r\<rparr>"] Cons.prems show ?case by (simp add: get_char_def)
qed simp

lemma expect_mismatch:
  assumes "good i" and "is_text i = c # r" and "c \<noteq> k"
  shows "is_fail (expect (k # ks) i)"
  using assms by (simp add: get_char_def setfail_def)

lemma expect_failed: "is_fail i \<Longrightarrow> is_fail (expect ks i)"
  by (cases ks) (simp_all add: get_char_def good_def setfail_def)

lemma expect_text: "is_fail i \<Longrightarrow> is_text (expect ks i) = is_text i"
  by (cases ks) (simp_all add: get_char_def good_def setfail_def)

lemma Delimiter_failed: "is_fail i \<Longrightarrow> is_fail (get_Delimiter d i)"
  by (simp add: get_Delimiter_def expect_failed)

lemma get_value_failed: "is_fail i \<Longrightarrow> get_value rd zero old i = (old, i)"
  by (simp add: get_value_def good_def setfail_def)

lemma read_put_quoted:
  "read_escaped (concat (map (\<lambda>c. if c = quote \<or> c = backslash then [backslash, c] else [c]) s) @ quote # r) = (s, Some r)"
  by (induction s) (auto simp: quote_def backslash_def)

lemma get_put_quoted [stream_simps]:
  assumes "good i" and "is_text i = w @ put_quoted s @ r" and "\<forall>c\<in>set w. isspace c"
  shows "get_quoted old i = (s, i\<lparr>is_text := r\<rparr>)"
proof -
  have q: "\<not> isspace quote" by (simp add: isspace_def quote_def)
  have "skip_ws (w @ put_quoted s @ r) = put_quoted s @ r"
    using assms(3) q by (simp add: skip_ws_def put_quoted_def)
  with assms show ?thesis
    by (simp add: get_quoted_def put_quoted_def read_put_quoted [of s r, simplified])
qed

lemma show_int_head:
  "starts_word (show_int i @ r)" "show_int i \<noteq> []"
proof -
  obtain c cs where c: "show_int i = c # cs" "c = CHR ''-'' \<or> is_digit c"
  proof (cases "i < 0")
    case False
    obtain d ds where d: "show_nat (nat i) = d # ds" using show_nat_nonempty by (cases "show_nat (nat i)") auto
    with show_nat_digits [of d "nat i"] False show ?thesis by (intro that [of d ds]) (simp_all add: show_int_def)
  qed (simp add: show_int_def)
  from c digit_not_space [of c] show "starts_word (show_int i @ r)" and "show_int i \<noteq> []"
    by (auto simp: starts_word_def isspace_def)
qed

lemma scan_show_int:
  assumes "in_int i" and "r = [] \<or> \<not> is_digit (hd r)"
  shows "scan_int (show_int i @ r) = Some (i, r)"
proof (cases "i < 0")
  case True
  have "scan_unsigned (show_nat (nat (- i)) @ r) = Some (nat (- i), r)"
    using takeWhile_all_append [of "show_nat (nat (- i))" is_digit r] assms(2) show_nat_digits by (simp add: Let_def)
  with True assms(1) show ?thesis
    by (simp add: scan_int_def scan_decimal_def show_int_def skip_ws_def isspace_def)
next
  case False
  have "scan_decimal (show_nat (nat i) @ r) = Some (int (nat i), r)"
    using scan_decimal_digits [OF show_nat_nonempty _ assms(2), of "nat i"] show_nat_digits by simp
  with False assms(1) show ?thesis by (simp add: scan_int_def show_int_def)
qed

lemma scan_show_size:
  assumes "n < 2 ^ 64" and "r = [] \<or> \<not> is_digit (hd r)"
  shows "scan_size (show_nat n @ r) = Some (of_nat n, r)"
proof -
  have "scan_decimal (show_nat n @ r) = Some (int n, r)"
    using scan_decimal_digits [OF show_nat_nonempty _ assms(2), of n] show_nat_digits by simp
  moreover have "\<bar>int n\<bar> < 2 ^ 64" using assms(1) by simp
  ultimately show ?thesis by (simp only: scan_size_def option.case prod.case if_True of_int_of_nat_eq)
qed

lemma quoted_next [simp]:
  assumes "good i"
  shows "get_quoted old (i\<lparr>is_text := CHR '' '' # put_quoted s @ r\<rparr>) = (s, i\<lparr>is_text := r\<rparr>)"
    and "get_quoted old (i\<lparr>is_text := CHR '' '' # put_quoted s\<rparr>) = (s, i\<lparr>is_text := []\<rparr>)"
  using get_put_quoted [of "i\<lparr>is_text := '' '' @ put_quoted s @ r\<rparr>" "'' ''" s r old]
    get_put_quoted [of "i\<lparr>is_text := '' '' @ put_quoted s\<rparr>" "'' ''" s "[]" old] assms
  by (simp_all add: isspace_def)

lemma int_next:
  assumes "good i" and "in_int n"
  shows "get_value scan_int 0 0 (i\<lparr>is_text := CHR '' '' # show_int n @ CHR '' '' # r\<rparr>) = (n, i\<lparr>is_text := CHR '' '' # r\<rparr>)"
    and "get_value scan_int 0 0 (i\<lparr>is_text := show_int n @ CHR '' '' # r\<rparr>) = (n, i\<lparr>is_text := CHR '' '' # r\<rparr>)"
proof -
  have sc: "scan_int (show_int n @ CHR '' '' # r) = Some (n, CHR '' '' # r)"
    by (rule scan_show_int) (simp_all add: assms(2) is_digit_def)
  from get_value_word [of "i\<lparr>is_text := CHR '' '' # show_int n @ CHR '' '' # r\<rparr>" "'' ''" "show_int n @ CHR '' '' # r" scan_int, OF _ _ _ show_int_head(1) sc] assms(1)
  show "get_value scan_int 0 0 (i\<lparr>is_text := CHR '' '' # show_int n @ CHR '' '' # r\<rparr>) = (n, i\<lparr>is_text := CHR '' '' # r\<rparr>)"
    by (simp add: isspace_def)
  from get_value_word [of "i\<lparr>is_text := show_int n @ CHR '' '' # r\<rparr>" "[]" "show_int n @ CHR '' '' # r" scan_int, OF _ _ _ show_int_head(1) sc] assms(1)
  show "get_value scan_int 0 0 (i\<lparr>is_text := show_int n @ CHR '' '' # r\<rparr>) = (n, i\<lparr>is_text := CHR '' '' # r\<rparr>)"
    by simp
qed

lemma get_put_EFormat:
  assumes "good i" and "in_int (precision f)" and "in_int (flags f)" and "is_text i = put_EFormat f @ r"
  shows "get_EFormat old i = (f, i\<lparr>is_text := r\<rparr>)"
proof -
  have i: "i = i\<lparr>is_text := put_EFormat f @ r\<rparr>" using assms(4) by (metis good_record assms(1))
  have "get_EFormat old (i\<lparr>is_text := put_EFormat f @ r\<rparr>) = (f, i\<lparr>is_text := r\<rparr>)"
    using assms(1-3) by (simp add: get_EFormat_def put_EFormat_def int_next)
  with i show ?thesis by simp
qed

text \<open>Both ways from a format's name to its format agree, and both always succeed.\<close>

lemma EIGENF_eq: "EIGENF E form = Inr (kEnumTo E ! format_index form)" "PrintEnumToFormat E form = EIGENF E form"
proof -
  have d: "distinct (map fst (kEfEnToEigenFormatMappings E))" by (simp add: kEfEnToEigenFormatMappings_def)
  show "EIGENF E form = Inr (kEnumTo E ! format_index form)"
    unfolding EIGENF_def kEnumToEigenFormatMap_def CreateEnumToTypeMap_eq [OF d]
    by (cases form) (simp_all add: kEfEnToEigenFormatMappings_def)
  moreover have "format_index form < length (kEnumTo E)" by (cases form) (simp_all add: kEnumTo_def)
  ultimately show "PrintEnumToFormat E form = EIGENF E form" by (simp add: PrintEnumToFormat_def)
qed

section \<open>Properties\<close>

text \<open>A format printed to a stream is read back exactly, whatever quotes, backslashes or control
characters its separators contain, and the reader stops right behind it.\<close>

theorem format_round_trip:
  assumes "in_int (precision f)" and "in_int (flags f)"
  shows "get_EFormat old (istringstream (put_EFormat f @ r)) = (f, istringstream r) \<and>
    EFormat_eq (fst (get_EFormat old (istringstream (put_EFormat f @ r)))) f"
proof -
  have "get_EFormat old (istringstream (put_EFormat f @ r)) = (f, istringstream r)"
    by (subst get_put_EFormat [OF _ assms]) (simp_all add: istringstream_def good_def)
  then show ?thesis by (simp add: EFormat_eq_def)
qed

theorem format_round_trip_witness:
  "get_EFormat undefined (istringstream (put_EFormat (plain_format \<lparr>StreamPrecision = - 1, DontAlignCols = 1\<rparr>
     [quote] [backslash] ''['' '']'' newline) @ ''x'')) =
   (plain_format \<lparr>StreamPrecision = - 1, DontAlignCols = 1\<rparr> [quote] [backslash] ''['' '']'' newline, istringstream ''x'')"
  by (rule format_round_trip [THEN conjunct1]) (simp_all add: plain_format_def in_int_def)

text \<open>A guard that was constructed restores flags and precision whatever happened to the stream
in between, and one that refuses its precision leaves the stream as it was.\<close>

theorem guard_restores:
  "(IosStateScientific sc prec out = (Inr saved, out') \<longrightarrow>
      destroy_Scientific saved (out'\<lparr>os_flags := f, os_precision := p\<rparr>) = out) \<and>
   (IosStateScientific sc prec out = (Inl e, out') \<longrightarrow> out' = out \<and> 150 < prec)"
  by (auto simp: IosStateScientific_def Let_def destroy_Scientific_def destroy_Preserve_def IosStatePreserve_def
      kDefaultPrec_def split: if_splits)

theorem guard_restores_witness:
  "IosStateScientific (\<lambda>f. f) 151 \<lparr>os_flags = 3, os_precision = 6\<rparr> =
     (Inl (Thrown (outOfRange 151 0 150)), \<lparr>os_flags = 3, os_precision = 6\<rparr>) \<and> (150 :: nat) < 151"
proof -
  let ?out = "\<lparr>os_flags = 3, os_precision = 6\<rparr>"
  have run: "IosStateScientific (\<lambda>f. f) 151 ?out = (Inl (Thrown (outOfRange 151 0 150)), ?out)"
    by (simp add: IosStateScientific_def Let_def destroy_Preserve_def IosStatePreserve_def kDefaultPrec_def)
  from guard_restores [THEN conjunct2, THEN mp, OF run] run show ?thesis by simp
qed

end
