(* ===== verification/PrintParse.thy ===== *)
theory PrintParse
  imports PrintUtils JsonContainers Mesh
begin

text \<open>
  \<open>Printers.h/.cpp\<close> and \<open>Parsers.h/.cpp\<close>: vectors, matrices, solutions, coordinates and
  meshes as text and as JSON, and their parsers.  Parameters are the text \<open>show\<close> a stream
  prints for a number at its current precision, the reader \<open>rd\<close> of a number, and Eigen's
  \<open>format\<close> (\<open>efmt\<close>, on the texts of the coefficients); the predicate \<open>exact\<close> says that a
  number survives \<open>show\<close> and \<open>rd\<close>, as integers do and doubles only at full precision.
\<close>

section \<open>Printers\<close>

type_synonym eigen_printer = "EFormat \<Rightarrow> string list list \<Rightarrow> string"

definition OneDimSerialize :: "('a \<Rightarrow> string) \<Rightarrow> eigen_printer \<Rightarrow> 'a list \<Rightarrow> bool \<Rightarrow> EFormat \<Rightarrow> fault + string" where
  "OneDimSerialize show efmt col print_size eigen_form =
    rbind (ToEigenRowVector col) (\<lambda>m. Inr
      ((if print_size then show_nat (length col) @ newline else []) @ efmt eigen_form (map (map show) m)))"

definition OneDimToString :: "('a \<Rightarrow> string) \<Rightarrow> eigen_printer \<Rightarrow> 'a list \<Rightarrow> bool \<Rightarrow> EFormat \<Rightarrow> fault + string" where
  "OneDimToString show efmt col print_size eigen_form = OneDimSerialize show efmt col print_size eigen_form"

text \<open>\<open>matr.data()\<close> is the matrix column by column.\<close>

definition col_major :: "'a list list \<Rightarrow> 'a list" where
  "col_major A = concat (map (\<lambda>j. map (\<lambda>row. row ! j) A) [0..<mat_cols A])"

definition MatrixPrint1D :: "('a \<Rightarrow> string) \<Rightarrow> eigen_printer \<Rightarrow> 'a list list \<Rightarrow> bool \<Rightarrow> EFormat \<Rightarrow> string" where
  "MatrixPrint1D show efmt matr print_size eigen_form =
    (if print_size then show_nat (length matr * mat_cols matr) @ newline else []) @
    efmt eigen_form [map show (col_major matr)]"

definition MatrixPrint2D :: "('a \<Rightarrow> string) \<Rightarrow> eigen_printer \<Rightarrow> 'a list list \<Rightarrow> bool \<Rightarrow> EFormat \<Rightarrow> string" where
  "MatrixPrint2D show efmt matr print_dims eigen_form =
    (if print_dims then show_nat (length matr) @ tab @ show_nat (mat_cols matr) @ newline else []) @
    efmt eigen_form (map (map show) matr)"

definition solution_header :: string where
  "solution_header = map char_of [208, 160, 208, 181, 209, 136, 208, 181, 208, 189, 208, 184, 208, 181, 32, 209, 129,
     208, 184, 209, 129, 209, 130, 208, 181, 208, 188, 209, 139, 32, 208, 180, 208, 184, 208, 191, 208, 190, 208, 187,
     208, 181, 208, 185 :: nat]"

definition solution_columns :: string where
  "solution_columns = (let xy = ''(x'' @ [backslash] @ ''ny)'' in '' Ai'' @ xy @ tab @ ''Bi'' @ xy @ tab @ ''Ci'' @ xy)"

text \<open>A size that is no multiple of four is rounded down.\<close>

definition PrintSolutionFormat1 :: "(real \<Rightarrow> string) \<Rightarrow> real list \<Rightarrow> string" where
  "PrintSolutionFormat1 show sol =
    (let n = length sol div 4;
         line = (\<lambda>k. show (sol ! k) @ tab @ show (sol ! (k + 2 * n)) @ tab @
                     show (sqrt (sol ! k * sol ! k + sol ! (k + 2 * n) * sol ! (k + 2 * n))) @ newline)
     in show_nat n @ newline @ solution_header @ newline @ solution_columns @ newline @
        concat (map (\<lambda>i. line (2 * i) @ line (2 * i + 1)) [0..<n]))"

definition coordinates_header :: string where
  "coordinates_header = map char_of [208, 154, 208, 190, 208, 190, 209, 128, 208, 180, 208, 184, 208, 189, 208, 176,
     209, 130, 209, 139, 32, 208, 180, 208, 184, 208, 191, 208, 190, 208, 187, 208, 181, 208, 185 :: nat]"

definition PrintCoordinates2 :: "('a \<Rightarrow> string) \<Rightarrow> 'a list \<Rightarrow> string" where
  "PrintCoordinates2 show col =
    (let n = length col div 2
     in coordinates_header @ newline @ show_nat n @ newline @
        concat (map (\<lambda>i. show (col ! i) @ tab @ show (col ! (i + n)) @ newline) [0..<n]))"

text \<open>\<open>show\<close> prints in the stream's format, \<open>show_sci\<close> under the guard that sets scientific
notation.\<close>

definition PrintSolution ::
    "(real \<Rightarrow> string) \<Rightarrow> (real \<Rightarrow> string) \<Rightarrow> eigen_printer \<Rightarrow> real list \<Rightarrow> IoFormat \<Rightarrow> bool \<Rightarrow> EFormat \<Rightarrow> fault + string" where
  "PrintSolution show show_sci efmt sol format print_size eigen_form =
    (case format of
       SERIALIZABLE \<Rightarrow> OneDimSerialize show efmt sol print_size eigen_form
     | HUMAN_READABLE \<Rightarrow> Inr (PrintSolutionFormat1 show_sci sol))"

definition PrintCoordinates ::
    "('a \<Rightarrow> string) \<Rightarrow> ('a \<Rightarrow> string) \<Rightarrow> eigen_printer \<Rightarrow> 'a list \<Rightarrow> IoFormat \<Rightarrow> bool \<Rightarrow> EFormat \<Rightarrow> fault + string" where
  "PrintCoordinates show show_sci efmt coord format print_size eigen_form =
    (case format of
       SERIALIZABLE \<Rightarrow> OneDimSerialize show efmt coord print_size eigen_form
     | HUMAN_READABLE \<Rightarrow> Inr (PrintCoordinates2 show_sci coord))"

definition PrintMesh ::
    "(real \<Rightarrow> string) \<Rightarrow> eigen_printer \<Rightarrow> MeshCreator \<Rightarrow> IoFormat \<Rightarrow> bool \<Rightarrow> bool \<Rightarrow> EFormat \<Rightarrow> fault + string" where
  "PrintMesh show_sci efmt mesh form print_dims print_lims eigen_form =
    (case form of
       SERIALIZABLE \<Rightarrow>
         rbind (ToEigenRowVector (last (data mesh))) (\<lambda>mm. Inr
           ((if print_dims then show_nat (fst (dimensions mesh)) @ tab @ show_nat (snd (dimensions mesh)) @ newline else []) @
            (if print_lims then show_sci (limits mesh ! 0) @ tab @ show_sci (limits mesh ! 1) @ newline @
                               show_sci (limits mesh ! 2) @ tab @ show_sci (limits mesh ! 3) @ newline else []) @
            efmt eigen_form (map (map show_sci) mm)))
     | HUMAN_READABLE \<Rightarrow> PrintDec show_sci mesh)"

definition MeshToJson :: "('j, real) jsoncpp \<Rightarrow> MeshCreator \<Rightarrow> bool \<Rightarrow> bool \<Rightarrow> 'j" where
  "MeshToJson J mesh print_dims print_lims =
    (let res = ContinuousToJson J (j_ofDouble J) (data mesh ! 2) False False;
         res = (if print_dims
                then j_set J res ''dimensions'' (fill_array J (\<lambda>n. j_ofUInt64 J (of_nat n))
                       [fst (dimensions mesh), snd (dimensions mesh)] (j_null J)) else res)
     in if print_lims \<and> limits mesh \<noteq> [] then j_set J res ''limits'' (fill_array J (j_ofDouble J) (limits mesh) (j_null J)) else res)"

definition SerializeException :: "('j, 'f) jsoncpp \<Rightarrow> my_exception \<Rightarrow> Severity \<Rightarrow> fault + 'j" where
  "SerializeException J ex sev = rbind (exc_what ex) (\<lambda>w. Inr (j_sets J (j_null J)
     [(''message'', j_ofString J w), (''severity'', j_ofString J (kSevToStr ! sev_index sev))]))"

section \<open>Parsers\<close>

fun read_elems :: "(string \<Rightarrow> ('a \<times> string) option) \<Rightarrow> 'a \<Rightarrow> nat \<Rightarrow> string \<Rightarrow> istream \<Rightarrow> 'a list \<times> istream" where
  "read_elems rd zero 0 sep i = ([], i)"
| "read_elems rd zero (Suc n) sep i =
    (let (x, i) = get_value rd zero zero i;
         i = (if n \<noteq> 0 then snd (ParseDelim sep i) else i);
         (xs, i) = read_elems rd zero n sep i
     in (x # xs, i))"

definition io_error :: "istream \<Rightarrow> fault" where
  "io_error i = Thrown (ioError (show_nat (rdstate i)))"

definition check_stream :: "(istream, fault, unit) action" where
  "check_stream = (\<lambda>i. if is_fail i then (Inl (io_error i), i) else (Inr (), i))"

text \<open>The result of a delimiter is not looked at.\<close>

definition ParseOneDim ::
    "(string \<Rightarrow> ('a \<times> string) option) \<Rightarrow> 'a \<Rightarrow> u64 option \<Rightarrow> EFormat \<Rightarrow> (istream, fault, 'a list) action" where
  "ParseOneDim rd zero size_opt ef = (\<lambda>i.
    let (size, i) = (case size_opt of Some n \<Rightarrow> (n, i) | None \<Rightarrow> get_value scan_size 0 0 i)
    in sbind check_stream (\<lambda>_ i.
         let i = snd (ParseDelim (rowPrefix ef) i);
             (res, i) = read_elems rd zero (unat size) (coeffSeparator ef) i
         in (Inr res, snd (ParseDelim (rowSuffix ef) i))) i)"

text \<open>The view is read up to the first NUL.\<close>

definition ParseOneDimS ::
    "(string \<Rightarrow> ('a \<times> string) option) \<Rightarrow> 'a \<Rightarrow> string \<Rightarrow> u64 option \<Rightarrow> EFormat \<Rightarrow> fault + 'a list" where
  "ParseOneDimS rd zero str size_opt ef =
    fst (ParseOneDim rd zero size_opt ef (istringstream (takeWhile (\<lambda>c. c \<noteq> char_of (0 :: nat)) str)))"

text \<open>
  Runs of numbers without delimiters, into elements that hold a zero or into variables without a
  value: reading such a variable after the sentry refused is undefined.
\<close>

fun read_values :: "(string \<Rightarrow> ('a \<times> string) option) \<Rightarrow> 'a \<Rightarrow> nat \<Rightarrow> istream \<Rightarrow> 'a list \<times> istream" where
  "read_values rd zero 0 i = ([], i)"
| "read_values rd zero (Suc n) i =
    (let (x, i) = get_value rd zero zero i; (xs, i) = read_values rd zero n i in (x # xs, i))"

definition get_fresh :: "(string \<Rightarrow> ('a \<times> string) option) \<Rightarrow> 'a \<Rightarrow> (istream, fault, 'a) action" where
  "get_fresh rd zero = (\<lambda>i.
    if \<not> good i \<or> skip_ws (is_text i) = [] then (Inl (UB ''uninitialized variable''), i)
    else apfst Inr (get_value rd zero zero i))"

fun read_fresh :: "(string \<Rightarrow> ('a \<times> string) option) \<Rightarrow> 'a \<Rightarrow> nat \<Rightarrow> (istream, fault, 'a list) action" where
  "read_fresh rd zero 0 = sret []"
| "read_fresh rd zero (Suc n) = sbind (get_fresh rd zero) (\<lambda>x. sbind (read_fresh rd zero n) (\<lambda>xs. sret (x # xs)))"

fun cut_rows :: "nat \<Rightarrow> nat \<Rightarrow> 'a list \<Rightarrow> 'a list list" where
  "cut_rows 0 c xs = []"
| "cut_rows (Suc r) c xs = take c xs # cut_rows r c (drop c xs)"

definition ParseMatrix ::
    "(string \<Rightarrow> ('a \<times> string) option) \<Rightarrow> 'a \<Rightarrow> (u64 \<times> u64) option \<Rightarrow> EFormat \<Rightarrow> (istream, fault, 'a list list) action" where
  "ParseMatrix rd zero dim_opt ef = (\<lambda>i.
    let ((rows, cols), i) = (case dim_opt of Some d \<Rightarrow> (d, i)
          | None \<Rightarrow> let (r, i) = get_value scan_size 0 0 i; (c, i) = get_value scan_size 0 0 i in ((r, c), i))
    in sbind check_stream (\<lambda>_. sbind (read_fresh rd zero (unat rows * unat cols))
         (\<lambda>xs. sret (cut_rows (unat rows) (unat cols) xs))) i)"

text \<open>The human-readable forms: \<open>vals\<close> are the numbers of the table, line by line.\<close>

definition solution_of_table :: "nat \<Rightarrow> real list \<Rightarrow> real list" where
  "solution_of_table n vals = map (\<lambda>k. if k < 2 * n then vals ! (3 * k) else vals ! (3 * (k - 2 * n) + 1)) [0..<4 * n]"

definition ParseSolution ::
    "(string \<Rightarrow> (real \<times> string) option) \<Rightarrow> IoFormat \<Rightarrow> u64 option \<Rightarrow> EFormat \<Rightarrow> (istream, fault, real list) action" where
  "ParseSolution rd format size_opt ef =
    (case format of
       SERIALIZABLE \<Rightarrow> ParseOneDim rd 0 size_opt ef
     | HUMAN_READABLE \<Rightarrow> (\<lambda>i.
         let (n, i) = get_value scan_size 0 0 i; i = getline (getline (getline i))
         in sbind check_stream (\<lambda>_. sbind (read_fresh rd 0 (6 * unat n))
              (\<lambda>vals. sret (solution_of_table (unat n) vals))) i))"

definition coords_of_table :: "nat \<Rightarrow> 'a list \<Rightarrow> 'a list" where
  "coords_of_table n vals = map (\<lambda>k. if k < n then vals ! (2 * k) else vals ! (2 * (k - n) + 1)) [0..<2 * n]"

definition ParseCoordinates ::
    "(string \<Rightarrow> ('a \<times> string) option) \<Rightarrow> 'a \<Rightarrow> IoFormat \<Rightarrow> u64 option \<Rightarrow> EFormat \<Rightarrow> (istream, fault, 'a list) action" where
  "ParseCoordinates rd zero format size_opt ef =
    (case format of
       SERIALIZABLE \<Rightarrow> ParseOneDim rd zero size_opt ef
     | HUMAN_READABLE \<Rightarrow> (\<lambda>i.
         let i = getline i; (n, i) = get_value scan_size 0 0 i
         in sbind check_stream (\<lambda>_ i. let (vals, i) = read_values rd zero (2 * unat n) i
              in (Inr (coords_of_table (unat n) vals), i)) i))"

text \<open>The matrix is assigned element by element in row order.\<close>

definition mesh_sizes :: "(istream, fault, u64 \<times> u64) action" where
  "mesh_sizes = (\<lambda>i.
    let (d0, i) = get_value scan_size 0 0 i; (d1, i) = get_value scan_size 0 0 i
    in sbind check_stream (\<lambda>_. sret (d0, d1)) i)"

definition mesh_limits :: "(string \<Rightarrow> (real \<times> string) option) \<Rightarrow> (istream, fault, real list) action" where
  "mesh_limits rd = (\<lambda>i. let (ls, i) = read_values rd 0 4 i in sbind check_stream (\<lambda>_. sret ls) i)"

text \<open>One line of the human-readable table: the angle phi, then one value per theta.\<close>

definition table_line :: "(string \<Rightarrow> (real \<times> string) option) \<Rightarrow> nat \<Rightarrow> (istream, fault, real \<times> real list) action" where
  "table_line rd ext0 = (\<lambda>i. let (temp, i) = get_value rd 0 0 i
    in sbind (read_fresh rd 0 ext0) (\<lambda>vals. sret (temp, vals)) i)"

definition construct_mesh :: "nat \<times> nat \<Rightarrow> real list \<Rightarrow> mesh_storage \<Rightarrow> fault + MeshCreator" where
  "construct_mesh dims lims m =
    (case ConstructMeshes dims lims (new_MeshCreator True) of
       (Inl e, _) \<Rightarrow> Inl e
     | (Inr _, mm) \<Rightarrow> (case ConstructMeshes dims lims (mm\<lparr>data := (data mm)[2 := m]\<rparr>) of
           (Inl e, _) \<Rightarrow> Inl e | (Inr _, mm) \<Rightarrow> Inr mm))"

text \<open>
  The loop over the thetas between the first and the last counts an \<open>int\<close> up to \<open>ext0 - 2\<close> in
  64-bit arithmetic; its values are not used.
\<close>

definition ParseMesh_human :: "(string \<Rightarrow> (real \<times> string) option) \<Rightarrow> (istream, fault, MeshCreator) action" where
  "ParseMesh_human rd = sbind mesh_sizes (\<lambda>(d0, d1) i.
    let i = getline (getline i);
        (dummy, i) = get_value scan_word [] [] i;
        (l0, i) = get_value rd 0 0 i
    in if \<not> uint (d0 - 2) < 2 ^ 31 then (Inl (UB ''signed integer overflow''), i)
       else let (_, i) = read_values rd 0 (unat (d0 - 2)) i;
                (l1, i) = get_value rd 0 0 i
         in sbind (smap (\<lambda>_. table_line rd (unat d0)) [0..<unat d1]) (\<lambda>lines.
              slift (construct_mesh (unat d0, unat d1)
                [l0, l1, if lines = [] then 0 else fst (hd lines), if lines = [] then 0 else fst (last lines)]
                (map (\<lambda>k. snd (lines ! (k mod unat d1)) ! (k div unat d1)) [0..<unat d0 * unat d1]))) i)"

text \<open>The values are read with the default format whatever format is given.\<close>

definition ParseMesh_serial ::
    "(string \<Rightarrow> (real \<times> string) option) \<Rightarrow> EFormat \<Rightarrow> (u64 \<times> u64) option \<Rightarrow> real list option \<Rightarrow>
     (istream, fault, MeshCreator) action" where
  "ParseMesh_serial rd default_format dim_opt lim_opt =
    sbind (case dim_opt of Some d \<Rightarrow> sret d | None \<Rightarrow> mesh_sizes) (\<lambda>(d0, d1).
    sbind (case lim_opt of Some l \<Rightarrow> sret l | None \<Rightarrow> mesh_limits rd) (\<lambda>lims.
    sbind (ParseOneDim rd 0 (Some (d0 * d1)) default_format) (\<lambda>m.
      slift (case ConstructMeshes (unat d0, unat d1) lims ((new_MeshCreator True)\<lparr>data := (data (new_MeshCreator True))[2 := m]\<rparr>) of
         (Inl e, _) \<Rightarrow> Inl e | (Inr _, mm) \<Rightarrow> Inr mm))))"

definition ParseMeshFrom ::
    "(string \<Rightarrow> (real \<times> string) option) \<Rightarrow> EFormat \<Rightarrow> IoFormat \<Rightarrow> (u64 \<times> u64) option \<Rightarrow> real list option \<Rightarrow> EFormat \<Rightarrow>
     (istream, fault, MeshCreator) action" where
  "ParseMeshFrom rd default_format format dim_opt lim_opt ef =
    (case format of SERIALIZABLE \<Rightarrow> ParseMesh_serial rd default_format dim_opt lim_opt | HUMAN_READABLE \<Rightarrow> ParseMesh_human rd)"

definition json_elem :: "('j, 'f) jsoncpp \<Rightarrow> ('j \<Rightarrow> 'a option) \<Rightarrow> 'j \<Rightarrow> string \<Rightarrow> nat \<Rightarrow> fault + 'a" where
  "json_elem J asT val k i = rbind (get_json J val k) (\<lambda>d. rbind (at_json J d i) (\<lambda>x. of_opt json_error (asT x)))"

definition MeshFromJson ::
    "('j, real) jsoncpp \<Rightarrow> 'j \<Rightarrow> (nat \<times> nat) option \<Rightarrow> real list option \<Rightarrow> fault + MeshCreator" where
  "MeshFromJson J val dim_opt lim_opt =
    rbind (case dim_opt of Some d \<Rightarrow> Inr d | None \<Rightarrow>
      rbind (json_elem J (j_asUInt J) val ''dimensions'' 0) (\<lambda>d0.
      rbind (json_elem J (j_asUInt J) val ''dimensions'' 1) (\<lambda>d1. Inr (unat d0, unat d1)))) (\<lambda>dims.
    rbind (case lim_opt of Some l \<Rightarrow> Inr l | None \<Rightarrow> rmap (json_elem J (j_asDouble J) val ''limits'') [0..<4]) (\<lambda>lims.
    (case ConstructMeshes dims lims (new_MeshCreator True) of
       (Inl e, _) \<Rightarrow> Inl e
     | (Inr _, mm) \<Rightarrow>
         rbind (JsonToContinuous J (j_asDouble J) val (Some (of_nat (fst dims * snd dims))) False)
           (\<lambda>m. Inr (mm\<lparr>data := (data mm)[2 := m]\<rparr>)))))"

section \<open>Eigen's printer and exact numbers\<close>

text \<open>The documented output of \<open>IOFormat\<close> without alignment of the columns.\<close>

locale eigen_io =
  fixes E :: eigen_constants and efmt :: eigen_printer
  assumes format_plain: "flags f = DontAlignCols E \<Longrightarrow> rows \<noteq> [] \<Longrightarrow> \<forall>r\<in>set rows. r \<noteq> [] \<Longrightarrow>
    efmt f rows = matPrefix f @ join (rowSeparator f) (map (\<lambda>r. rowPrefix f @ join (coeffSeparator f) r @ rowSuffix f) rows) @ matSuffix f"

definition eigen_model :: eigen_printer where
  "eigen_model f rows = matPrefix f @ join (rowSeparator f)
    (map (\<lambda>r. rowPrefix f @ join (coeffSeparator f) r @ rowSuffix f) rows) @ matSuffix f"

interpretation eigen_model: eigen_io "\<lparr>StreamPrecision = - 1, DontAlignCols = 1\<rparr>" eigen_model
  by unfold_locales (simp add: eigen_model_def)

definition is_sep :: "char \<Rightarrow> bool" where
  "is_sep c \<longleftrightarrow> isspace c \<or> c \<in> set '',]}''"

definition exact :: "('a \<Rightarrow> string) \<Rightarrow> (string \<Rightarrow> ('a \<times> string) option) \<Rightarrow> 'a \<Rightarrow> bool" where
  "exact show rd x \<longleftrightarrow> starts_word (show x) \<and> (\<forall>r. r = [] \<or> is_sep (hd r) \<longrightarrow> rd (show x @ r) = Some (x, r))"

lemma starts_word_append: "starts_word s \<Longrightarrow> starts_word (s @ t)"
  by (cases s) (simp_all add: starts_word_def)

lemma sep_not_digit: "is_sep c \<Longrightarrow> \<not> is_digit c"
  by (auto simp: is_sep_def digit_not_space dest: digit_not_space) (simp_all add: is_digit_def)

lemma show_nat_starts: "starts_word (show_nat n)"
  using show_int_head(1) [of "int n" "[]"] by (simp add: show_int_def)

lemma exact_u64: "exact (\<lambda>x. show_nat (unat x)) scan_size (x :: u64)"
proof -
  have "unat x < 2 ^ 64" using unsigned_less [of x, where ?'a = nat] by simp
  have "scan_size (show_nat (unat x) @ r) = Some (x, r)" if "r = [] \<or> is_sep (hd r)" for r
    using scan_show_size [OF \<open>unat x < 2 ^ 64\<close>, of r] that sep_not_digit by auto
  then show ?thesis by (simp add: exact_def show_nat_starts)
qed

section \<open>Reading back vectors\<close>

lemma get_exact [stream_simps]:
  assumes "good i" and "is_text i = w @ show x @ r" and "\<forall>c\<in>set w. isspace c"
    and "exact show rd x" and "r = [] \<or> is_sep (hd r)"
  shows "get_value rd zero old i = (x, i\<lparr>is_text := r, is_eof := (r = [])\<rparr>)"
proof -
  have sw: "starts_word (show x @ r)" using assms(4) by (simp add: exact_def starts_word_append)
  then have ws: "skip_ws (w @ show x @ r) = show x @ r"
    using assms(3) skip_ws_word [OF sw] by (simp add: skip_ws_def)
  have "show x \<noteq> []" using assms(4) by (auto simp: exact_def starts_word_def)
  moreover have "rd (show x @ r) = Some (x, r)" using assms(4,5) unfolding exact_def by blast
  ultimately show ?thesis using assms(1,2) ws by (simp add: get_value_def Let_def)
qed

text \<open>A separator ends a number.\<close>

definition sep_ok :: "string \<Rightarrow> bool" where
  "sep_ok sep \<longleftrightarrow> sep \<noteq> [] \<and> is_sep (hd sep)"

lemma read_elems_join:
  assumes "good i" and "is_text i = w @ join sep (map show xs) @ r" and "\<forall>c\<in>set w. isspace c"
    and "\<forall>x\<in>set xs. exact show rd x" and "sep_ok sep" and "r = [] \<or> is_sep (hd r)" and "xs \<noteq> []"
  shows "read_elems rd zero (length xs) sep i = (xs, i\<lparr>is_text := r, is_eof := (r = [])\<rparr>)"
  using assms
proof (induction xs arbitrary: i w)
  case (Cons x xs)
  show ?case
  proof (cases "xs = []")
    case True
    with Cons.prems get_exact [of i w "show" x r rd zero zero] show ?thesis by simp
  next
    case False
    let ?t = "join sep (map show xs) @ r"
    have tx: "is_text i = w @ show x @ sep @ ?t" using Cons.prems(2) False by (cases xs) simp_all
    have "sep @ ?t \<noteq> []" "is_sep (hd (sep @ ?t))" using Cons.prems(5) by (simp_all add: sep_ok_def)
    with get_exact [of i w "show" x "sep @ ?t" rd zero zero, OF Cons.prems(1) tx Cons.prems(3)] Cons.prems(4)
    have x: "get_value rd zero zero i = (x, i\<lparr>is_text := sep @ ?t, is_eof := False\<rparr>)" by simp
    have g: "i\<lparr>is_text := t, is_eof := False\<rparr> = i\<lparr>is_text := t\<rparr>" for t
      using Cons.prems(1) by (simp add: good_def)
    show ?thesis
    proof (cases "isOnlyWhitespace sep")
      case True
      then have ws: "\<forall>c\<in>set sep. isspace c" by (simp add: isOnlyWhitespace_def list_all_iff)
      from Cons.IH [of "i\<lparr>is_text := sep @ ?t\<rparr>" sep] ws False Cons.prems
      have "read_elems rd zero (length xs) sep (i\<lparr>is_text := sep @ ?t\<rparr>) = (xs, i\<lparr>is_text := r, is_eof := (r = [])\<rparr>)" by simp
      with x g True False show ?thesis by (simp add: ParseDelim_def get_Delimiter_def Let_def)
    next
      case ns: False
      have d: "get_Delimiter sep (i\<lparr>is_text := sep @ ?t\<rparr>) = i\<lparr>is_text := ?t\<rparr>"
        using expect_prefix [of "i\<lparr>is_text := sep @ ?t\<rparr>" sep ?t] Cons.prems(1) ns by (simp add: get_Delimiter_def)
      from Cons.IH [of "i\<lparr>is_text := ?t\<rparr>" "[]"] False Cons.prems
      have "read_elems rd zero (length xs) sep (i\<lparr>is_text := ?t\<rparr>) = (xs, i\<lparr>is_text := r, is_eof := (r = [])\<rparr>)" by simp
      with x g d False show ?thesis by (simp add: ParseDelim_def Let_def)
    qed
  qed
qed simp

text \<open>On a failed stream every element is zero.\<close>

lemma read_elems_failed: "is_fail i \<Longrightarrow> fst (read_elems rd zero n sep i) = replicate n zero"
proof (induction n arbitrary: i)
  case (Suc n)
  have "is_fail (if n \<noteq> 0 then snd (ParseDelim sep i) else i)"
    using Suc.prems by (simp add: ParseDelim_def Delimiter_failed Let_def)
  from Suc.IH [OF this] Suc.prems show ?case
    by (simp add: get_value_failed Let_def split_beta)
qed simp

lemma ParseOneDim_text:
  assumes "good i" and "is_text i = w @ rowPrefix f @ join (coeffSeparator f) (map show xs) @ r"
    and "\<forall>c\<in>set w. isspace c" and "w = [] \<or> rowPrefix f = []"
    and "\<forall>x\<in>set xs. exact show rd x" and "sep_ok (coeffSeparator f)" and "r = [] \<or> is_sep (hd r)" and "xs \<noteq> []"
    and n: "unat n = length xs"
  shows "fst (ParseOneDim rd zero (Some n) f i) = Inr xs"
proof -
  let ?t = "join (coeffSeparator f) (map show xs) @ r"
  have fail: "\<not> is_fail i" using assms(1) by (simp add: good_def)
  have "\<exists>w'. snd (ParseDelim (rowPrefix f) i) = i\<lparr>is_text := w' @ ?t\<rparr> \<and> (\<forall>c\<in>set w'. isspace c)"
  proof (cases "isOnlyWhitespace (rowPrefix f)")
    case True
    then have "\<forall>c\<in>set (rowPrefix f). isspace c" by (simp add: isOnlyWhitespace_def list_all_iff)
    with True assms(1-3) show ?thesis
      by (intro exI [of _ "w @ rowPrefix f"]) (auto simp: ParseDelim_def get_Delimiter_def Let_def good_record [symmetric])
  next
    case False
    from assms(4) show ?thesis
    proof
      assume "w = []"
      with False expect_prefix [OF assms(1), of "rowPrefix f" ?t] assms(2) show ?thesis
        by (intro exI [of _ "[]"]) (simp add: ParseDelim_def get_Delimiter_def Let_def)
    next
      assume "rowPrefix f = []"
      with False assms(2,3) show ?thesis
        by (intro exI [of _ w]) (simp add: ParseDelim_def get_Delimiter_def Let_def)
    qed
  qed
  then obtain w' where w': "snd (ParseDelim (rowPrefix f) i) = i\<lparr>is_text := w' @ ?t\<rparr>" "\<forall>c\<in>set w'. isspace c" by blast
  have "read_elems rd zero (length xs) (coeffSeparator f) (i\<lparr>is_text := w' @ ?t\<rparr>) =
      (xs, i\<lparr>is_text := r, is_eof := (r = [])\<rparr>)"
    using read_elems_join [of "i\<lparr>is_text := w' @ ?t\<rparr>" w' "coeffSeparator f" "show" xs r rd zero] w'(2) assms by simp
  with fail n show ?thesis by (simp add: ParseOneDim_def sbind_apply check_stream_def w'(1) Let_def)
qed

lemma newline_sep [simp]: "is_sep (hd (newline @ r))" "is_sep (hd newline)" "newline \<noteq> []" "\<forall>c\<in>set newline. isspace c"
  and tab_sep [simp]: "is_sep (hd (tab @ r))" "is_sep (hd tab)" "tab \<noteq> []" "\<forall>c\<in>set tab. isspace c"
  by (simp_all add: newline_def tab_def is_sep_def isspace_def)

lemma get_size:
  assumes "good i" and "is_text i = w @ show_nat n @ r" and "\<forall>c\<in>set w. isspace c" and "n < 2 ^ 64" and "r = [] \<or> is_sep (hd r)"
  shows "get_value scan_size zero old i = (of_nat n, i\<lparr>is_text := r, is_eof := (r = [])\<rparr>)"
proof -
  have "unat (of_nat n :: u64) = n" using assms(4) by (simp add: unsigned_of_nat take_bit_nat_eq_self)
  with get_exact [of i w "\<lambda>x. show_nat (unat x)" "of_nat n :: u64" r scan_size zero old, OF assms(1) _ assms(3) exact_u64 assms(5)]
  show ?thesis using assms(2) by simp
qed

text \<open>The single-row output of the five formats.\<close>

lemma table_format:
  assumes "f = kEnumTo E ! format_index form"
  shows "flags f = DontAlignCols E" and "matPrefix f = []" and "sep_ok (coeffSeparator f)"
    and "rowSuffix f @ matSuffix f \<noteq> [] \<and> is_sep (hd (rowSuffix f @ matSuffix f))"
    and "rowPrefix f = [] \<or> \<not> isOnlyWhitespace (rowPrefix f) \<and> (\<exists>c cs. rowPrefix f = c # cs \<and> \<not> isspace c)"
  using assms
  by (cases form; simp add: kEnumTo_def plain_format_def sep_ok_def is_sep_def isOnlyWhitespace_def newline_def tab_def isspace_def)+

lemma OneDimToString_text:
  assumes "eigen_io E efmt" and "f = kEnumTo E ! format_index form" and "xs \<noteq> []"
  shows "OneDimToString show efmt xs sized f = Inr ((if sized then show_nat (length xs) @ newline else []) @
    rowPrefix f @ join (coeffSeparator f) (map show xs) @ rowSuffix f @ matSuffix f)"
  using eigen_io.format_plain [OF assms(1) table_format(1) [OF assms(2)], of "[map show xs]"] assms(3) table_format(2) [OF assms(2)]
  by (simp add: OneDimToString_def OneDimSerialize_def ToEigenRowVector_def)

section \<open>Reading back tables\<close>

text \<open>A table is a run of numbers, each behind white space; more text follows.\<close>

definition tokens_text :: "('a \<Rightarrow> string) \<Rightarrow> (string \<times> 'a) list \<Rightarrow> string" where
  "tokens_text put ts = concat (map (\<lambda>(w, x). w @ put x) ts)"

definition tokens_ok :: "('a \<Rightarrow> string) \<Rightarrow> (string \<Rightarrow> ('a \<times> string) option) \<Rightarrow> (string \<times> 'a) list \<Rightarrow> bool" where
  "tokens_ok put rd ts \<longleftrightarrow> (\<forall>(w, x)\<in>set ts. (\<forall>c\<in>set w. isspace c) \<and> exact put rd x) \<and> (\<forall>(w, x)\<in>set (tl ts). w \<noteq> [])"

lemma isspace_sep: "isspace c \<Longrightarrow> is_sep c"
  by (simp add: is_sep_def)

lemma tokens_head:
  assumes "tokens_ok put rd ((w, x) # ts)" and "r \<noteq> []" and "is_sep (hd r)"
  shows "tokens_text put ts @ r \<noteq> []" and "is_sep (hd (tokens_text put ts @ r))" and "tokens_ok put rd ts"
proof -
  show "tokens_text put ts @ r \<noteq> []" using assms(2) by simp
  show "is_sep (hd (tokens_text put ts @ r))"
    using assms by (cases ts) (auto simp: tokens_text_def tokens_ok_def neq_Nil_conv intro!: isspace_sep)
  show "tokens_ok put rd ts" using assms(1) by (cases ts) (auto simp: tokens_ok_def)
qed

lemma get_fresh_exact:
  assumes "good i" and "is_text i = w @ put x @ r" and "\<forall>c\<in>set w. isspace c" and "exact put rd x"
    and "r \<noteq> []" and "is_sep (hd r)"
  shows "get_fresh rd zero i = (Inr x, i\<lparr>is_text := r\<rparr>)" and "get_value rd zero old i = (x, i\<lparr>is_text := r\<rparr>)"
proof -
  have e: "i\<lparr>is_text := r, is_eof := False\<rparr> = i\<lparr>is_text := r\<rparr>" using assms(1) by (simp add: good_def)
  show v: "get_value rd zero old i = (x, i\<lparr>is_text := r\<rparr>)" for old
    using get_exact [of i w put x r rd zero old, OF assms(1-4)] assms(5,6) e by simp
  have sw: "starts_word (put x @ r)" using assms(4) by (simp add: exact_def starts_word_append)
  then have "skip_ws (w @ put x @ r) \<noteq> []"
    using assms(3) skip_ws_word [OF sw] by (auto simp: skip_ws_def starts_word_def split: list.splits)
  with assms(1,2) v show "get_fresh rd zero i = (Inr x, i\<lparr>is_text := r\<rparr>)" by (simp add: get_fresh_def)
qed

lemma read_fresh_tokens:
  assumes "good i" and "is_text i = tokens_text put ts @ r" and "tokens_ok put rd ts" and "r \<noteq> []" and "is_sep (hd r)"
  shows "read_fresh rd zero (length ts) i = (Inr (map snd ts), i\<lparr>is_text := r\<rparr>)"
    and "read_values rd zero (length ts) i = (map snd ts, i\<lparr>is_text := r\<rparr>)"
proof -
  have "read_fresh rd zero (length ts) i = (Inr (map snd ts), i\<lparr>is_text := r\<rparr>) \<and>
      read_values rd zero (length ts) i = (map snd ts, i\<lparr>is_text := r\<rparr>)"
    using assms
  proof (induction ts arbitrary: i)
    case Nil
    then have "i\<lparr>is_text := r\<rparr> = i" by (simp add: tokens_text_def good_record [symmetric])
    then show ?case by simp
  next
    case (Cons p ts)
    obtain w x where p: "p = (w, x)" by fastforce
    note h = tokens_head [OF Cons.prems(3) [unfolded p] Cons.prems(4,5)]
    have tx: "is_text i = w @ put x @ tokens_text put ts @ r" using Cons.prems(2) by (simp add: p tokens_text_def)
    have "\<forall>c\<in>set w. isspace c" "exact put rd x" using Cons.prems(3) by (simp_all add: p tokens_ok_def)
    note g = get_fresh_exact [OF Cons.prems(1) tx this h(1,2)]
    from Cons.IH [of "i\<lparr>is_text := tokens_text put ts @ r\<rparr>"] Cons.prems h(3)
    show ?case by (simp add: p g sbind_apply)
  qed
  then show "read_fresh rd zero (length ts) i = (Inr (map snd ts), i\<lparr>is_text := r\<rparr>)"
    and "read_values rd zero (length ts) i = (map snd ts, i\<lparr>is_text := r\<rparr>)" by simp_all
qed

lemma getline_text [stream_simps]:
  assumes "good i" and "is_text i = l @ newline @ r" and "char_of (10 :: nat) \<notin> set l"
  shows "getline i = i\<lparr>is_text := r\<rparr>"
  using assms find_char_append [of "char_of (10 :: nat)" l r] by (simp add: getline_def newline_def)

lemma rotate_lines:
  "s @ concat (map (\<lambda>i. f i @ s) is) = concat (map (\<lambda>i. s @ f i) is) @ s"
  by (induction "is") simp_all

lemma header_chars [simp]: "char_of (10 :: nat) \<notin> set solution_header" "char_of (10 :: nat) \<notin> set coordinates_header"
  "char_of (10 :: nat) \<notin> set solution_columns"
  by code_simp+

lemma tokens_pairs:
  "tokens_text put (concat (map (\<lambda>i. [(s, a i), (t, b i)]) is)) = concat (map (\<lambda>i. s @ put (a i) @ t @ put (b i)) is)"
  by (induction "is") (simp_all add: tokens_text_def)

lemma nth_pairs:
  "k < n \<Longrightarrow> concat (map (\<lambda>i. [a i, b i]) [0..<n]) ! (2 * k) = a k"
  "k < n \<Longrightarrow> concat (map (\<lambda>i. [a i, b i]) [0..<n]) ! Suc (2 * k) = b k"
proof -
  have l: "length (concat (map (\<lambda>i. [a i, b i]) [0..<n])) = 2 * n" for n by (induction n) simp_all
  show "k < n \<Longrightarrow> concat (map (\<lambda>i. [a i, b i]) [0..<n]) ! (2 * k) = a k"
    and "k < n \<Longrightarrow> concat (map (\<lambda>i. [a i, b i]) [0..<n]) ! Suc (2 * k) = b k"
    by (induction n) (auto simp: nth_append l less_Suc_eq)
qed

lemma map_snd_pairs: "map snd (concat (map (\<lambda>i. [(s, a i), (t, b i)]) is)) = concat (map (\<lambda>i. [a i, b i]) is)"
  by (induction "is") simp_all

lemma good_istringstream [simp]: "good (istringstream s)" "good (istringstream s\<lparr>is_text := t\<rparr>)"
  by (simp_all add: good_def istringstream_def)

lemma tokens_okI:
  assumes "\<And>w x. (w, x) \<in> set ts \<Longrightarrow> w \<noteq> [] \<and> (\<forall>c\<in>set w. isspace c) \<and> exact put rd x"
  shows "tokens_ok put rd ts"
proof -
  have "set (tl ts) \<subseteq> set ts" by (cases ts) auto
  with assms show ?thesis unfolding tokens_ok_def by blast
qed

lemma ParseCoordinates_human:
  assumes len: "length col = 2 * n" and n: "n < 2 ^ 64" and ex: "\<forall>x\<in>set col. exact put rd x"
  shows "fst (ParseCoordinates rd zero HUMAN_READABLE size_opt f (istringstream (PrintCoordinates2 put col))) = Inr col"
proof -
  let ?ts = "concat (map (\<lambda>i. [(newline, col ! i), (tab, col ! (i + n))]) [0..<n])"
  let ?tab = "concat (map (\<lambda>i. put (col ! i) @ tab @ put (col ! (i + n)) @ newline) [0..<n])"
  let ?v = "concat (map (\<lambda>i. [col ! i, col ! (i + n)]) [0..<n])"
  have lines: "newline @ ?tab = tokens_text put ?ts @ newline"
    using rotate_lines [of newline "\<lambda>i. put (col ! i) @ tab @ put (col ! (i + n))" "[0..<n]"] by (simp add: tokens_pairs)
  have ok: "tokens_ok put rd ?ts" using len ex by (intro tokens_okI) auto
  let ?s = "coordinates_header @ newline @ show_nat n @ newline @ ?tab"
  have half: "length col div 2 = n" using len by simp
  let ?i = "istringstream ?s\<lparr>is_text := newline @ ?tab\<rparr>"
  have "getline (istringstream ?s) = istringstream ?s\<lparr>is_text := show_nat n @ newline @ ?tab\<rparr>"
    using getline_text [of "istringstream ?s" coordinates_header "show_nat n @ newline @ ?tab"] by (simp add: istringstream_def good_def)
  moreover have "get_value scan_size 0 0 (istringstream ?s\<lparr>is_text := show_nat n @ newline @ ?tab\<rparr>) = (of_nat n, ?i)"
    using get_size [of "istringstream ?s\<lparr>is_text := show_nat n @ newline @ ?tab\<rparr>" "[]" n "newline @ ?tab" 0 0] n
    by (simp add: istringstream_def good_def)
  moreover have "read_values rd zero (2 * n) ?i = (?v, ?i\<lparr>is_text := newline\<rparr>)"
  proof -
    have "length ?ts = 2 * n" by (simp add: length_concat o_def sum_list_triv)
    with read_fresh_tokens(2) [of ?i put ?ts newline rd zero] ok lines show ?thesis by (simp add: map_snd_pairs)
  qed
  moreover have "coords_of_table n ?v = col"
    using len by (intro nth_equalityI) (auto simp: coords_of_table_def nth_pairs)
  moreover have "unat (of_nat n :: u64) = n" using n by (simp add: unsigned_of_nat take_bit_nat_eq_self)
  moreover have "\<not> is_fail ?i" by (simp add: istringstream_def)
  ultimately show ?thesis
    by (simp add: ParseCoordinates_def PrintCoordinates2_def half sbind_apply check_stream_def Let_def)
qed

text \<open>A solution of \<open>4 n\<close> numbers is a table of \<open>2 n\<close> lines: the two parts and their modulus.\<close>

lemma tokens_triples:
  "tokens_text put (concat (map (\<lambda>i. [(s, a i), (t, b i), (u, c i)]) is)) =
   concat (map (\<lambda>i. s @ put (a i) @ t @ put (b i) @ u @ put (c i)) is)"
  by (induction "is") (simp_all add: tokens_text_def)

lemma nth_triples:
  "k < n \<Longrightarrow> concat (map (\<lambda>i. [a i, b i, c i]) [0..<n]) ! (3 * k) = a k"
  "k < n \<Longrightarrow> concat (map (\<lambda>i. [a i, b i, c i]) [0..<n]) ! Suc (3 * k) = b k"
proof -
  have l: "length (concat (map (\<lambda>i. [a i, b i, c i]) [0..<n])) = 3 * n" for n by (induction n) simp_all
  show "k < n \<Longrightarrow> concat (map (\<lambda>i. [a i, b i, c i]) [0..<n]) ! (3 * k) = a k"
    and "k < n \<Longrightarrow> concat (map (\<lambda>i. [a i, b i, c i]) [0..<n]) ! Suc (3 * k) = b k"
    by (induction n) (auto simp: nth_append l less_Suc_eq)
qed

lemma map_snd_triples:
  "map snd (concat (map (\<lambda>i. [(s, a i), (t, b i), (u, c i)]) is)) = concat (map (\<lambda>i. [a i, b i, c i]) is)"
  by (induction "is") simp_all

lemma concat_two: "concat (map (\<lambda>i. f (2 * i) @ f (Suc (2 * i))) [0..<n]) = concat (map f [0..<2 * n])"
  by (induction n) simp_all

definition modulus :: "nat \<Rightarrow> real list \<Rightarrow> nat \<Rightarrow> real" where
  "modulus n sol k = sqrt (sol ! k * sol ! k + sol ! (k + 2 * n) * sol ! (k + 2 * n))"

lemma tokens_drop_first:
  assumes "tokens_ok put rd ((w, x) # ts)"
  shows "tokens_ok put rd (([], x) # ts)" "w @ tokens_text put (([], x) # ts) = tokens_text put ((w, x) # ts)"
  using assms by (auto simp: tokens_ok_def tokens_text_def)

lemma solution_table:
  assumes len: "length sol = 4 * n" and ex: "\<forall>x\<in>set sol. exact put rd x" and md: "\<forall>k<2 * n. exact put rd (modulus n sol k)"
    and i: "good i" "is_text i = concat (map (\<lambda>k. put (sol ! k) @ tab @ put (sol ! (k + 2 * n)) @ tab @
      put (modulus n sol k) @ newline) [0..<2 * n])"
  shows "fst (read_fresh rd 0 (6 * n) i) = Inr (concat (map (\<lambda>k. [sol ! k, sol ! (k + 2 * n), modulus n sol k]) [0..<2 * n]))"
proof (cases "n = 0")
  case False
  let ?f = "\<lambda>k. [(newline, sol ! k), (tab, sol ! (k + 2 * n)), (tab, modulus n sol k)]"
  let ?ts = "concat (map ?f [0..<2 * n])"
  have ok: "tokens_ok put rd ?ts" using len ex md by (intro tokens_okI) auto
  have "newline @ is_text i = tokens_text put ?ts @ newline"
    using rotate_lines [of newline "\<lambda>k. put (sol ! k) @ tab @ put (sol ! (k + 2 * n)) @ tab @ put (modulus n sol k)" "[0..<2 * n]"]
    by (simp add: tokens_triples i(2))
  moreover obtain x us where us: "?ts = (newline, x) # us" using False by (simp add: upt_rec [of 0])
  ultimately have "is_text i = tokens_text put (([], x) # us) @ newline" "tokens_ok put rd (([], x) # us)"
    using tokens_drop_first [of put rd newline x us] ok by (simp_all add: tokens_text_def)
  from read_fresh_tokens(1) [OF i(1) this, of 0]
  have "read_fresh rd 0 (length ?ts) i = (Inr (map snd ?ts), i\<lparr>is_text := newline\<rparr>)" by (simp add: us)
  moreover have "length ?ts = 6 * n" by (simp add: length_concat o_def sum_list_triv)
  ultimately show ?thesis by (simp add: map_snd_triples)
qed simp

lemma ParseSolution_human:
  assumes len: "length sol = 4 * n" and n: "n < 2 ^ 64" and ex: "\<forall>x\<in>set sol. exact put rd x"
    and md: "\<forall>k<2 * n. exact put rd (modulus n sol k)"
  shows "fst (ParseSolution rd HUMAN_READABLE size_opt f (istringstream (PrintSolutionFormat1 put sol))) = Inr sol"
proof -
  let ?tab = "concat (map (\<lambda>k. put (sol ! k) @ tab @ put (sol ! (k + 2 * n)) @ tab @ put (modulus n sol k) @ newline) [0..<2 * n])"
  let ?v = "concat (map (\<lambda>k. [sol ! k, sol ! (k + 2 * n), modulus n sol k]) [0..<2 * n])"
  let ?t = "newline @ solution_header @ newline @ solution_columns @ newline @ ?tab"
  let ?s = "istringstream (show_nat n @ ?t)"
  have "length sol div 4 = n" using len by simp
  then have tx: "PrintSolutionFormat1 put sol = show_nat n @ ?t"
    using concat_two [of "\<lambda>k. put (sol ! k) @ tab @ put (sol ! (k + 2 * n)) @ tab @ put (modulus n sol k) @ newline" n]
    by (simp add: PrintSolutionFormat1_def modulus_def Let_def)
  have "get_value scan_size 0 0 ?s = (of_nat n, ?s\<lparr>is_text := ?t\<rparr>)"
    using get_size [of ?s "[]" n ?t 0 0] n by (simp add: istringstream_def good_def)
  moreover have "getline (?s\<lparr>is_text := ?t\<rparr>) = ?s\<lparr>is_text := solution_header @ newline @ solution_columns @ newline @ ?tab\<rparr>"
    using getline_text [of "?s\<lparr>is_text := ?t\<rparr>" "[]"] by simp
  moreover have "getline (?s\<lparr>is_text := solution_header @ newline @ solution_columns @ newline @ ?tab\<rparr>) =
      ?s\<lparr>is_text := solution_columns @ newline @ ?tab\<rparr>"
    using getline_text [of "?s\<lparr>is_text := solution_header @ newline @ solution_columns @ newline @ ?tab\<rparr>" solution_header] by simp
  moreover have "getline (?s\<lparr>is_text := solution_columns @ newline @ ?tab\<rparr>) = ?s\<lparr>is_text := ?tab\<rparr>"
    using getline_text [of "?s\<lparr>is_text := solution_columns @ newline @ ?tab\<rparr>" solution_columns] by simp
  moreover obtain i' where "read_fresh rd 0 (6 * n) (?s\<lparr>is_text := ?tab\<rparr>) = (Inr ?v, i')"
    using solution_table [OF len ex md, of "?s\<lparr>is_text := ?tab\<rparr>"]
    by (cases "read_fresh rd 0 (6 * n) (?s\<lparr>is_text := ?tab\<rparr>)") simp
  moreover have "solution_of_table n ?v = sol"
    using len by (intro nth_equalityI) (auto simp: solution_of_table_def nth_triples)
  moreover have "unat (of_nat n :: u64) = n" using n by (simp add: unsigned_of_nat take_bit_nat_eq_self)
  moreover have "\<not> is_fail (?s\<lparr>is_text := ?tab\<rparr>)" by (simp add: istringstream_def)
  ultimately show ?thesis
    by (simp add: ParseSolution_def tx sbind_apply check_stream_def Let_def)
qed

section \<open>Properties\<close>

text \<open>The human-readable tables read back: an even number of coordinates, and a solution of a
multiple of four numbers (whose table carries the moduli as a third column), when the numbers
printed survive printing in scientific notation; a vector of another length loses its last
numbers.\<close>

theorem table_round_trip:
  assumes "n < 2 ^ 64"
  shows "(length col = 2 * n \<and> (\<forall>x\<in>set col. exact put rd x) \<longrightarrow>
      rbind (PrintCoordinates put' put efmt col HUMAN_READABLE sized f)
        (\<lambda>t. fst (ParseCoordinates rd zero HUMAN_READABLE size_opt f (istringstream t))) = Inr col) \<and>
    (length sol = 4 * n \<and> (\<forall>x\<in>set sol. exact puts rds x) \<and> (\<forall>k<2 * n. exact puts rds (modulus n sol k)) \<longrightarrow>
      rbind (PrintSolution puts' puts efmt sol HUMAN_READABLE sized f)
        (\<lambda>t. fst (ParseSolution rds HUMAN_READABLE size_opt f (istringstream t))) = Inr sol)"
  using ParseCoordinates_human [of col n put rd zero size_opt f] ParseSolution_human [of sol n puts rds size_opt f] assms
  by (simp add: PrintCoordinates_def PrintSolution_def)

theorem table_round_trip_witness:
  "fst (ParseCoordinates scan_size 0 HUMAN_READABLE None (kEnumTo \<lparr>StreamPrecision = - 1, DontAlignCols = 1\<rparr> ! 0)
     (istringstream (PrintCoordinates2 (\<lambda>x. show_nat (unat x)) [3, 7, 0, 12 :: u64]))) = Inr [3, 7, 0, 12]"
  using table_round_trip [where n = 2 and col = "[3, 7, 0, 12 :: u64]" and put = "\<lambda>x. show_nat (unat x)" and rd = scan_size
      and zero = 0 and put' = "\<lambda>x. show_nat (unat x)" and efmt = eigen_model and sized = False and size_opt = None
      and f = "kEnumTo \<lparr>StreamPrecision = - 1, DontAlignCols = 1\<rparr> ! 0", THEN conjunct1] exact_u64
  by (simp add: PrintCoordinates_def)

text \<open>C24: a non-empty vector of numbers that survive printing, printed in any of the five formats, is
read back when the reader is given its size; with the printed size it is read back in the two
formats without row brackets, and in the others the reader silently returns zeros, because the
line break after the size is not the expected bracket.\<close>

theorem vector_round_trip:
  assumes "eigen_io E efmt" and "xs \<noteq> []" and "length xs < 2 ^ 64" and "\<forall>x\<in>set xs. exact put rd x"
    and "f = kEnumTo E ! format_index form"
  shows "rbind (OneDimToString put efmt xs False f)
      (\<lambda>t. fst (ParseOneDim rd zero (Some (of_nat (length xs))) f (istringstream t))) = Inr xs \<and>
    rbind (OneDimToString put efmt xs True f) (\<lambda>t. fst (ParseOneDim rd zero None f (istringstream t))) =
      Inr (if rowPrefix f = [] then xs else replicate (length xs) zero)"
proof -
  note tb = table_format [OF assms(5)]
  let ?r = "rowSuffix f @ matSuffix f" and ?n = "of_nat (length xs) :: u64"
  let ?t = "rowPrefix f @ join (coeffSeparator f) (map put xs) @ ?r"
  have n: "unat ?n = length xs" using assms(3) by (simp add: unsigned_of_nat take_bit_nat_eq_self)
  have r: "?r = [] \<or> is_sep (hd ?r)" using tb(4) by simp
  have plain: "fst (ParseOneDim rd zero (Some ?n) f (istringstream ?t)) = Inr xs"
    using ParseOneDim_text [of "istringstream ?t" "[]" f put xs ?r rd ?n zero] assms(2,4) tb(3) r n by simp
  let ?s = "show_nat (length xs) @ newline @ ?t"
  let ?i = "istringstream ?s\<lparr>is_text := newline @ ?t\<rparr>"
  have "get_value scan_size 0 0 (istringstream ?s) = (?n, ?i)"
    using get_size [of "istringstream ?s" "[]" "length xs" "newline @ ?t" 0 0] assms(3) by (simp add: istringstream_def good_def)
  then have sized: "ParseOneDim rd zero None f (istringstream ?s) = ParseOneDim rd zero (Some ?n) f ?i"
    by (simp add: ParseOneDim_def)
  have "fst (ParseOneDim rd zero (Some ?n) f ?i) = Inr (if rowPrefix f = [] then xs else replicate (length xs) zero)"
  proof (cases "rowPrefix f = []")
    case True
    then show ?thesis
      using ParseOneDim_text [of ?i newline f put xs ?r rd ?n zero] assms(2,4) tb(3) r n by simp
  next
    case False
    with tb(5) obtain c cs where c: "rowPrefix f = c # cs" "\<not> isspace c" "\<not> isOnlyWhitespace (c # cs)" by auto
    have "\<not> isspace c \<Longrightarrow> char_of (10 :: nat) \<noteq> c" by (auto simp: isspace_def)
    with c have "is_fail (expect (c # cs) ?i)"
      by (intro expect_mismatch [of _ "char_of 10" ?t]) (simp_all add: newline_def)
    with c have "is_fail (snd (ParseDelim (rowPrefix f) ?i))"
      by (simp add: ParseDelim_def get_Delimiter_def Let_def del: expect.simps)
    from read_elems_failed [OF this] False n show ?thesis
      by (simp add: ParseOneDim_def sbind_apply check_stream_def istringstream_def Let_def split_beta)
  qed
  with plain sized show ?thesis by (simp add: OneDimToString_text [OF assms(1,5,2)])
qed

theorem vector_round_trip_witness:
  "rbind (OneDimToString (\<lambda>x. show_nat (unat x)) eigen_model [3, 7 :: u64] True (kEnumTo \<lparr>StreamPrecision = - 1, DontAlignCols = 1\<rparr> ! 4))
     (\<lambda>t. fst (ParseOneDim scan_size 0 None (kEnumTo \<lparr>StreamPrecision = - 1, DontAlignCols = 1\<rparr> ! 4) (istringstream t))) =
   Inr [0, 0]"
proof -
  let ?E = "\<lparr>StreamPrecision = - 1, DontAlignCols = 1\<rparr>"
  have "rowPrefix (kEnumTo ?E ! 4) \<noteq> []" by (simp add: kEnumTo_def plain_format_def)
  with vector_round_trip [where xs = "[3, 7 :: u64]" and put = "\<lambda>x. show_nat (unat x)" and rd = scan_size and zero = 0
      and form = VECTOR_DB_FORMAT, OF eigen_model.eigen_io_axioms _ _ _ refl, THEN conjunct2] exact_u64
  show ?thesis by simp
qed

end
