(* ===== verification/Dao.thy ===== *)
theory Dao
  imports Db PrintParse Timing
begin

text \<open>
  \<open>network_shared/daoClasses.h/.cpp\<close>: the enumerations of the database, the records of its
  tables and their construction from a result row.  The reader of a column converts as the
  code does, in its order, so the first column that does not convert is the exception of the
  whole row.  The time zone, jsoncpp and Eigen's constants are parameters.
\<close>

section \<open>Enumerations\<close>

datatype UserRole = UR_USER | UR_ADMINISTRATOR

definition kUserRoleMappings :: "(UserRole \<times> string) list" where
  "kUserRoleMappings = [(UR_USER, ''user''), (UR_ADMINISTRATOR, ''admin'')]"

datatype ExperimentStatus = ES_CREATED | ES_QUEUED | ES_RUNNING | ES_SUCCEEDED | ES_ERROR | ES_ARHIVED

definition kExpStatusMappings :: "(ExperimentStatus \<times> string) list" where
  "kExpStatusMappings = [(ES_CREATED, ''created''), (ES_QUEUED, ''queued''), (ES_RUNNING, ''running''),
     (ES_SUCCEEDED, ''succeeded''), (ES_ERROR, ''error''), (ES_ARHIVED, ''archived'')]"

datatype IterationStatus = IS_QUEUED | IS_RUNNING | IS_SUCCEEDED | IS_ERROR

definition kIterStatusMappings :: "(IterationStatus \<times> string) list" where
  "kIterStatusMappings = [(IS_QUEUED, ''queued''), (IS_RUNNING, ''running''), (IS_SUCCEEDED, ''succeeded''), (IS_ERROR, ''error'')]"

datatype IterationType = IT_GENERATE | IT_SOLVE | IT_MESH

definition kIterTypeMappings :: "(IterationType \<times> string) list" where
  "kIterTypeMappings = [(IT_GENERATE, ''generate''), (IT_SOLVE, ''solve''), (IT_MESH, ''mesh'')]"

datatype DbNodeStatus = DN_ACTIVE | DN_BUSY | DN_INACTIVE | DN_ERROR

definition kNodeStMappings :: "(DbNodeStatus \<times> string) list" where
  "kNodeStMappings = [(DN_ACTIVE, ''active''), (DN_BUSY, ''busy''), (DN_INACTIVE, ''inactive''), (DN_ERROR, ''error'')]"

definition kUserRoleToStr where "kUserRoleToStr = CreateEnumToStrMap kUserRoleMappings"
definition kStrToUserRole where "kStrToUserRole = CreateStrToEnumMap kUserRoleMappings"
definition kExpStatusToStr where "kExpStatusToStr = CreateEnumToStrMap kExpStatusMappings"
definition kStrToExpStatus where "kStrToExpStatus = CreateStrToEnumMap kExpStatusMappings"
definition kIterStatusToStr where "kIterStatusToStr = CreateEnumToStrMap kIterStatusMappings"
definition kStrToIterStatus where "kStrToIterStatus = CreateStrToEnumMap kIterStatusMappings"
definition kIterTypeToStr where "kIterTypeToStr = CreateEnumToStrMap kIterTypeMappings"
definition kStrToIterType where "kStrToIterType = CreateStrToEnumMap kIterTypeMappings"
definition kNodeStToStr where "kNodeStToStr = CreateEnumToStrMap kNodeStMappings"
definition kStrToNodeSt where "kStrToNodeSt = CreateStrToEnumMap kNodeStMappings"

interpretation userRole: enum_table kUserRoleMappings
proof
  fix v show "v \<in> fst ` set kUserRoleMappings" by (cases v) (simp_all add: kUserRoleMappings_def)
qed (simp_all add: kUserRoleMappings_def)

interpretation expStatus: enum_table kExpStatusMappings
proof
  fix v show "v \<in> fst ` set kExpStatusMappings" by (cases v) (simp_all add: kExpStatusMappings_def)
qed (simp_all add: kExpStatusMappings_def)

interpretation iterStatus: enum_table kIterStatusMappings
proof
  fix v show "v \<in> fst ` set kIterStatusMappings" by (cases v) (simp_all add: kIterStatusMappings_def)
qed (simp_all add: kIterStatusMappings_def)

interpretation iterType: enum_table kIterTypeMappings
proof
  fix v show "v \<in> fst ` set kIterTypeMappings" by (cases v) (simp_all add: kIterTypeMappings_def)
qed (simp_all add: kIterTypeMappings_def)

interpretation dbNodeStatus: enum_table kNodeStMappings
proof
  fix v show "v \<in> fst ` set kNodeStMappings" by (cases v) (simp_all add: kNodeStMappings_def)
qed (simp_all add: kNodeStMappings_def)

section \<open>Columns\<close>

definition flt :: "fault + 'a \<Rightarrow> thrown + 'a" where
  "flt r = (case r of Inl e \<Rightarrow> Inl (Fault e) | Inr x \<Rightarrow> Inr x)"

definition get_index :: "('c, 'w) pqxx \<Rightarrow> row \<Rightarrow> string \<Rightarrow> thrown + u64" where
  "get_index X r name = rbind (field_of r name) (as_index X)"

definition get_text :: "row \<Rightarrow> string \<Rightarrow> thrown + string" where
  "get_text r name = rbind (field_of r name) as_string"

definition get_enum :: "(string \<rightharpoonup> 'e) \<Rightarrow> row \<Rightarrow> string \<Rightarrow> thrown + 'e" where
  "get_enum table r name = rbind (get_text r name) (\<lambda>s. flt (StrToEnum s table))"

definition get_time :: "time_zone \<Rightarrow> row \<Rightarrow> string \<Rightarrow> thrown + u64" where
  "get_time tz r name = rbind (get_text r name) (\<lambda>s. deref (StrToTimepoint tz s))"

definition get_time_opt :: "time_zone \<Rightarrow> row \<Rightarrow> string \<Rightarrow> thrown + u64 option" where
  "get_time_opt tz r name = rbind (field_of r name) (GetFunctionOpt (StrToTimepoint tz))"

section \<open>Records\<close>

record User =
  user_id :: u64
  login :: string
  hashed_password :: string
  role :: UserRole
  user_created_at :: u64
  last_login :: "u64 option"

definition User_of_row :: "('c, 'w) pqxx \<Rightarrow> time_zone \<Rightarrow> row \<Rightarrow> thrown + User" where
  "User_of_row X tz r =
    rbind (get_index X r ''user_id'') (\<lambda>_.
    rbind (get_text r ''login'') (\<lambda>l.
    rbind (get_text r ''hashed_password'') (\<lambda>p.
    rbind (get_enum kStrToUserRole r ''role'') (\<lambda>ro.
    rbind (get_index X r ''user_id'') (\<lambda>i.
    rbind (get_time tz r ''created_at'') (\<lambda>t.
    rbind (get_time_opt tz r ''last_login'') (\<lambda>ll.
      Inr \<lparr>user_id = i, login = l, hashed_password = p, role = ro, user_created_at = t, last_login = ll\<rparr>)))))))"

definition User_eq :: "User \<Rightarrow> User \<Rightarrow> bool" where
  "User_eq a b \<longleftrightarrow> login a = login b \<and> hashed_password a = hashed_password b \<and> role a = role b"

definition GetInertValues :: "User \<Rightarrow> string" where
  "GetInertValues u = []"

record 'j Experiment =
  experiment_id :: u64
  exp_user_id :: u64
  exp_status :: ExperimentStatus
  parameters :: 'j
  exp_created_at :: u64
  exp_start_time :: "u64 option"
  exp_end_time :: "u64 option"

text \<open>The JSON text becomes a JSON string: it is not parsed.\<close>

definition Experiment_of_row :: "('c, 'w) pqxx \<Rightarrow> ('j, 'f) jsoncpp \<Rightarrow> time_zone \<Rightarrow> row \<Rightarrow> thrown + 'j Experiment" where
  "Experiment_of_row X J tz r =
    rbind (get_index X r ''experiment_id'') (\<lambda>i.
    rbind (get_index X r ''user_id'') (\<lambda>u.
    rbind (get_enum kStrToExpStatus r ''status'') (\<lambda>s.
    rbind (get_text r ''parameters'') (\<lambda>p.
    rbind (get_time tz r ''created_at'') (\<lambda>t.
    rbind (get_time_opt tz r ''start_time'') (\<lambda>t1.
    rbind (get_time_opt tz r ''end_time'') (\<lambda>t2.
      Inr \<lparr>experiment_id = i, exp_user_id = u, exp_status = s, parameters = j_ofString J p, exp_created_at = t,
        exp_start_time = t1, exp_end_time = t2\<rparr>)))))))"

definition Experiment_eq :: "'j Experiment \<Rightarrow> 'j Experiment \<Rightarrow> bool" where
  "Experiment_eq a b \<longleftrightarrow> experiment_id a = experiment_id b"

record 'j Iteration =
  iteration_id :: u64
  it_experiment_id :: u64
  it_node_id :: u64
  iter_t :: IterationType
  it_status :: IterationStatus
  output_data :: 'j
  it_start_time :: u64
  it_end_time :: "u64 option"

definition Iteration_of_row :: "('c, 'w) pqxx \<Rightarrow> ('j, 'f) jsoncpp \<Rightarrow> time_zone \<Rightarrow> row \<Rightarrow> thrown + 'j Iteration" where
  "Iteration_of_row X J tz r =
    rbind (get_index X r ''iteration_id'') (\<lambda>i.
    rbind (get_index X r ''experiment_id'') (\<lambda>e.
    rbind (get_index X r ''node_id'') (\<lambda>n.
    rbind (get_enum kStrToIterType r ''iter_t'') (\<lambda>ty.
    rbind (get_enum kStrToIterStatus r ''status'') (\<lambda>s.
    rbind (field_of r ''output_data'') (\<lambda>d.
    rbind (get_time tz r ''start_time'') (\<lambda>t1.
    rbind (get_time_opt tz r ''end_time'') (\<lambda>t2.
      Inr \<lparr>iteration_id = i, it_experiment_id = e, it_node_id = n, iter_t = ty, it_status = s,
        output_data = j_ofString J (case d of None \<Rightarrow> ''{}'' | Some x \<Rightarrow> x), it_start_time = t1, it_end_time = t2\<rparr>))))))))"

definition Iteration_eq :: "'j Iteration \<Rightarrow> 'j Iteration \<Rightarrow> bool" where
  "Iteration_eq a b \<longleftrightarrow> iteration_id a = iteration_id b"

record DbNode =
  node_id :: u64
  ip_address :: string
  benchmark_score :: "u64 list"
  node_status :: DbNodeStatus
  last_ping :: "u64 option"

definition read_bench :: "('c, 'w) pqxx \<Rightarrow> eigen_constants \<Rightarrow> string \<Rightarrow> thrown + u64 list" where
  "read_bench X E sql_arr =
    rbind (of_opt (Px conversion_error) (px_array_size X sql_arr)) (\<lambda>sz.
    flt (rbind (EIGENF E VECTOR_DB_FORMAT) (\<lambda>f. ParseOneDimS scan_size 0 sql_arr (Some (of_nat sz)) f)))"

definition Node_of_row :: "('c, 'w) pqxx \<Rightarrow> eigen_constants \<Rightarrow> time_zone \<Rightarrow> row \<Rightarrow> thrown + DbNode" where
  "Node_of_row X E tz r =
    rbind (get_index X r ''node_id'') (\<lambda>i.
    rbind (get_text r ''ip_address'') (\<lambda>ip.
    rbind (get_text r ''benchmark_score'') (\<lambda>sql_arr.
    rbind (read_bench X E sql_arr) (\<lambda>b.
    rbind (get_enum kStrToNodeSt r ''status'') (\<lambda>s.
    rbind (get_time_opt tz r ''last_ping'') (\<lambda>t.
      Inr \<lparr>node_id = i, ip_address = ip, benchmark_score = b, node_status = s, last_ping = t\<rparr>))))))"

definition Node_eq :: "DbNode \<Rightarrow> DbNode \<Rightarrow> bool" where
  "Node_eq a b \<longleftrightarrow> ip_address a = ip_address b"

record DbLog =
  log_id :: u64
  log_node_id :: "u64 option"
  log_experiment_id :: "u64 option"
  severity :: Severity
  log_message :: string
  timestamp :: u64

definition Log_of_row :: "('c, 'w) pqxx \<Rightarrow> time_zone \<Rightarrow> row \<Rightarrow> thrown + DbLog" where
  "Log_of_row X tz r =
    rbind (get_index X r ''log_id'') (\<lambda>i.
    rbind (rbind (field_of r ''node_id'') (GetOpt (as_index X))) (\<lambda>n.
    rbind (rbind (field_of r ''experiment_id'') (GetOpt (as_index X))) (\<lambda>e.
    rbind (get_text r ''severity'') (\<lambda>sev.
    rbind (of_opt (Fault (Std (out_of_range ''unordered_map::at''))) (map_of kStrToSev sev)) (\<lambda>s.
    rbind (get_text r ''message'') (\<lambda>m.
    rbind (get_time tz r ''timestamp'') (\<lambda>t.
      Inr \<lparr>log_id = i, log_node_id = n, log_experiment_id = e, severity = s, log_message = m, timestamp = t\<rparr>)))))))"

definition Log_eq :: "DbLog \<Rightarrow> DbLog \<Rightarrow> bool" where
  "Log_eq a b \<longleftrightarrow> log_id a = log_id b"

end
