(* ===== verification/DbService.thy ===== *)
theory DbService
  imports Dao
begin

text \<open>
  \<open>network_shared/DbService.h/.cpp\<close>: the service that keeps users, experiments, iterations,
  nodes and logs.  Every operation is one transaction; the captured result of its body is the
  result of the action.  Connection, reconnection and disconnection act on the service object
  and on the state of the server.
\<close>

section \<open>The service object\<close>

record 'c DbService =
  db_conn_str :: PostgreSQLCStr
  db_conn :: "'c ConnPtr"

definition service_name :: string where
  "service_name = ''DbService''"

definition new_DbService :: "'c DbService" where
  "new_DbService = \<lparr>db_conn_str = default_pg, db_conn = None\<rparr>"

definition make_DbService :: "PostgreSQLCStr \<Rightarrow> 'c DbService" where
  "make_DbService conn_str = \<lparr>db_conn_str = conn_str, db_conn = None\<rparr>"

definition DbService_Disconnect :: "('c, 'w) pqxx \<Rightarrow> 'c DbService \<Rightarrow> 'w \<Rightarrow> 'c DbService \<times> 'w" where
  "DbService_Disconnect X s w = (let (p, w) = Db_Disconnect X (db_conn s) w in (s\<lparr>db_conn := p\<rparr>, w))"

definition destroy_DbService :: "('c, 'w) pqxx \<Rightarrow> 'c DbService \<Rightarrow> 'w \<Rightarrow> 'w" where
  "destroy_DbService X s w = snd (DbService_Disconnect X s w)"

definition Db_IsConnected :: "('c, 'w) pqxx \<Rightarrow> 'c DbService \<Rightarrow> 'w \<Rightarrow> bool" where
  "Db_IsConnected X s w = Db_CheckConnection X (db_conn s) w"

text \<open>The new connection replaces the old one, whose destructor closes it.\<close>

definition DbService_Reconnect :: "('c, 'w) pqxx \<Rightarrow> ('c DbService \<times> 'w, unit) db_action" where
  "DbService_Reconnect X = (\<lambda>(s, w).
    if Db_CheckConnection X (db_conn s) w
    then (Inl (Fault (Thrown (Already_Connected service_name (pg_GetVerboseName (db_conn_str s))))), (s, w))
    else (case TryConnect X (db_conn_str s) service_name w of
        (Inl e, w) \<Rightarrow> (Inl e, (s, w))
      | (Inr c, w) \<Rightarrow> (Inr (), (s\<lparr>db_conn := Some c\<rparr>, snd (Db_Disconnect X (db_conn s) w)))))"

definition DbService_Connect :: "('c, 'w) pqxx \<Rightarrow> ('c DbService \<times> 'w, bool) db_action" where
  "DbService_Connect X = sbind (DbService_Reconnect X) (\<lambda>_. sret True)"

definition SetConnStr :: "PostgreSQLCStr \<Rightarrow> 'c DbService \<Rightarrow> 'c DbService" where
  "SetConnStr conn_str s = s\<lparr>db_conn_str := conn_str\<rparr>"

definition GetConnStr :: "'c DbService \<Rightarrow> PostgreSQLCStr" where
  "GetConnStr s = db_conn_str s"

definition in_txn :: "('c, 'w) pqxx \<Rightarrow> 'c DbService \<Rightarrow> ('c \<Rightarrow> ('w, 'a) db_action) \<Rightarrow> ('w, 'a) db_action" where
  "in_txn X s func = ExecuteTransaction X (db_conn s) func service_name (db_conn_str s)"

text \<open>\<open>txn.exec(...).one_row()[0].as<IndexType>()\<close> and \<open>result[0][0].as<IndexType>()\<close>.\<close>

definition returned_index :: "('c, 'w) pqxx \<Rightarrow> ResType \<Rightarrow> thrown + u64" where
  "returned_index X res = rbind (one_row res) (\<lambda>r. rbind (field_at r 0) (as_index X))"

definition first_index :: "('c, 'w) pqxx \<Rightarrow> ResType \<Rightarrow> thrown + u64" where
  "first_index X res = rbind (row_at res 0) (\<lambda>r. rbind (field_at r 0) (as_index X))"

definition opt_param :: "u64 option \<Rightarrow> sql_param" where
  "opt_param v = (case v of None \<Rightarrow> PNull | Some n \<Rightarrow> PNum n)"

section \<open>Logs\<close>

definition log_query :: string where
  "log_query = ''INSERT INTO \"Log\" (node_id,experiment_id, severity, message)'' @
     '' VALUES ($1,$2, $3::log_severity, $4)'' @ '' RETURNING log_id''"

definition InnerLog ::
    "('c, 'w) pqxx \<Rightarrow> 'c \<Rightarrow> u64 option \<Rightarrow> u64 option \<Rightarrow> string \<Rightarrow> string \<Rightarrow> ('w, u64) db_action" where
  "InnerLog X txn experiment node sev message =
    sbind (ExecuteSubTransaction X txn
      (\<lambda>s. exec X s log_query [opt_param node, opt_param experiment, PStr sev, PStr message]) ''Log'')
    (\<lambda>res. slift (first_index X res))"

definition Db_Log ::
    "('c, 'w) pqxx \<Rightarrow> 'c DbService \<Rightarrow> u64 option \<Rightarrow> u64 option \<Rightarrow> string \<Rightarrow> string \<Rightarrow> ('w, u64) db_action" where
  "Db_Log X s experiment node sev message =
    sbind (in_txn X s (\<lambda>txn. exec X txn log_query [opt_param node, opt_param experiment, PStr sev, PStr message]))
    (\<lambda>res. slift (first_index X res))"

definition Log_record :: "('c, 'w) pqxx \<Rightarrow> 'c DbService \<Rightarrow> DbLog \<Rightarrow> ('w, u64) db_action" where
  "Log_record X s l = Db_Log X s (log_experiment_id l) (log_node_id l) (kSevToStr ! sev_index (severity l)) (log_message l)"

text \<open>A list request: a page of a table, every row converted.\<close>

definition list_page ::
    "('c, 'w) pqxx \<Rightarrow> 'c DbService \<Rightarrow> (row \<Rightarrow> thrown + 'a) \<Rightarrow> string \<Rightarrow> sql_param list \<Rightarrow> u64 \<Rightarrow> u64 \<Rightarrow> ('w, 'a list) db_action" where
  "list_page X s from_row qq params page_num page_size =
    sbind (in_txn X s (\<lambda>txn. exec X txn (PaginateRequest qq page_num page_size) params))
    (\<lambda>result. slift (ParseArray from_row result))"

definition ListLogs :: "('c, 'w) pqxx \<Rightarrow> time_zone \<Rightarrow> 'c DbService \<Rightarrow> u64 \<Rightarrow> u64 \<Rightarrow> ('w, DbLog list) db_action" where
  "ListLogs X tz s = list_page X s (Log_of_row X tz) ''SELECT * FROM \"Log\"'' []"

section \<open>Users\<close>

definition Db_CreateUser :: "('c, 'w) pqxx \<Rightarrow> 'c DbService \<Rightarrow> string \<Rightarrow> string \<Rightarrow> string \<Rightarrow> ('w, u64) db_action" where
  "Db_CreateUser X s name password rl = in_txn X s (\<lambda>txn.
    sbind (exec X txn (''INSERT INTO \"User\" (login, hashed_password, role)'' @ '' VALUES ($1, $2, $3)'' @ '' RETURNING user_id'')
             [PStr name, PStr password, PStr rl])
      (\<lambda>res. slift (returned_index X res)))"

definition Db_CreateUser_record :: "('c, 'w) pqxx \<Rightarrow> 'c DbService \<Rightarrow> User \<Rightarrow> ('w, u64) db_action" where
  "Db_CreateUser_record X s u =
    sbind (slift (flt (EnumToStr (role u) kUserRoleToStr))) (\<lambda>r. Db_CreateUser X s (login u) (hashed_password u) r)"

definition password_query :: string where
  "password_query = ''SELECT hashed_password FROM \"User\" WHERE login = $1''"

definition login_query :: string where
  "login_query = ''UPDATE \"User\" SET last_login = NOW() WHERE login = $1''"

definition AuthenticateUser :: "('c, 'w) pqxx \<Rightarrow> 'c DbService \<Rightarrow> string \<Rightarrow> string \<Rightarrow> ('w, bool) db_action" where
  "AuthenticateUser X s name password = in_txn X s (\<lambda>txn.
    sbind (exec X txn password_query [PStr name]) (\<lambda>res.
    sbind (slift (rbind (one_row res) (\<lambda>r. rbind (field_at r 0) as_string))) (\<lambda>stored.
      if stored = password then sbind (exec X txn login_query [PStr name]) (\<lambda>_. sret True) else sret False)))"

definition AuthenticateUser_record :: "('c, 'w) pqxx \<Rightarrow> 'c DbService \<Rightarrow> User \<Rightarrow> ('w, bool) db_action" where
  "AuthenticateUser_record X s u = AuthenticateUser X s (login u) (hashed_password u)"

definition Db_DeleteUser :: "('c, 'w) pqxx \<Rightarrow> 'c DbService \<Rightarrow> u64 \<Rightarrow> ('w, unit) db_action" where
  "Db_DeleteUser X s i = in_txn X s (\<lambda>txn.
    sbind (exec X txn ''DELETE FROM \"User\" WHERE user_id = $1'' [PNum i]) (\<lambda>_. sret ()))"

definition Db_ListUsers :: "('c, 'w) pqxx \<Rightarrow> time_zone \<Rightarrow> 'c DbService \<Rightarrow> u64 \<Rightarrow> u64 \<Rightarrow> ('w, User list) db_action" where
  "Db_ListUsers X tz s = list_page X s (User_of_row X tz) ''SELECT * FROM \"User\"'' []"

section \<open>Experiments\<close>

text \<open>The message has one placeholder for two arguments.\<close>

definition CreateExperiment :: "('c, 'w) pqxx \<Rightarrow> ('j, 'f) jsoncpp \<Rightarrow> 'c DbService \<Rightarrow> u64 \<Rightarrow> 'j \<Rightarrow> ('w, u64) db_action" where
  "CreateExperiment X J s user params = in_txn X s (\<lambda>txn.
    sbind (exec X txn (''INSERT INTO \"Experiment\" (user_id, parameters)'' @ '' VALUES ($1, $2::jsonb)'' @ '' RETURNING experiment_id'')
             [PNum user, PStr (j_write J params)]) (\<lambda>res.
    sbind (slift (returned_index X res)) (\<lambda>i.
    sbind (InnerLog X txn None None ''info''
             (fmt_format ''User {} created experiment '' [show_nat (unat user), show_nat (unat i)])) (\<lambda>_.
    sret i))))"

definition CreateExperiment_record :: "('c, 'w) pqxx \<Rightarrow> ('j, 'f) jsoncpp \<Rightarrow> 'c DbService \<Rightarrow> 'j Experiment \<Rightarrow> ('w, u64) db_action" where
  "CreateExperiment_record X J s e = CreateExperiment X J s (exp_user_id e) (parameters e)"

definition ListExperiments ::
    "('c, 'w) pqxx \<Rightarrow> ('j, 'f) jsoncpp \<Rightarrow> time_zone \<Rightarrow> 'c DbService \<Rightarrow> u64 \<Rightarrow> u64 \<Rightarrow> u64 \<Rightarrow> ('w, 'j Experiment list) db_action" where
  "ListExperiments X J tz s user = list_page X s (Experiment_of_row X J tz) ''SELECT * FROM \"Experiment\" WHERE user_id =$1'' [PNum user]"

definition UpdateExperimentStatus :: "('c, 'w) pqxx \<Rightarrow> 'c DbService \<Rightarrow> u64 \<Rightarrow> string \<Rightarrow> ('w, unit) db_action" where
  "UpdateExperimentStatus X s i status = in_txn X s (\<lambda>txn.
    sbind (exec X txn (''UPDATE \"Experiment\" SET status = $1, start_time = CASE WHEN'' @
        '' $1 = '' @ [CHR 0x27] @ ''running'' @ [CHR 0x27] @ ''::status THEN NOW() ELSE start_time END,'' @
        '' end_time = CASE WHEN $1 IN ('' @ [CHR 0x27] @ ''succeeded'' @ [CHR 0x27] @ ''::status, '' @
        [CHR 0x27] @ ''error'' @ [CHR 0x27] @ ''::status)'' @
        '' THEN NOW() ELSE end_time END WHERE experiment_id = $2'') [PStr status, PNum i]) (\<lambda>_.
    sbind (InnerLog X txn None None ''info''
             (fmt_format ''Experiment {}  status updated to {}'' [show_nat (unat i), status])) (\<lambda>_.
    sret ())))"

definition UpdateExperimentStatus_enum :: "('c, 'w) pqxx \<Rightarrow> 'c DbService \<Rightarrow> u64 \<Rightarrow> ExperimentStatus \<Rightarrow> ('w, unit) db_action" where
  "UpdateExperimentStatus_enum X s i status =
    sbind (slift (flt (EnumToStr status kExpStatusToStr))) (\<lambda>t. UpdateExperimentStatus X s i t)"

definition GetExperiment :: "('c, 'w) pqxx \<Rightarrow> ('j, 'f) jsoncpp \<Rightarrow> time_zone \<Rightarrow> 'c DbService \<Rightarrow> u64 \<Rightarrow> ('w, 'j Experiment) db_action" where
  "GetExperiment X J tz s i = in_txn X s (\<lambda>txn.
    sbind (exec X txn ''SELECT * FROM \"Experiment\" WHERE experiment_id = $1'' [PNum i])
      (\<lambda>res. slift (rbind (one_row res) (Experiment_of_row X J tz))))"

section \<open>Iterations\<close>

definition CreateIteration :: "('c, 'w) pqxx \<Rightarrow> 'c DbService \<Rightarrow> u64 \<Rightarrow> u64 \<Rightarrow> string \<Rightarrow> ('w, u64) db_action" where
  "CreateIteration X s experiment node iter_type = in_txn X s (\<lambda>txn.
    sbind (exec X txn (''INSERT INTO \"Iteration\" (experiment_id, node_id, iter_t)'' @ '' VALUES ($1, $2, $3)'' @ '' RETURNING iteration_id'')
             [PNum experiment, PNum node, PStr iter_type]) (\<lambda>res.
    sbind (slift (returned_index X res)) (\<lambda>i.
    sbind (InnerLog X txn (Some experiment) (Some node) ''info''
             (fmt_format ''Iteration {} created for experiment {}'' [show_nat (unat i), show_nat (unat experiment)])) (\<lambda>_.
    sret i))))"

definition CreateIteration_record :: "('c, 'w) pqxx \<Rightarrow> 'c DbService \<Rightarrow> 'j Iteration \<Rightarrow> ('w, u64) db_action" where
  "CreateIteration_record X s it =
    sbind (slift (flt (EnumToStr (iter_t it) kIterTypeToStr))) (\<lambda>t. CreateIteration X s (it_experiment_id it) (it_node_id it) t)"

definition UpdateIterationStatus ::
    "('c, 'w) pqxx \<Rightarrow> ('j, 'f) jsoncpp \<Rightarrow> 'c DbService \<Rightarrow> u64 \<Rightarrow> string \<Rightarrow> 'j \<Rightarrow> ('w, unit) db_action" where
  "UpdateIterationStatus X J s i status output = in_txn X s (\<lambda>txn.
    sbind (if j_type J output = nullValue
           then exec X txn (''UPDATE \"Iteration\" SET status = $1::iteration_status, end_time = CASE WHEN $1 IN ('' @
              [CHR 0x27] @ ''succeeded'' @ [CHR 0x27] @ '', '' @ [CHR 0x27] @ ''error'' @ [CHR 0x27] @ '')'' @
              '' THEN NOW() ELSE end_time END '' @ '' WHERE iteration_id = $2'') [PStr status, PNum i]
           else exec X txn (''UPDATE \"Iteration\" SET status = $1::iteration_status, output_data = $2::jsonb, end_time ='' @
              '' CASE WHEN $1 IN ('' @ [CHR 0x27] @ ''succeeded'' @ [CHR 0x27] @ '', '' @ [CHR 0x27] @ ''error'' @ [CHR 0x27] @ '') '' @
              ''THEN NOW() ELSE end_time END '' @ ''WHERE iteration_id = $3'') [PStr status, PStr (j_write J output), PNum i]) (\<lambda>_.
    sbind (InnerLog X txn None None ''info''
             (fmt_format ''Iteration {} status updated to {}'' [show_nat (unat i), status])) (\<lambda>_.
    sret ())))"

definition UpdateIterationStatus_enum ::
    "('c, 'w) pqxx \<Rightarrow> ('j, 'f) jsoncpp \<Rightarrow> 'c DbService \<Rightarrow> u64 \<Rightarrow> IterationStatus \<Rightarrow> 'j \<Rightarrow> ('w, unit) db_action" where
  "UpdateIterationStatus_enum X J s i status output =
    sbind (slift (flt (EnumToStr status kIterStatusToStr))) (\<lambda>t. UpdateIterationStatus X J s i t output)"

definition GetIteration :: "('c, 'w) pqxx \<Rightarrow> ('j, 'f) jsoncpp \<Rightarrow> time_zone \<Rightarrow> 'c DbService \<Rightarrow> u64 \<Rightarrow> ('w, 'j Iteration) db_action" where
  "GetIteration X J tz s i = in_txn X s (\<lambda>txn.
    sbind (exec X txn ''SELECT * FROM \"Iteration\" WHERE iteration_id = $1'' [PNum i])
      (\<lambda>res. slift (rbind (one_row res) (Iteration_of_row X J tz))))"

definition ListIterations ::
    "('c, 'w) pqxx \<Rightarrow> ('j, 'f) jsoncpp \<Rightarrow> time_zone \<Rightarrow> 'c DbService \<Rightarrow> u64 \<Rightarrow> u64 \<Rightarrow> u64 \<Rightarrow> ('w, 'j Iteration list) db_action" where
  "ListIterations X J tz s experiment =
    list_page X s (Iteration_of_row X J tz) ''SELECT * FROM \"Iteration\" WHERE experiment_id =$1'' [PNum experiment]"

section \<open>Nodes\<close>

definition register_query :: string where
  "register_query = ''INSERT INTO \"Node\" (ip_address, benchmark_score, status, last_ping)'' @
     '' VALUES ($1, $2, '' @ [CHR 0x27] @ ''active'' @ [CHR 0x27] @ '', NOW())'' @ ''RETURNING node_id''"

definition node_query :: string where
  "node_query = ''SELECT * FROM \"Node\" WHERE node_id = $1''"

definition RegisterNode ::
    "('c, 'w) pqxx \<Rightarrow> eigen_constants \<Rightarrow> eigen_printer \<Rightarrow> 'c DbService \<Rightarrow> string \<Rightarrow> u64 list \<Rightarrow> ('w, u64) db_action" where
  "RegisterNode X E efmt s ip bench = in_txn X s (\<lambda>txn.
    sbind (slift (flt (rbind (EIGENF E VECTOR_DB_FORMAT) (OneDimToString (\<lambda>x. show_nat (unat x)) efmt bench False)))) (\<lambda>bench_vec.
    sbind (exec X txn register_query [PStr ip, PStr bench_vec]) (\<lambda>res.
    sbind (slift (returned_index X res)) (\<lambda>i.
    sbind (InnerLog X txn None (Some i) ''info'' (fmt_format ''Node registered with IP {}'' [ip])) (\<lambda>_.
    sret i)))))"

definition RegisterNode_record ::
    "('c, 'w) pqxx \<Rightarrow> eigen_constants \<Rightarrow> eigen_printer \<Rightarrow> 'c DbService \<Rightarrow> DbNode \<Rightarrow> ('w, u64) db_action" where
  "RegisterNode_record X E efmt s nd = RegisterNode X E efmt s (ip_address nd) (benchmark_score nd)"

text \<open>The message names the node instead of the status.\<close>

definition UpdateNodeStatus :: "('c, 'w) pqxx \<Rightarrow> 'c DbService \<Rightarrow> u64 \<Rightarrow> string \<Rightarrow> ('w, unit) db_action" where
  "UpdateNodeStatus X s i status = in_txn X s (\<lambda>txn.
    sbind (exec X txn ''UPDATE \"Node\" SET status = $1::node_status, last_ping = NOW() WHERE node_id = $2'' [PStr status, PNum i]) (\<lambda>_.
    sbind (InnerLog X txn None (Some i) ''info'' (fmt_format ''Node status updated to {}'' [show_nat (unat i)])) (\<lambda>_.
    sret ())))"

definition UnregisterNode :: "('c, 'w) pqxx \<Rightarrow> 'c DbService \<Rightarrow> u64 \<Rightarrow> ('w, unit) db_action" where
  "UnregisterNode X s i = in_txn X s (\<lambda>txn.
    sbind (exec X txn (''UPDATE \"Node\" SET status = '' @ [CHR 0x27] @ ''inactive'' @ [CHR 0x27] @
             '', last_ping = NOW() WHERE node_id = $1'') [PNum i]) (\<lambda>_.
    sbind (InnerLog X txn None (Some i) ''info'' (fmt_format ''Node {} unregistered.'' [show_nat (unat i)])) (\<lambda>_.
    sret ())))"

text \<open>The query runs twice; the first row is taken without looking at their number.\<close>

definition GetNode :: "('c, 'w) pqxx \<Rightarrow> eigen_constants \<Rightarrow> time_zone \<Rightarrow> 'c DbService \<Rightarrow> u64 \<Rightarrow> ('w, DbNode) db_action" where
  "GetNode X E tz s i =
    sbind (in_txn X s (\<lambda>txn. sbind (exec X txn node_query [PNum i]) (\<lambda>_. exec X txn node_query [PNum i])))
      (\<lambda>result. slift (rbind (row_at result 0) (Node_of_row X E tz)))"

definition ListNodes ::
    "('c, 'w) pqxx \<Rightarrow> eigen_constants \<Rightarrow> time_zone \<Rightarrow> 'c DbService \<Rightarrow> u64 \<Rightarrow> u64 \<Rightarrow> ('w, DbNode list) db_action" where
  "ListNodes X E tz s = list_page X s (Node_of_row X E tz) ''SELECT * FROM \"Node\"'' []"

section \<open>Every operation is one action on the database\<close>

lemma direct_fields [simp]: "px_index (direct X sql) = px_index X" "px_array_size (direct X sql) = px_array_size X"
  by (simp_all add: direct_def)

lemma direct_as_index [simp]: "as_index (direct X sql) = as_index X"
  by (simp add: fun_eq_iff as_index_def)

lemma direct_conversions [simp]:
  "returned_index (direct X sql) = returned_index X"
  "first_index (direct X sql) = first_index X" "get_index (direct X sql) = get_index X"
  "read_bench (direct X sql) = read_bench X"
  by (simp_all add: fun_eq_iff returned_index_def first_index_def get_index_def read_bench_def)

lemma direct_rows [simp]:
  "User_of_row (direct X sql) = User_of_row X" "Experiment_of_row (direct X sql) = Experiment_of_row X"
  "Iteration_of_row (direct X sql) = Iteration_of_row X" "Node_of_row (direct X sql) = Node_of_row X"
  "Log_of_row (direct X sql) = Log_of_row X"
  by (simp_all add: fun_eq_iff User_of_row_def Experiment_of_row_def Iteration_of_row_def Node_of_row_def Log_of_row_def)

text \<open>An operation that succeeds does what its direct form does to the committed database; one
that throws leaves it as it was, unless the outcome of the commit is in doubt.\<close>

definition all_or_nothing :: "('w \<Rightarrow> 'd) \<Rightarrow> ('w, 'a) db_action \<Rightarrow> ('d, 'a) db_action \<Rightarrow> bool" where
  "all_or_nothing db op dop \<longleftrightarrow> follows db op dop \<and>
    (\<forall>w e w'. op w = (Inl e, w') \<longrightarrow> e \<noteq> Px in_doubt_error \<longrightarrow> db w' = db w)"

definition body_ok :: "('w \<Rightarrow> 'd) \<Rightarrow> ('w \<Rightarrow> 'd) \<Rightarrow> ('w, 'a) db_action \<Rightarrow> ('d, 'a) db_action \<Rightarrow> bool" where
  "body_ok db work f g \<longleftrightarrow> keeps db f \<and> follows work f g"

named_theorems body_intros \<open>parts of a transaction body\<close>

lemma body_sret [body_intros]: "body_ok db work (sret x) (sret x)"
  and body_slift [body_intros]: "body_ok db work (slift r) (slift r)"
  by (simp_all add: body_ok_def keeps_sret keeps_slift follow_intros)

lemma body_sbind [body_intros]:
  "body_ok db work m m' \<Longrightarrow> (\<And>x. body_ok db work (f x) (f' x)) \<Longrightarrow> body_ok db work (sbind m f) (sbind m' f')"
  by (simp add: body_ok_def keeps_sbind follows_sbind)

lemma body_if [body_intros]:
  "body_ok db work f f' \<Longrightarrow> body_ok db work g g' \<Longrightarrow> body_ok db work (if b then f else g) (if b then f' else g')"
  by simp

context pqxx_store
begin

lemma body_exec: "body_ok db work (exec X c q ps) (exec (direct X sql) c q ps)"
  by (simp add: body_ok_def keeps_exec exec_follows)

lemma body_log: "body_ok db work (InnerLog X c e n sev m) (InnerLog (direct X sql) c e n sev m)"
  unfolding InnerLog_def body_ok_def
  by (simp add: keeps_sbind keeps_sub keeps_exec keeps_slift follows_sbind sub_follows exec_follows follows_slift)

lemma txn_all_or_nothing:
  assumes "\<And>c. body_ok db work (f c) (f' c)"
  shows "all_or_nothing db (in_txn X s f) (in_txn (direct X sql) s f')"
  unfolding all_or_nothing_def in_txn_def
  using assms transaction_follows [of f f'] transaction_atomic [of f] by (auto simp: body_ok_def)

lemmas body_rules = body_intros body_exec body_log

lemma users_all_or_nothing:
  "all_or_nothing db (Db_CreateUser X s l p r) (Db_CreateUser (direct X sql) s l p r)"
  "all_or_nothing db (AuthenticateUser X s l p) (AuthenticateUser (direct X sql) s l p)"
  "all_or_nothing db (Db_DeleteUser X s i) (Db_DeleteUser (direct X sql) s i)"
  unfolding Db_CreateUser_def AuthenticateUser_def Db_DeleteUser_def direct_conversions
  by (intro txn_all_or_nothing body_rules)+

lemma experiments_all_or_nothing:
  "all_or_nothing db (CreateExperiment X J s u v) (CreateExperiment (direct X sql) J s u v)"
  "all_or_nothing db (UpdateExperimentStatus X s i st) (UpdateExperimentStatus (direct X sql) s i st)"
  "all_or_nothing db (GetExperiment X J tz s i) (GetExperiment (direct X sql) J tz s i)"
  unfolding CreateExperiment_def UpdateExperimentStatus_def GetExperiment_def direct_conversions direct_rows
  by (intro txn_all_or_nothing body_rules)+

lemma iterations_all_or_nothing:
  "all_or_nothing db (CreateIteration X s e n ty) (CreateIteration (direct X sql) s e n ty)"
  "all_or_nothing db (UpdateIterationStatus X J s i st out) (UpdateIterationStatus (direct X sql) J s i st out)"
  "all_or_nothing db (GetIteration X J tz s i) (GetIteration (direct X sql) J tz s i)"
  unfolding CreateIteration_def UpdateIterationStatus_def GetIteration_def direct_conversions direct_rows
  by (intro txn_all_or_nothing body_rules)+

lemma nodes_all_or_nothing:
  "all_or_nothing db (RegisterNode X E efmt s ip b) (RegisterNode (direct X sql) E efmt s ip b)"
  "all_or_nothing db (UpdateNodeStatus X s i st) (UpdateNodeStatus (direct X sql) s i st)"
  "all_or_nothing db (UnregisterNode X s i) (UnregisterNode (direct X sql) s i)"
  unfolding RegisterNode_def UpdateNodeStatus_def UnregisterNode_def direct_conversions
  by (intro txn_all_or_nothing body_rules)+

end

section \<open>Unconnected services\<close>

definition unconnected_error :: "'c DbService \<Rightarrow> thrown" where
  "unconnected_error s = Fault (Thrown (Broken_Connection service_name (pg_GetVerboseName (db_conn_str s))))"

lemma in_txn_unconnected: "\<not> Db_IsConnected X s w \<Longrightarrow> in_txn X s f w = (Inl (unconnected_error s), w)"
  by (simp add: in_txn_def ExecuteTransaction_def Db_IsConnected_def unconnected_error_def)

lemma after_txn_unconnected: "\<not> Db_IsConnected X s w \<Longrightarrow> sbind (in_txn X s f) g w = (Inl (unconnected_error s), w)"
  by (simp add: sbind_Inl in_txn_unconnected)

section \<open>Users and their passwords\<close>

text \<open>The documented effect of the two statements of an authentication: \<open>users\<close> gives the
stored password of a login.\<close>

locale user_table = pqxx_store X db work known sql
  for X :: "('c, 'w) pqxx" and db :: "'w \<Rightarrow> 'd" and work known sql +
  fixes users :: "'d \<Rightarrow> string \<rightharpoonup> string"
  assumes password_rows: "sql password_query [PStr l] d = (Inr res, d') \<Longrightarrow>
      d' = d \<and> (case users d l of None \<Rightarrow> res = [] | Some p \<Rightarrow> \<exists>c. res = [[(c, Some p)]])"
    and login_rows: "sql login_query [PStr l] d = (Inr res, d') \<Longrightarrow> users d' = users d"
begin

lemma direct_authentication:
  assumes "AuthenticateUser (direct X sql) s l p d = (Inr b, d')"
  shows "users d l = Some p \<and> b \<and> users d' = users d \<or> (\<exists>q. users d l = Some q \<and> q \<noteq> p \<and> \<not> b \<and> d' = d)"
proof -
  obtain r1 d1 where q: "sql password_query [PStr l] d = (r1, d1)" by fastforce
  obtain r2 d2 where u: "sql login_query [PStr l] d1 = (r2, d2)" by fastforce
  show ?thesis
    using assms q u password_rows [of l d] login_rows [of l d1]
    by (auto simp: AuthenticateUser_def in_txn_def ExecuteTransaction_def Db_CheckConnection_def direct_def exec_def lift_px_def
        sbind_apply one_row_def field_at_def as_string_def split: if_splits option.splits sum.splits prod.splits)
qed

end

text \<open>An executable instance: the table and the number of recorded logins.\<close>

fun user_sql :: "string \<Rightarrow> sql_param list \<Rightarrow> ((string \<times> string) list \<times> nat, px_error, ResType) action" where
  "user_sql q ps (us, n) =
    (if q = password_query
     then (Inr (case ps of [PStr l] \<Rightarrow> (case map_of us l of None \<Rightarrow> [] | Some p \<Rightarrow> [[(''hashed_password'', Some p)]]) | _ \<Rightarrow> []), (us, n))
     else if q = login_query then (Inr [], (us, Suc n))
     else (Inl (sql_error ''no such statement'' q ''42601''), (us, n)))"

lemma queries_differ: "login_query \<noteq> password_query"
  by (simp add: login_query_def password_query_def)

interpretation users: user_table "server user_sql ix az" committed working "\<lambda>w. {..<created w}" user_sql "\<lambda>d. map_of (fst d)"
  for ix az
  using queries_differ by unfold_locales (auto split: option.splits)

section \<open>Properties\<close>


definition open_service :: "nat DbService" where
  "open_service = \<lparr>db_conn_str = default_pg, db_conn = Some 0\<rparr>"

definition open_store :: "'d \<Rightarrow> 'd store" where
  "open_store d = \<lparr>committed = d, opened = [0], created = 1, copies = []\<rparr>"


text \<open>C26: an authentication that returns has found the login: it returns true exactly for the
stored password, records the login then and nothing otherwise, and never changes a password; for
a login that is not stored it throws and the database is unchanged, unless the commit is in
doubt.\<close>

theorem authenticate_exact:
  assumes "user_table X db work known sql users"
  shows "AuthenticateUser X s l p w = (r, w') \<longrightarrow>
    (case r of
       Inr b \<Rightarrow> (\<exists>q. users (db w) l = Some q \<and> b = (q = p)) \<and> users (db w') = users (db w) \<and> (\<not> b \<longrightarrow> db w' = db w)
     | Inl e \<Rightarrow> e \<noteq> Px in_doubt_error \<longrightarrow> db w' = db w)"
proof -
  have st: "pqxx_store X db work known sql" using assms by (simp add: user_table_def)
  note atomic = pqxx_store.users_all_or_nothing(2) [OF st, of s l p, unfolded all_or_nothing_def follows_def]
  show ?thesis
  proof (cases r)
    case (Inl e)
    with atomic show ?thesis by auto
  next
    case (Inr b)
    show ?thesis
    proof
      assume "AuthenticateUser X s l p w = (r, w')"
      with atomic Inr have "AuthenticateUser (direct X sql) s l p (db w) = (Inr b, db w')" by blast
      from user_table.direct_authentication [OF assms this] Inr
      show "case r of Inr b \<Rightarrow> (\<exists>q. users (db w) l = Some q \<and> b = (q = p)) \<and> users (db w') = users (db w) \<and> (\<not> b \<longrightarrow> db w' = db w)
          | Inl e \<Rightarrow> e \<noteq> Px in_doubt_error \<longrightarrow> db w' = db w" by auto
    qed
  qed
qed

theorem authenticate_exact_witness:
  "let run = (\<lambda>l p. AuthenticateUser (server user_sql (\<lambda>_. None) (\<lambda>_. None)) open_service l p (open_store ([(''ann'', ''x'')], 0)))
   in fst (run ''ann'' ''x'') = Inr True \<and> fst (run ''ann'' ''y'') = Inr False \<and>
      committed (snd (run ''ann'' ''y'')) = ([(''ann'', ''x'')], 0) \<and> committed (snd (run ''ann'' ''x'')) = ([(''ann'', ''x'')], 1)"
proof -
  let ?X = "server user_sql (\<lambda>_. None) (\<lambda>_. None)" and ?w = "open_store ([(''ann'', ''x'')], 0)"
  let ?run = "\<lambda>l p. AuthenticateUser ?X open_service l p ?w"
  note ev = AuthenticateUser_def in_txn_def ExecuteTransaction_def Db_CheckConnection_def open_service_def open_store_def server_def
        exec_def lift_px_def sbind_apply one_row_def field_at_def as_string_def working_def queries_differ
  obtain w1 where w1: "?run ''ann'' ''y'' = (Inr False, w1)" by (simp add: ev)
  with authenticate_exact [OF users.user_table_axioms [of "\<lambda>_. None" "\<lambda>_. None"], where s = open_service and l = "''ann''" and p = "''y''" and w = ?w
      and r = "Inr False" and w' = w1]
  have "committed w1 = ([(''ann'', ''x'')], 0)" by (simp add: open_store_def)
  moreover have "?run ''ann'' ''x'' = (Inr True, (open_store ([(''ann'', ''x'')], 1)))" by (simp add: ev)
  ultimately show ?thesis using w1 by (simp add: Let_def open_store_def)
qed

text \<open>Every operation of an unconnected service throws the broken-connection exception that
names the service and its address, and does not touch the server.\<close>

theorem disconnected_operations:
  assumes "\<not> Db_IsConnected X s w"
  shows "Db_CreateUser X s l p r w = (Inl (unconnected_error s), w) \<and>
    AuthenticateUser X s l p w = (Inl (unconnected_error s), w) \<and>
    Db_DeleteUser X s i w = (Inl (unconnected_error s), w) \<and>
    Db_ListUsers X tz s n m w = (Inl (unconnected_error s), w) \<and>
    CreateExperiment X J s i v w = (Inl (unconnected_error s), w) \<and>
    UpdateExperimentStatus X s i st w = (Inl (unconnected_error s), w) \<and>
    GetExperiment X J tz s i w = (Inl (unconnected_error s), w) \<and>
    ListExperiments X J tz s i n m w = (Inl (unconnected_error s), w) \<and>
    CreateIteration X s i n ty w = (Inl (unconnected_error s), w) \<and>
    UpdateIterationStatus X J s i st v w = (Inl (unconnected_error s), w) \<and>
    GetIteration X J tz s i w = (Inl (unconnected_error s), w) \<and>
    ListIterations X J tz s i n m w = (Inl (unconnected_error s), w) \<and>
    RegisterNode X E efmt s ip b w = (Inl (unconnected_error s), w) \<and>
    UpdateNodeStatus X s i st w = (Inl (unconnected_error s), w) \<and>
    UnregisterNode X s i w = (Inl (unconnected_error s), w) \<and>
    GetNode X E tz s i w = (Inl (unconnected_error s), w) \<and>
    ListNodes X E tz s n m w = (Inl (unconnected_error s), w) \<and>
    Db_Log X s eo no sev msg w = (Inl (unconnected_error s), w) \<and>
    ListLogs X tz s n m w = (Inl (unconnected_error s), w)"
  unfolding Db_CreateUser_def AuthenticateUser_def Db_DeleteUser_def Db_ListUsers_def CreateExperiment_def UpdateExperimentStatus_def
    GetExperiment_def ListExperiments_def CreateIteration_def UpdateIterationStatus_def GetIteration_def ListIterations_def
    RegisterNode_def UpdateNodeStatus_def UnregisterNode_def GetNode_def ListNodes_def Db_Log_def ListLogs_def list_page_def Let_def
  by (intro conjI in_txn_unconnected after_txn_unconnected assms)

theorem disconnected_operations_witness:
  "AuthenticateUser (server user_sql (\<lambda>_. None) (\<lambda>_. None)) new_DbService ''ann'' ''x'' (open_store ([], 0)) =
    (Inl (Fault (Thrown (Broken_Connection service_name (pg_GetVerboseName default_pg)))), open_store ([], 0))"
proof -
  let ?X = "server user_sql (\<lambda>_. None) (\<lambda>_. None)" and ?w = "open_store ([], 0)" and ?s = "new_DbService :: nat DbService"
  have "\<not> Db_IsConnected ?X ?s ?w" by (simp add: Db_IsConnected_def Db_CheckConnection_def new_DbService_def)
  from disconnected_operations [OF this, where l = "''ann''" and p = "''x''", THEN conjunct2, THEN conjunct1]
  have "AuthenticateUser ?X ?s ''ann'' ''x'' ?w = (Inl (unconnected_error ?s), ?w)" .
  moreover have "unconnected_error ?s = Fault (Thrown (Broken_Connection service_name (pg_GetVerboseName default_pg)))"
    by (simp add: unconnected_error_def new_DbService_def)
  ultimately show ?thesis by (rule trans [OF _ arg_cong [where f = "\<lambda>e. (Inl e, ?w)"]])
qed

text \<open>The life cycle of the connection: connecting while connected throws and changes
nothing; connecting while not connected either makes the service connected, or throws and
leaves the service object unchanged, with the exception of the code when the server cannot be
reached; after disconnecting, the service is not connected and holds no connection.  No call
changes the database, and the connection held is always one the server has created.\<close>

theorem service_connection:
  assumes "pqxx_store X db work known sql"
  shows "(\<forall>c. db_conn s = Some c \<longrightarrow> c \<in> known w) \<longrightarrow>
    (case DbService_Connect X (s, w) of (r, (s', w')) \<Rightarrow>
      (if Db_IsConnected X s w
       then r = Inl (Fault (Thrown (Already_Connected service_name (pg_GetVerboseName (db_conn_str s))))) \<and> s' = s \<and> w' = w
       else (case r of Inr b \<Rightarrow> b \<and> Db_IsConnected X s' w' \<and> db_conn_str s' = db_conn_str s
         | Inl e \<Rightarrow> s' = s \<and> e \<noteq> Px broken_connection)) \<and>
      db w' = db w \<and> (\<forall>c. db_conn s' = Some c \<longrightarrow> c \<in> known w')) \<and>
    (case DbService_Disconnect X s w of (s', w') \<Rightarrow> \<not> Db_IsConnected X s' w' \<and> db_conn s' = None \<and> db w' = db w)"
proof
  assume k: "\<forall>c. db_conn s = Some c \<longrightarrow> c \<in> known w"
  note laws = pqxx_store.close_other [OF assms] pqxx_store.close_known [OF assms] pqxx_store.close_data [OF assms]
  obtain r w1 where t: "TryConnect X (db_conn_str s) service_name w = (r, w1)" by fastforce
  note tc = pqxx_store.TryConnect_result [OF assms t]
  have "case DbService_Connect X (s, w) of (r, (s', w')) \<Rightarrow>
      (if Db_IsConnected X s w
       then r = Inl (Fault (Thrown (Already_Connected service_name (pg_GetVerboseName (db_conn_str s))))) \<and> s' = s \<and> w' = w
       else (case r of Inr b \<Rightarrow> b \<and> Db_IsConnected X s' w' \<and> db_conn_str s' = db_conn_str s
         | Inl e \<Rightarrow> s' = s \<and> e \<noteq> Px broken_connection)) \<and>
      db w' = db w \<and> (\<forall>c. db_conn s' = Some c \<longrightarrow> c \<in> known w')"
  proof (cases "Db_IsConnected X s w")
    case True
    with k show ?thesis by (simp add: DbService_Connect_def DbService_Reconnect_def sbind_apply Db_IsConnected_def)
  next
    case False
    show ?thesis
    proof (cases r)
      case (Inl e)
      with False t tc(1) tc(3) [OF Inl] k show ?thesis
        by (simp add: DbService_Connect_def DbService_Reconnect_def sbind_apply Db_IsConnected_def)
    next
      case (Inr c)
      from tc(2) [OF Inr] k have "\<forall>c'. db_conn s = Some c' \<longrightarrow> c' \<noteq> c" by auto
      with False t tc(1) tc(2) [OF Inr] Inr laws show ?thesis
        by (cases "db_conn s")
          (auto simp: DbService_Connect_def DbService_Reconnect_def sbind_apply Db_IsConnected_def Db_CheckConnection_def Db_Disconnect_def)
    qed
  qed
  moreover have "case DbService_Disconnect X s w of (s', w') \<Rightarrow> \<not> Db_IsConnected X s' w' \<and> db_conn s' = None \<and> db w' = db w"
    using laws by (cases "db_conn s") (simp_all add: DbService_Disconnect_def Db_Disconnect_def Db_IsConnected_def Db_CheckConnection_def)
  ultimately show "(case DbService_Connect X (s, w) of (r, (s', w')) \<Rightarrow>
      (if Db_IsConnected X s w
       then r = Inl (Fault (Thrown (Already_Connected service_name (pg_GetVerboseName (db_conn_str s))))) \<and> s' = s \<and> w' = w
       else (case r of Inr b \<Rightarrow> b \<and> Db_IsConnected X s' w' \<and> db_conn_str s' = db_conn_str s
         | Inl e \<Rightarrow> s' = s \<and> e \<noteq> Px broken_connection)) \<and>
      db w' = db w \<and> (\<forall>c. db_conn s' = Some c \<longrightarrow> c \<in> known w')) \<and>
    (case DbService_Disconnect X s w of (s', w') \<Rightarrow> \<not> Db_IsConnected X s' w' \<and> db_conn s' = None \<and> db w' = db w)" ..
qed

theorem service_connection_witness:
  "let X = server user_sql (\<lambda>_. None) (\<lambda>_. None) in
   Db_IsConnected X open_service (open_store ([], 0)) \<and>
   \<not> Db_IsConnected X (fst (DbService_Disconnect X open_service (open_store ([], 0)))) (snd (DbService_Disconnect X open_service (open_store ([], 0))))"
  using service_connection [OF server.pqxx_store_axioms [of user_sql "\<lambda>_. None" "\<lambda>_. None"],
      of open_service "open_store ([], 0)", THEN mp, THEN conjunct2]
  by (simp add: open_service_def open_store_def Db_IsConnected_def Db_CheckConnection_def server_def split_beta)

text \<open>What \<open>LIMIT\<close> and \<open>OFFSET\<close> select.\<close>

definition page_rows :: "u64 \<Rightarrow> u64 \<Rightarrow> 'r list \<Rightarrow> 'r list" where
  "page_rows page_num page_size rows = take (unat page_size) (drop (unat ((page_num - 1) * page_size)) rows)"

lemma page_offset:
  assumes "k * unat psize < 2 ^ 64" and "p < k"
  shows "unat ((of_nat (Suc p) - 1) * psize :: u64) = p * unat psize"
proof -
  have "p * unat psize \<le> k * unat psize" using assms(2) by (intro mult_le_mono1) simp
  then have "p * unat psize < 2 ^ 64" using assms(1) by linarith
  moreover have "(of_nat (Suc p) - 1) * psize = (of_nat (p * unat psize) :: u64)" by simp
  ultimately show ?thesis by (simp only: unsigned_of_nat) (simp add: take_bit_nat_eq_self)
qed

lemma take_pages: "concat (map (\<lambda>p. take s (drop (p * s) rows)) [0..<k]) = take (k * s) rows"
proof (induction k)
  case (Suc k)
  have "Suc k * s = k * s + s" by simp
  with Suc show ?case by (simp only: take_add) simp
qed simp

lemma unat_negated: "unat (- n :: u64) = (if n = 0 then 0 else 2 ^ 64 - unat n)"
proof (cases "n = 0")
  case False
  then have n: "uint n \<noteq> 0" "uint n mod 2 ^ 64 = uint n" using uint_bounded [of n] by (simp_all add: word_uint_eq_iff)
  have "uint (- n) = (- uint n) mod 2 ^ 64" using uint_word_ariths(4) [of n] by simp
  also have "\<dots> = 2 ^ 64 - uint n" using n by (simp only: zmod_zminus1_eq_if if_False)
  finally have "unat (- n) = nat (2 ^ 64 - uint n)" by (simp only: unat_eq_nat_uint)
  also have "\<dots> = nat (2 ^ 64) - nat (uint n)" by (rule nat_diff_distrib) (use uint_bounded [of n] in simp_all)
  also have "\<dots> = 2 ^ 64 - unat n" by (simp only: unat_eq_nat_uint) simp
  finally show ?thesis using False by (simp only: if_False)
qed simp



lemma scan_fields_dot:
  assumes "CHR ''.'' \<notin> set s" and "CHR ''.'' \<in> set seps"
  shows "scan_fields seps s = None"
  using assms
proof (induction seps arbitrary: s)
  case (Cons sep seps)
  have sub: "set r \<subseteq> set s" if "scan_decimal s = Some (i, r)" for i r
  proof -
    have "set (dropWhile is_digit t) \<subseteq> set t" for t using set_dropWhileD by fastforce
    moreover have "set (skip_ws s) \<subseteq> set s" unfolding skip_ws_def using set_dropWhileD by fastforce
    ultimately show ?thesis using that
      by (auto simp: scan_decimal_def Let_def split: list.splits if_splits)
  qed
  show ?case
  proof (cases "scan_decimal s")
    case (Some p)
    obtain i r where p: "p = (i, r)" by fastforce
    with Some sub have r: "CHR ''.'' \<notin> set r" using Cons.prems(1) by blast
    then have "CHR ''.'' \<notin> set (skip_ws r)" unfolding skip_ws_def using set_dropWhileD by fastforce
    then show ?thesis using Some p r Cons.IH [of "skip_ws r"] Cons.IH [of "tl r"] Cons.prems(2)
      by (cases r) (auto simp: scan_lit_def split: if_splits option.splits)
  qed simp
qed simp

lemma no_fraction:
  assumes "CHR ''.'' \<notin> set s"
  shows "StrToTimepoint tz s = Inr None"
proof -
  have "scan_fields [CHR ''-'', CHR ''-'', CHR '' '', CHR '':'', CHR '':'', CHR ''.''] s = None"
    by (rule scan_fields_dot [OF assms]) simp
  then show ?thesis by (simp add: StrToTimepoint_def)
qed

lemma get_time_opt_no_fraction:
  "map_of r c = Some (Some t) \<Longrightarrow> CHR ''.'' \<notin> set t \<Longrightarrow>
    get_time_opt tz r c = Inl (Fault (UB ''empty optional dereferenced''))"
  by (simp add: get_time_opt_def field_of_def GetFunctionOpt_def no_fraction deref_def)

lemma get_time_no_fraction:
  "map_of r c = Some (Some t) \<Longrightarrow> CHR ''.'' \<notin> set t \<Longrightarrow>
    get_time tz r c = Inl (Fault (UB ''empty optional dereferenced''))"
  by (simp add: get_time_def get_text_def field_of_def as_string_def no_fraction deref_def)

text \<open>C29: a row whose mandatory time has no fractional part is not readable: the time parser
finds six of its seven fields and returns an empty optional, which the constructors of users,
experiments, iterations and logs dereference.\<close>

theorem whole_second_rows:
  assumes "CHR ''.'' \<notin> set t"
  shows "(map_of r ''created_at'' = Some (Some t) \<longrightarrow> (\<forall>u. User_of_row X tz r \<noteq> Inr u) \<and> (\<forall>e. Experiment_of_row X J tz r \<noteq> Inr e)) \<and>
    (map_of r ''start_time'' = Some (Some t) \<longrightarrow> (\<forall>i. Iteration_of_row X J tz r \<noteq> Inr i)) \<and>
    (map_of r ''timestamp'' = Some (Some t) \<longrightarrow> (\<forall>l. Log_of_row X tz r \<noteq> Inr l)) \<and>
    (map_of r ''last_ping'' = Some (Some t) \<longrightarrow> (\<forall>n. Node_of_row X E tz r \<noteq> Inr n))"
  using get_time_no_fraction [OF _ assms, of r] get_time_opt_no_fraction [OF _ assms, of r "''last_ping''"]
  by (simp add: User_of_row_def Experiment_of_row_def Iteration_of_row_def Log_of_row_def Node_of_row_def rbind_eq_Inr)

theorem whole_second_rows_witness:
  "\<forall>l. Log_of_row (server user_sql (\<lambda>_. Some 3) (\<lambda>_. None)) sample_zone
    [(''log_id'', Some ''3''), (''node_id'', None), (''experiment_id'', None), (''severity'', Some ''info''), (''message'', Some ''m''),
     (''timestamp'', Some ''2025-01-31 12:00:00'')] \<noteq> Inr l"
proof -
  let ?r = "[(''log_id'', Some ''3''), (''node_id'', None), (''experiment_id'', None), (''severity'', Some ''info''), (''message'', Some ''m''),
     (''timestamp'', Some ''2025-01-31 12:00:00'')] :: row"
  have "CHR ''.'' \<notin> set ''2025-01-31 12:00:00''" and "map_of ?r ''timestamp'' = Some (Some ''2025-01-31 12:00:00'')" by simp_all
  from whole_second_rows [OF this(1), THEN conjunct2, THEN conjunct2, THEN conjunct1, THEN mp, OF this(2)] show ?thesis .
qed

end
