(* ===== verification/DbNodes.thy ===== *)
theory DbNodes
  imports DbService
begin

text \<open>
  Nodes of the database and their benchmark scores: the scores registered for a node are the
  ones its record holds.  The locale \<open>node_table\<close> states what the two statements do to the
  table and how the server prints an array of integers.
\<close>

section \<open>The text of an array\<close>

definition array_text :: "u64 list \<Rightarrow> string" where
  "array_text xs = ''{'' @ join '','' (map (\<lambda>x. show_nat (unat x)) xs) @ ''}''"

lemma db_format: "EIGENF E VECTOR_DB_FORMAT = Inr (kEnumTo E ! 4)"
  by (simp add: EIGENF_eq)

lemma db_format_fields [simp]:
  "rowPrefix (kEnumTo E ! 4) = ''{''" "coeffSeparator (kEnumTo E ! 4) = '',''"
  "rowSuffix (kEnumTo E ! 4) @ matSuffix (kEnumTo E ! 4) = ''}''"
  by (simp_all add: kEnumTo_def plain_format_def)

lemma registered_text:
  assumes "eigen_io E efmt" and "xs \<noteq> []"
  shows "rbind (EIGENF E VECTOR_DB_FORMAT) (OneDimToString (\<lambda>x. show_nat (unat x)) efmt xs False) = Inr (array_text xs)"
  using OneDimToString_text [OF assms(1) _ assms(2), of "kEnumTo E ! 4" VECTOR_DB_FORMAT "\<lambda>x. show_nat (unat x)" False]
  by (simp add: db_format array_text_def)

lemma set_join: "set (join sep ss) \<subseteq> set sep \<union> \<Union> (set ` set ss)"
  by (induction sep ss rule: join.induct) auto

lemma array_text_chars: "c \<in> set (array_text xs) \<Longrightarrow> is_digit c \<or> c \<in> set ''{,}''"
  using set_join [of "'',''" "map (\<lambda>x. show_nat (unat x)) xs"] by (auto simp: array_text_def show_nat_digits)

lemma array_text_c_str: "takeWhile (\<lambda>c. c \<noteq> char_of (0 :: nat)) (array_text xs) = array_text xs"
proof (rule takeWhile_eq_all_conv [THEN iffD2], rule ballI)
  fix c assume "c \<in> set (array_text xs)"
  moreover have "\<not> is_digit (char_of (0 :: nat))" "char_of (0 :: nat) \<notin> set ''{,}''"
    by (simp add: is_digit_def) code_simp
  ultimately show "c \<noteq> char_of (0 :: nat)" using array_text_chars by metis
qed

lemma read_array_text:
  assumes "xs \<noteq> []" and "length xs < 2 ^ 64" and "px_array_size X (array_text xs) = Some (length xs)"
  shows "read_bench X E (array_text xs) = Inr xs"
proof -
  let ?f = "kEnumTo E ! 4"
  have f: "?f = kEnumTo E ! format_index VECTOR_DB_FORMAT" by simp
  have "unat (of_nat (length xs) :: u64) = length xs" using assms(2) by (simp add: unsigned_of_nat take_bit_nat_eq_self)
  then have "fst (ParseOneDim scan_size 0 (Some (of_nat (length xs))) ?f (istringstream (array_text xs))) = Inr xs"
    using ParseOneDim_text [of "istringstream (array_text xs)" "[]" ?f "\<lambda>x. show_nat (unat x)" xs "''}''" scan_size "of_nat (length xs)" 0]
      assms(1) exact_u64 table_format(3) [OF f]
    by (simp add: array_text_def is_sep_def)
  then show ?thesis
    using assms(3) by (simp add: read_bench_def db_format ParseOneDimS_def array_text_c_str flt_def)
qed

section \<open>The table\<close>

locale node_table = pqxx_store X db work known sql
  for X :: "('c, 'w) pqxx" and db :: "'w \<Rightarrow> 'd" and work known sql +
  fixes nodes :: "'d \<Rightarrow> u64 \<rightharpoonup> row"
  assumes register_rows: "sql register_query [PStr ip, PStr (array_text xs)] d = (Inr res, d') \<Longrightarrow>
      \<exists>i c t r. res = [[(c, Some t)]] \<and> px_index X t = Some i \<and> nodes d' i = Some r \<and>
        map_of r ''benchmark_score'' = Some (Some (array_text xs))"
    and log_rows: "sql log_query ps d = (Inr res, d') \<Longrightarrow> nodes d' = nodes d"
    and node_rows: "sql node_query [PNum i] d = (Inr res, d') \<Longrightarrow>
      d' = d \<and> res = (case nodes d i of None \<Rightarrow> [] | Some r \<Rightarrow> [r])"
    and array_size: "px_array_size X (array_text xs) = Some (length xs)"
begin

lemma exec_direct: "exec (direct X sql) c q ps d = (Inr res, d') \<longleftrightarrow> sql q ps d = (Inr res, d')"
  by (auto simp: exec_def lift_px_def direct_def split: prod.splits sum.splits)

lemma direct_InnerLog:
  assumes "InnerLog (direct X sql) c e n sev m d = (Inr i, d')"
  shows "nodes d' = nodes d"
  using assms log_rows [of _ d]
  by (auto simp: InnerLog_def ExecuteSubTransaction_def direct_def exec_def lift_px_def sbind_apply split: prod.splits sum.splits)

lemma in_txn_direct:
  assumes "in_txn (direct X sql) s f d = (Inr r, d')"
  shows "\<exists>c. f c d = (Inr r, d')"
  using assms
  by (auto simp: in_txn_def ExecuteTransaction_def Db_CheckConnection_def direct_def lift_px_def sbind_apply
      split: prod.splits sum.splits option.splits if_splits)

lemma direct_register:
  assumes "eigen_io E efmt" and "xs \<noteq> []" and "RegisterNode (direct X sql) E efmt s ip xs d = (Inr i, d')"
  shows "\<exists>r. nodes d' i = Some r \<and> map_of r ''benchmark_score'' = Some (Some (array_text xs))"
proof -
  obtain c where "sbind (exec (direct X sql) c register_query [PStr ip, PStr (array_text xs)]) (\<lambda>res.
      sbind (slift (returned_index X res)) (\<lambda>i.
      sbind (InnerLog (direct X sql) c None (Some i) ''info'' (fmt_format ''Node registered with IP {}'' [ip])) (\<lambda>_. sret i))) d = (Inr i, d')"
    using in_txn_direct [OF assms(3) [unfolded RegisterNode_def]] by (auto simp: registered_text [OF assms(1,2)] flt_def)
  then obtain res d1 m where s: "sql register_query [PStr ip, PStr (array_text xs)] d = (Inr res, d1)"
    and i: "returned_index X res = Inr i"
    and l: "InnerLog (direct X sql) c None (Some i) ''info'' (fmt_format ''Node registered with IP {}'' [ip]) d1 = (Inr m, d')"
    by (auto simp: sbind_eq_Inr exec_direct)
  from register_rows [OF s] obtain i' cn t r where r: "res = [[(cn, Some t)]]" "px_index X t = Some i'" "nodes d1 i' = Some r"
    "map_of r ''benchmark_score'' = Some (Some (array_text xs))" by blast
  with i have "i' = i" by (simp add: returned_index_def one_row_def field_at_def as_index_def as_string_def)
  with r direct_InnerLog [OF l] show ?thesis by auto
qed

lemma direct_GetNode:
  assumes "GetNode (direct X sql) E tz s i d = (Inr nd, d')"
  shows "\<exists>r. nodes d i = Some r \<and> Node_of_row X E tz r = Inr nd \<and> d' = d"
proof -
  from assms obtain res where t: "in_txn (direct X sql) s (\<lambda>txn. sbind (exec (direct X sql) txn node_query [PNum i])
      (\<lambda>_. exec (direct X sql) txn node_query [PNum i])) d = (Inr res, d')"
    and n: "rbind (row_at res 0) (Node_of_row X E tz) = Inr nd"
    by (auto simp: GetNode_def sbind_eq_Inr)
  from in_txn_direct [OF t] obtain res1 d1 where "sql node_query [PNum i] d = (Inr res1, d1)" "sql node_query [PNum i] d1 = (Inr res, d')"
    by (auto simp: sbind_eq_Inr exec_direct)
  then have "d' = d" "res = (case nodes d i of None \<Rightarrow> [] | Some r \<Rightarrow> [r])" using node_rows by metis+
  with n show ?thesis by (auto simp: row_at_def split: option.splits)
qed

lemma GetNode_follows: "follows db (GetNode X E tz s i) (GetNode (direct X sql) E tz s i)"
  unfolding GetNode_def direct_rows
  by (intro follows_sbind follows_slift) (auto simp: in_txn_def intro!: transaction_follows follows_sbind exec_follows)

end

section \<open>An executable table\<close>

text \<open>The rows in the order of their identifiers; a server gives no identifier twice and stops
when they are exhausted.\<close>

definition new_row :: "nat \<Rightarrow> string \<Rightarrow> string \<Rightarrow> row" where
  "new_row n ip t = [(''node_id'', Some (show_nat n)), (''ip_address'', Some ip), (''benchmark_score'', Some t),
     (''status'', Some ''active''), (''last_ping'', None)]"

definition node_sql :: "string \<Rightarrow> sql_param list \<Rightarrow> (row list, px_error, ResType) action" where
  "node_sql q ps rows =
    (if q = register_query \<and> length rows < 2 ^ 64
     then (case ps of
         [PStr ip, PStr t] \<Rightarrow> (Inr [[(''node_id'', Some (show_nat (length rows)))]], rows @ [new_row (length rows) ip t])
       | _ \<Rightarrow> (Inl (sql_error ''parameters'' q ''08P01''), rows))
     else if q = node_query
     then (Inr (case ps of [PNum i] \<Rightarrow> (if unat i < length rows then [rows ! unat i] else []) | _ \<Rightarrow> []), rows)
     else if q = log_query then (Inr [[(''log_id'', Some (show_nat 0))]], rows)
     else (Inl (sql_error ''no such statement'' q ''42601''), rows))"

definition row_of :: "row list \<Rightarrow> u64 \<rightharpoonup> row" where
  "row_of rows i = (if unat i < length rows then Some (rows ! unat i) else None)"

definition text_index :: "string \<Rightarrow> u64 option" where
  "text_index s = Some (of_nat (read_digits s))"

definition text_size :: "string \<Rightarrow> nat option" where
  "text_size s = Some (length (filter (\<lambda>c. c = CHR '','') s) + (if s = ''{}'' then 0 else 1))"

lemma commas_join:
  "(\<And>s. s \<in> set ss \<Longrightarrow> CHR '','' \<notin> set s) \<Longrightarrow> length (filter (\<lambda>c. c = CHR '','') (join '','' ss)) = length ss - 1"
proof (induction "'',''" ss rule: join.induct)
  case (3 x y xs)
  then have "filter (\<lambda>c. c = CHR '','') x = []" by (auto simp: filter_empty_conv)
  with 3 show ?case by simp
qed (auto simp: filter_empty_conv)

lemma text_size_array: "text_size (array_text xs) = Some (length xs)"
proof -
  have "CHR '','' \<notin> set (show_nat n)" for n using show_nat_digits [of "CHR '',''" n] by (auto simp: is_digit_def)
  then have "length (filter (\<lambda>c. c = CHR '','') (array_text xs)) = length xs - 1"
    using commas_join [of "map (\<lambda>x. show_nat (unat x)) xs"] by (auto simp: array_text_def)
  moreover have "array_text xs = ''{}'' \<longleftrightarrow> xs = []"
  proof (cases xs)
    case (Cons x ys)
    then have "join '','' (map (\<lambda>x. show_nat (unat x)) xs) \<noteq> []" by (cases ys) simp_all
    with Cons show ?thesis by (simp add: array_text_def)
  qed (simp add: array_text_def)
  ultimately show ?thesis by (cases xs) (simp_all add: text_size_def)
qed

lemma node_queries: "node_query \<noteq> register_query" "log_query \<noteq> register_query" "log_query \<noteq> node_query"
  by (simp_all add: node_query_def register_query_def log_query_def)

lemma node_sql_register:
  "length rows < 2 ^ 64 \<Longrightarrow> node_sql register_query [PStr ip, PStr t] rows =
     (Inr [[(''node_id'', Some (show_nat (length rows)))]], rows @ [new_row (length rows) ip t])"
  and node_sql_register_full: "\<not> length rows < 2 ^ 64 \<Longrightarrow> \<exists>e. node_sql register_query ps rows = (Inl e, rows)"
  and node_sql_log: "node_sql log_query ps rows = (Inr [[(''log_id'', Some (show_nat 0))]], rows)"
  and node_sql_node: "node_sql node_query [PNum i] rows = (Inr (if unat i < length rows then [rows ! unat i] else []), rows)"
  using node_queries by (auto simp: node_sql_def)

interpretation nodes: node_table "server node_sql text_index text_size" committed working "\<lambda>w. {..<created w}" node_sql row_of
proof unfold_locales
  fix ip xs d res d'
  assume run: "node_sql register_query [PStr ip, PStr (array_text xs)] d = (Inr res, d')"
  have n: "length d < 2 ^ 64"
  proof (rule ccontr)
    assume "\<not> length d < 2 ^ 64"
    then obtain e where "node_sql register_query [PStr ip, PStr (array_text xs)] d = (Inl e, d)"
      using node_sql_register_full by blast
    with run show False by simp
  qed
  then have u: "unat (of_nat (length d) :: u64) = length d" by (simp add: unsigned_of_nat take_bit_nat_eq_self)
  show "\<exists>i c t r. res = [[(c, Some t)]] \<and> px_index (server node_sql text_index text_size) t = Some i \<and>
      row_of d' i = Some r \<and> map_of r ''benchmark_score'' = Some (Some (array_text xs))"
    using run u
    by (intro exI [of _ "of_nat (length d)"] exI [of _ "''node_id''"] exI [of _ "show_nat (length d)"]
        exI [of _ "new_row (length d) ip (array_text xs)"])
      (auto simp: node_sql_register [OF n] server_def text_index_def row_of_def new_row_def)
qed (auto simp: node_sql_log node_sql_node row_of_def server_def text_size_array)

section \<open>Properties\<close>

text \<open>C27: the benchmark scores registered for a node are the scores of the record that a later
call reads for the identifier returned, whatever number of 64-bit scores there is, as long as no
other statement has changed the database in between; a record is only ever read for a stored
node.\<close>

theorem node_scores_round_trip:
  assumes "node_table X db work known sql nodes" and "eigen_io E efmt" and "xs \<noteq> []" and "length xs < 2 ^ 64"
  shows "RegisterNode X E efmt s ip xs w = (Inr i, w1) \<and> db w2 = db w1 \<and> GetNode X E tz s' j w2 = (Inr nd, w3) \<longrightarrow>
    nodes (db w1) j \<noteq> None \<and> (j = i \<longrightarrow> benchmark_score nd = xs)"
proof
  assume a: "RegisterNode X E efmt s ip xs w = (Inr i, w1) \<and> db w2 = db w1 \<and> GetNode X E tz s' j w2 = (Inr nd, w3)"
  have st: "pqxx_store X db work known sql" using assms(1) by (simp add: node_table_def)
  have "RegisterNode (direct X sql) E efmt s ip xs (db w) = (Inr i, db w1)"
    using a pqxx_store.nodes_all_or_nothing(1) [OF st] unfolding all_or_nothing_def follows_def by blast
  then obtain r where r: "nodes (db w1) i = Some r" "map_of r ''benchmark_score'' = Some (Some (array_text xs))"
    using node_table.direct_register [OF assms(1-3)] by blast
  have "GetNode (direct X sql) E tz s' j (db w2) = (Inr nd, db w3)"
    using a node_table.GetNode_follows [OF assms(1)] unfolding follows_def by blast
  then obtain q where q: "nodes (db w1) j = Some q" "Node_of_row X E tz q = Inr nd"
    using node_table.direct_GetNode [OF assms(1)] a by metis
  have "read_bench X E (array_text xs) = Inr xs"
    using read_array_text [OF assms(3,4)] node_table.array_size [OF assms(1)] by blast
  then have "benchmark_score nd = xs" if "j = i"
    using q r that by (auto simp: Node_of_row_def rbind_eq_Inr get_text_def field_of_def as_string_def of_opt_def)
  with q show "nodes (db w1) j \<noteq> None \<and> (j = i \<longrightarrow> benchmark_score nd = xs)" by simp
qed

theorem node_scores_round_trip_witness:
  "let X = server node_sql text_index text_size; E = \<lparr>StreamPrecision = - 1, DontAlignCols = 1\<rparr>;
       p = RegisterNode X E eigen_model open_service ''10.0.0.1'' [3, 5] (open_store [])
   in fst p = Inr 0 \<and> (\<exists>nd w3. GetNode X E sample_zone open_service 0 (snd p) = (Inr nd, w3) \<and> benchmark_score nd = [3, 5])"
proof -
  let ?X = "server node_sql text_index text_size" and ?E = "\<lparr>StreamPrecision = - 1, DontAlignCols = 1\<rparr>"
  let ?t = "array_text [3, 5]" and ?w = "open_store [] :: row list store"
  let ?r = "new_row 0 ''10.0.0.1'' ?t"
  note ev = in_txn_def ExecuteTransaction_def Db_CheckConnection_def open_service_def open_store_def server_def
        exec_def lift_px_def sbind_apply row_at_def field_at_def as_string_def as_index_def working_def text_index_def
  have reg: "RegisterNode ?X ?E eigen_model open_service ''10.0.0.1'' [3, 5] ?w = (Inr 0, open_store [?r])"
    unfolding RegisterNode_def registered_text [OF eigen_model.eigen_io_axioms list.distinct(2)]
    by (simp add: ev InnerLog_def ExecuteSubTransaction_def node_sql_register node_sql_log flt_def returned_index_def one_row_def
        first_index_def)
  have "read_bench ?X ?E ?t = Inr [3, 5]" by (rule read_array_text) (simp_all add: server_def text_size_array)
  moreover have "StrToEnum ''active'' kStrToNodeSt = Inr DN_ACTIVE"
    unfolding kStrToNodeSt_def by (simp add: dbNodeStatus.StrToEnum_Inr) (rule dbNodeStatus.str_of_eqI [symmetric], simp add: kNodeStMappings_def)
  ultimately obtain nd where "Node_of_row ?X ?E sample_zone ?r = Inr nd"
    by (simp add: Node_of_row_def get_index_def get_text_def get_enum_def get_time_opt_def field_of_def new_row_def as_index_def
        as_string_def GetFunctionOpt_def flt_def) (simp add: server_def text_index_def)
  then obtain w3 where get: "GetNode ?X ?E sample_zone open_service 0 (open_store [?r]) = (Inr nd, w3)"
    by (simp add: GetNode_def ev node_sql_node)
  from node_scores_round_trip [OF nodes.node_table_axioms eigen_model.eigen_io_axioms, of "[3, 5]" open_service "''10.0.0.1''" ?w 0
      "open_store [?r]" "open_store [?r]" sample_zone open_service 0 nd w3] reg get
  have "benchmark_score nd = [3, 5]" by simp
  with reg get show ?thesis by (simp add: Let_def)
qed

end
