(* ===== verification/Experiments.thy ===== *)
theory Experiments
  imports Benchmark PrintParse
begin

text \<open>
  The two simulation programs of the client: \<open>coordGenerate.cpp\<close>, which averages the intensity
  of many random configurations in one of five modes, and the callbacks of \<open>avgsTest.cpp\<close>.
  Drawn coordinates, the LU solver, the quadrature and the text of a number are arguments; the
  clock readings the first program prints and the images are left out; \<open>Startup\<close> holds its
  arguments and directories.  Loops under OpenMP run in order, on the copies the directive gives a thread.
\<close>

section \<open>One configuration, integrated over a period\<close>

definition kRr :: real where
  "kRr = 2 * pi / param_omega"

definition solve_and_integrate ::
    "quadrature \<Rightarrow> lu_solver \<Rightarrow> real list \<Rightarrow> Dipoles \<times> MeshCreator \<Rightarrow> fault + Dipoles \<times> MeshCreator" where
  "solve_and_integrate gk lu coordinates = (\<lambda>(dipoles1, mesh).
    rbind (SetNewCoordinates (Flat coordinates) dipoles1) (\<lambda>dipoles1.
    rbind (Solve_EigenVec lu dipoles1) (\<lambda>solution.
      let dipoles1 = GetFullFunction (Flat coordinates) solution dipoles1
      in rbind (GetIfunction dipoles1) (\<lambda>f.
           case ApplyIntegrate gk f 0 kRr mesh of (Inl e, _) \<Rightarrow> Inl e | (Inr _, mesh) \<Rightarrow> Inr (dipoles1, mesh)))))"

section \<open>The sum over the configurations\<close>

type_synonym sim_state = "(Dipoles \<times> MeshCreator) \<times> real list"

definition sum_step ::
    "(real list \<Rightarrow> Dipoles \<times> MeshCreator \<Rightarrow> fault + Dipoles \<times> MeshCreator) \<Rightarrow> real list \<Rightarrow> sim_state \<Rightarrow> fault + sim_state" where
  "sum_step step xs = (\<lambda>(dm, result). rbind (step xs dm) (\<lambda>(d, mesh).
     rbind (AddMesh result (data mesh ! 2)) (\<lambda>result. Inr ((d, mesh), result))))"

definition GetString :: "string \<Rightarrow> string \<Rightarrow> nat \<Rightarrow> string \<Rightarrow> string" where
  "GetString dirname name i end_part = dirname @ name @ ''_i'' @ show_nat i @ ''.'' @ end_part"

definition simulation_title :: string where
  "simulation_title = map char_of [208, 152, 209, 130, 208, 181, 209, 128, 208, 176, 209, 134, 208, 184, 209, 143, 32, 209, 129,
     208, 184, 208, 188, 209, 131, 208, 187, 209, 143, 209, 134, 208, 184, 208, 184, 32, 105, 32, 61, 32 :: nat]"

text \<open>The printing mode also writes a text file per configuration.\<close>

definition print_step ::
    "lu_solver \<Rightarrow> (real \<Rightarrow> string) \<Rightarrow> string \<Rightarrow> nat \<times> real list \<Rightarrow> sim_state \<times> (string \<times> string) list \<Rightarrow>
     fault + sim_state \<times> (string \<times> string) list" where
  "print_step lu put dirname = (\<lambda>(i, xs) (((d, mesh), result), files).
    rbind (SetNewCoordinates (Flat xs) d) (\<lambda>d.
    rbind (Solve_EigenVec lu d) (\<lambda>solution.
      let d = GetFullFunction (Flat xs) solution d
      in rbind (GetI2Function d) (\<lambda>f.
           case ApplyFunction f mesh of
             (Inl e, _) \<Rightarrow> Inl e
           | (Inr _, mesh) \<Rightarrow>
               rbind (AddMesh result (data mesh ! 2)) (\<lambda>result.
               rbind (PrintDec put mesh) (\<lambda>table.
                 Inr (((d, mesh), result), files @ [(GetString dirname ''sim'' i ''txt'',
                   simulation_title @ show_nat i @ newline @ newline @ PrintCoordinates2 put xs @ newline @
                   PrintSolutionFormat1 put solution @ newline @ newline @ table)])))))))"

section \<open>The program\<close>

text \<open>The mode is looked up without a check: an unknown name dereferences the end iterator.\<close>

definition mode_of :: "string option \<Rightarrow> fault + StateT" where
  "mode_of arg = (case arg of None \<Rightarrow> Inr ST_OPENMP_NEW
     | Some mode \<Rightarrow> of_opt (UB ''end iterator dereferenced'') (kStringToState mode))"

text \<open>\<open>a_text\<close> is the range as the stream prints it.\<close>

definition experiment_dir :: "string \<Rightarrow> int \<Rightarrow> int \<Rightarrow> string \<Rightarrow> string \<Rightarrow> string" where
  "experiment_dir subdirectory n nsym a_text mode =
    ''results/'' @ subdirectory @ ''experiment_N='' @ show_int n @ ''_Nsym='' @ show_int nsym @ ''_a='' @
    map (\<lambda>c. if c = CHR ''-'' then CHR ''_'' else c) (filter (\<lambda>c. c \<noteq> CHR ''+'') (a_text @ ''.csv'')) @
    ''_mode='' @ mode @ ''/''"

text \<open>
  The loop of a mode.  \<open>firstprivate\<close> copies the prepared objects, \<open>private\<close> leaves the thread
  default-constructed ones, whose mesh has no grid.  The mesh used afterwards is the outer one.
\<close>

definition run_mode ::
    "quadrature \<Rightarrow> lu_solver \<Rightarrow> (real \<Rightarrow> string) \<Rightarrow> string \<Rightarrow> StateT \<Rightarrow> real list list \<Rightarrow> Dipoles \<Rightarrow> MeshCreator \<Rightarrow>
     fault + (MeshCreator \<times> real list) \<times> (string \<times> string) list" where
  "run_mode gk lu put dirname state coordinates dipoles1 mesh =
    (let result = data mesh ! 2; outer = (\<lambda>(dm, res). Inr ((mesh, res), [])); own = (\<lambda>((d, m), res). Inr ((m, res), []))
     in case state of
          ST_OPENMP_NEW \<Rightarrow> rbind (in_parallel (rfold (sum_step (solve_and_map lu)) coordinates ((dipoles1, mesh), result))) outer
        | ST_NEW \<Rightarrow> rbind (rfold (sum_step (solve_and_map lu)) coordinates ((dipoles1, mesh), result)) own
        | ST_OLD \<Rightarrow> rbind (rfold (sum_step (solve_and_integrate gk lu)) coordinates ((dipoles1, mesh), result)) own
        | ST_OPENMP_OLD \<Rightarrow> rbind (in_parallel (rfold (sum_step (solve_and_integrate gk lu)) coordinates
              ((new_Dipoles, new_MeshCreator True), result))) outer
        | ST_PRINT \<Rightarrow> rbind (rfold (print_step lu put dirname) (enumerate 0 coordinates) (((dipoles1, mesh), result), []))
              (\<lambda>(((d, m), res), files). Inr ((m, res), files)))"

definition average_title :: "nat \<Rightarrow> nat \<Rightarrow> string" where
  "average_title nsym n =
    map char_of [208, 151, 208, 189, 208, 176, 209, 135, 208, 181, 208, 189, 208, 184, 208, 181, 32, 32, 209, 134, 208, 181,
      208, 187, 208, 181, 208, 178, 208, 190, 208, 185, 32, 209, 132, 209, 131, 208, 189, 208, 186, 209, 134, 208, 184, 208,
      184, 32, 209, 131, 209, 129, 209, 128, 208, 181, 208, 180, 208, 189, 209, 145, 208, 189, 208, 189, 208, 190, 208, 185,
      32, 208, 191, 208, 190, 32 :: nat] @ show_nat nsym @
    map char_of [32, 209, 129, 208, 184, 208, 188, 209, 131, 208, 187, 209, 143, 209, 134, 208, 184, 209, 143, 208, 188, 32 :: nat] @
    map char_of [208, 180, 208, 187, 209, 143, 32, 208, 186, 208, 190, 208, 189, 209, 132, 208, 184, 208, 179, 209, 131, 209,
      128, 208, 176, 209, 134, 208, 184, 208, 185, 44, 32, 209, 129, 208, 190, 209, 129, 209, 130, 208, 190, 209, 143, 209,
      137, 208, 184, 209, 133, 32, 208, 184, 208, 183, 32 :: nat] @ show_nat n @
    map char_of [32, 208, 180, 208, 184, 208, 191, 208, 190, 208, 187, 208, 181, 208, 185 :: nat] @ newline"

text \<open>The averaged mesh and the files written; the first configuration is read unconditionally.\<close>

definition coordGenerate ::
    "quadrature \<Rightarrow> lu_solver \<Rightarrow> (real \<Rightarrow> string) \<Rightarrow> string \<Rightarrow> StateT \<Rightarrow> nat \<Rightarrow> real list list \<Rightarrow>
     fault + MeshCreator \<times> (string \<times> string) list" where
  "coordGenerate gk lu put dirname state n coordinates =
    (case coordinates of
       [] \<Rightarrow> Inl (UB ''vector index out of bounds'')
     | xs # _ \<Rightarrow>
         rbind (Dipoles_of (Flat xs)) (\<lambda>dipoles1.
         rbind start_mesh (\<lambda>mesh.
         rbind (run_mode gk lu put dirname state coordinates dipoles1 mesh) (\<lambda>((mesh, result), files).
           let mesh = mesh\<lparr>data := (data mesh)[2 := map (\<lambda>r. r / of_nat (length coordinates)) result]\<rparr>
           in rbind (PrintDec put mesh) (\<lambda>table.
                Inr (mesh, files @ [(dirname @ ''avg.txt'', average_title (length coordinates) n @ table)]))))))"

section \<open>The callbacks of avgsTest.cpp\<close>

definition plot_one ::
    "lu_solver \<Rightarrow> (real \<Rightarrow> string) \<Rightarrow> eigen_printer \<Rightarrow> EFormat \<Rightarrow> real list \<Rightarrow> fault + string" where
  "plot_one lu put efmt default_format coordinates =
    (case ConstructMeshes_opt (Some (28, 100)) None (new_MeshCreator True) of
       (Inl e, _) \<Rightarrow> Inl e
     | (Inr _, ms) \<Rightarrow> rbind (solve_and_map lu coordinates (new_Dipoles, ms)) (\<lambda>(d, ms).
         PrintMesh put efmt ms HUMAN_READABLE True True default_format))"

text \<open>With no iterations the sum of zeros is divided by zero.\<close>

definition average_of ::
    "lu_solver \<Rightarrow> real list list \<Rightarrow> fault + MeshCreator" where
  "average_of lu drawn =
    rbind start_mesh (\<lambda>sm. rbind start_mesh (\<lambda>ms.
    rbind (rfold (sum_step (solve_and_map lu)) drawn ((new_Dipoles, ms), data sm ! 2)) (\<lambda>(dm, res).
      if drawn = [] then Inl (NonFinite ''average of no iterations'')
      else Inr (sm\<lparr>data := (data sm)[2 := map (\<lambda>r. r / of_nat (length drawn)) res]\<rparr>))))"

section \<open>The loops on the default grid\<close>

definition grid_ok :: "MeshCreator \<Rightarrow> bool" where
  "grid_ok m \<longleftrightarrow> on_grid kDefaultDims kDefaultLims m \<and> dimensions m = kDefaultDims"

lemma start_mesh_ok: "\<exists>ms. start_mesh = Inr ms \<and> grid_ok ms \<and> data ms ! 2 = replicate 175 0"
proof -
  obtain ms where ms: "start_mesh = Inr ms" "on_grid kDefaultDims kDefaultLims ms" using start_mesh_on_grid by blast
  then obtain u where "ConstructMeshes_opt None None (new_MeshCreator True) = (Inr u, ms)"
    by (auto simp: start_mesh_def split: prod.splits sum.splits)
  then have "dimensions ms = kDefaultDims \<and> data ms ! 2 = replicate 175 0"
    by (cases u) (auto simp: ConstructMeshes_opt_def ConstructMeshes_Inr new_MeshCreator_def kDefaultDims_def nth_list_update)
  with ms show ?thesis by (auto simp: grid_ok_def)
qed

lemma grid_ok_update: "grid_ok m \<Longrightarrow> grid_ok (m\<lparr>data := (data m)[2 := r]\<rparr>)"
  by (simp add: grid_ok_def ApplyFunction_on_grid(2))

lemma grid_lengths: "grid_ok m \<Longrightarrow> length (data m) = 3 \<and> length (data m ! 0) = 175 \<and> length (data m ! 1) = 175"
  by (simp add: grid_ok_def on_grid_def kDefaultDims_def)

lemma PrintDec_defined:
  assumes "grid_ok m" and "length (data m ! 2) = 175"
  shows "\<exists>t. PrintDec put m = Inr t"
proof -
  note g = grid_lengths [OF assms(1)]
  have d: "dimensions m = (7, 25)" using assms(1) by (simp add: grid_ok_def kDefaultDims_def)
  have 1: "\<exists>row. rmap (\<lambda>i. rbind (va_get (data m ! 1) (i * 25)) (\<lambda>v. Inr (put v))) [0..<7] = Inr row"
    by (rule exI, rule rmap_all_Inr [where g = "\<lambda>i. put (data m ! 1 ! (i * 25))"]) (use g in auto)
  have cells: "rmap (\<lambda>j. rbind (va_get (data m ! 2) (j * 25 + i)) (\<lambda>v. Inr (put v))) [0..<7] =
      Inr (map (\<lambda>j. put (data m ! 2 ! (j * 25 + i))) [0..<7])" if "i < 25" for i
    by (rule rmap_all_Inr) (use that assms(2) in auto)
  have "\<exists>lines. rmap (\<lambda>i. rbind (va_get (data m ! 0) i) (\<lambda>phi.
      rbind (rmap (\<lambda>j. rbind (va_get (data m ! 2) (j * 25 + i)) (\<lambda>v. Inr (put v))) [0..<7])
        (\<lambda>cells. Inr (put phi @ tab @ join tab cells @ newline)))) [0..<25] = Inr lines"
    by (rule exI, rule rmap_all_Inr [where g = "\<lambda>i. put (data m ! 0 ! i) @ tab @
        join tab (map (\<lambda>j. put (data m ! 2 ! (j * 25 + i))) [0..<7]) @ newline"]) (use g cells in auto)
  with 1 show ?thesis by (auto simp: PrintDec_def d)
qed

lemma sum_step_pattern:
  assumes "usable d" and "xs \<noteq> []" and "grid_ok m" and "length res = 175"
  shows "case pattern lu xs of Inl e \<Rightarrow> sum_step (solve_and_map lu) xs ((d, m), res) = Inl e
    | Inr p \<Rightarrow> \<exists>d' m'. sum_step (solve_and_map lu) xs ((d, m), res) = Inr ((d', m'), map2 (+) res p) \<and> usable d' \<and>
        grid_ok m' \<and> data m' ! 2 = p"
proof -
  have g: "on_grid kDefaultDims kDefaultLims m" using assms(3) by (simp add: grid_ok_def)
  have len: "length (data m) = 3" using grid_lengths [OF assms(3)] by simp
  show ?thesis
    using solve_and_map_pattern [OF assms(1,2) g, of lu] grid_ok_update [OF assms(3)] len assms(4)
    by (auto simp: sum_step_def AddMesh_def pattern_length split: sum.splits)
qed

definition pat :: "lu_solver \<Rightarrow> real list \<Rightarrow> real list" where
  "pat lu xs = projr (pattern lu xs)"

definition has_pattern :: "lu_solver \<Rightarrow> real list \<Rightarrow> bool" where
  "has_pattern lu xs \<longleftrightarrow> (\<exists>p. pattern lu xs = Inr p)"

lemma has_pattern_pat: "has_pattern lu xs \<Longrightarrow> pattern lu xs = Inr (pat lu xs)"
  by (auto simp: has_pattern_def pat_def)

lemma length_map2_pattern: "length res = 175 \<Longrightarrow> pattern lu xs = Inr p \<Longrightarrow> length (map2 (+) res p) = 175"
  by (simp add: pattern_length)

lemma sum_loop:
  assumes "usable d" and "\<forall>xs\<in>set xss. xs \<noteq> []" and "grid_ok m" and "length res = 175"
  shows "if \<forall>xs\<in>set xss. has_pattern lu xs
    then \<exists>d' m'. rfold (sum_step (solve_and_map lu)) xss ((d, m), res) = Inr ((d', m'), foldl (map2 (+)) res (map (pat lu) xss)) \<and> grid_ok m'
    else \<exists>e. rfold (sum_step (solve_and_map lu)) xss ((d, m), res) = Inl e"
  using assms
proof (induction xss arbitrary: d m res)
  case (Cons xs xss)
  then have ne: "xs \<noteq> []" by simp
  note st = sum_step_pattern [OF Cons.prems(1) ne Cons.prems(3,4), of lu]
  show ?case
  proof (cases "pattern lu xs")
    case (Inl e)
    with st show ?thesis by (auto simp: has_pattern_def)
  next
    case (Inr p)
    with st obtain d' m' where s: "sum_step (solve_and_map lu) xs ((d, m), res) = Inr ((d', m'), map2 (+) res p)" "usable d'" "grid_ok m'"
      by auto
    have "has_pattern lu xs" "pat lu xs = p" using Inr by (auto simp: has_pattern_def pat_def)
    with Cons.IH [OF s(2) _ s(3) length_map2_pattern [OF Cons.prems(4) Inr]] Cons.prems(2) s(1) show ?thesis by simp
  qed
qed auto

lemma print_step_sum:
  assumes "usable d" and "xs \<noteq> []" and "grid_ok m" and "length res = 175"
  shows "case sum_step (solve_and_map lu) xs ((d, m), res) of Inl e \<Rightarrow> print_step lu put dir (i, xs) (((d, m), res), files) = Inl e
    | Inr s \<Rightarrow> \<exists>t. print_step lu put dir (i, xs) (((d, m), res), files) = Inr (s, files @ [(GetString dir ''sim'' i ''txt'', t)])"
proof -
  have table: "\<exists>t. PrintDec put m' = Inr t" if "grid_ok m'" "length (data m' ! 2) = 175" for m'
    by (rule PrintDec_defined [OF that])
  show ?thesis
  proof (cases "pattern lu xs")
    case (Inl e)
    with sum_step_pattern [OF assms, of lu] show ?thesis
      by (auto simp: print_step_def sum_step_def solve_and_map_def Let_def rbind_def AddMesh_def split: sum.splits prod.splits)
  next
    case (Inr p)
    with sum_step_pattern [OF assms, of lu] obtain d' m' where s: "sum_step (solve_and_map lu) xs ((d, m), res) = Inr ((d', m'), map2 (+) res p)"
      "grid_ok m'" "data m' ! 2 = p" by auto
    with table [OF s(2)] pattern_length [OF Inr] obtain t where "PrintDec put m' = Inr t" by auto
    with s(1) show ?thesis
      by (auto simp: print_step_def sum_step_def solve_and_map_def Let_def rbind_def split: sum.splits prod.splits)
  qed
qed

lemma print_loop:
  assumes "usable d" and "\<forall>xs\<in>set xss. xs \<noteq> []" and "grid_ok m" and "length res = 175"
  shows "case rfold (sum_step (solve_and_map lu)) xss ((d, m), res) of
      Inl e \<Rightarrow> rfold (print_step lu put dir) (enumerate i xss) (((d, m), res), files) = Inl e
    | Inr s \<Rightarrow> \<exists>fs. rfold (print_step lu put dir) (enumerate i xss) (((d, m), res), files) = Inr (s, files @ fs) \<and>
        map fst fs = map (\<lambda>k. GetString dir ''sim'' k ''txt'') [i..<i + length xss]"
  using assms
proof (induction xss arbitrary: d m res i files)
  case (Cons xs xss)
  then have ne: "xs \<noteq> []" by simp
  note st = sum_step_pattern [OF Cons.prems(1) ne Cons.prems(3,4), of lu]
  note pr = print_step_sum [OF Cons.prems(1) ne Cons.prems(3,4), of lu put dir i files]
  show ?case
  proof (cases "pattern lu xs")
    case (Inl e)
    with st pr show ?thesis by (simp add: enumerate_simps)
  next
    case (Inr p)
    with st obtain d' m' where s: "sum_step (solve_and_map lu) xs ((d, m), res) = Inr ((d', m'), map2 (+) res p)" "usable d'" "grid_ok m'"
      by auto
    with pr obtain t where t: "print_step lu put dir (i, xs) (((d, m), res), files) =
        Inr (((d', m'), map2 (+) res p), files @ [(GetString dir ''sim'' i ''txt'', t)])" by auto
    have "\<forall>xs\<in>set xss. xs \<noteq> []" using Cons.prems(2) by simp
    from Cons.IH [OF s(2) this s(3) length_map2_pattern [OF Cons.prems(4) Inr], of "Suc i" "files @ [(GetString dir ''sim'' i ''txt'', t)]"]
    show ?thesis using s(1) t
      by (auto simp: enumerate_simps upt_conv_Cons simp del: upt_Suc split: sum.splits)
  qed
qed (simp add: enumerate_simps)

lemma run_mode_new:
  assumes "usable d" and "\<forall>xs\<in>set xss. xs \<noteq> []" and "grid_ok m" and "data m ! 2 = replicate 175 0"
    and "st \<in> {ST_NEW, ST_OPENMP_NEW, ST_PRINT}"
  shows "if \<forall>xs\<in>set xss. has_pattern lu xs
    then \<exists>m' fs. run_mode gk lu put dir st xss d m = Inr ((m', foldl (map2 (+)) (replicate 175 0) (map (pat lu) xss)), fs) \<and> grid_ok m' \<and>
      map fst fs = (if st = ST_PRINT then map (\<lambda>k. GetString dir ''sim'' k ''txt'') [0..<length xss] else [])
    else \<exists>e. run_mode gk lu put dir st xss d m = Inl e"
proof -
  have len: "length (replicate 175 (0 :: real)) = 175" by simp
  note loop = sum_loop [OF assms(1-3) len, of lu]
  note pr = print_loop [OF assms(1-3) len, of lu put dir 0 "[]"]
  show ?thesis
  proof (cases "\<forall>xs\<in>set xss. has_pattern lu xs")
    case True
    with loop obtain d' m' where r: "rfold (sum_step (solve_and_map lu)) xss ((d, m), replicate 175 0) =
        Inr ((d', m'), foldl (map2 (+)) (replicate 175 0) (map (pat lu) xss))" "grid_ok m'" by auto
    with pr True assms(3-5) show ?thesis by (auto simp: run_mode_def Let_def)
  next
    case False
    with loop obtain e where r: "rfold (sum_step (solve_and_map lu)) xss ((d, m), replicate 175 0) = Inl e" by auto
    with pr False assms(4,5) show ?thesis by (auto simp: run_mode_def Let_def in_parallel_def rbind_def split: fault.splits)
  qed
qed

lemma coordGenerate_run:
  "Dipoles_of (Flat xs) = Inr d \<Longrightarrow> start_mesh = Inr ms \<Longrightarrow> coordGenerate gk lu put dir st n (xs # yss) =
    rbind (run_mode gk lu put dir st (xs # yss) d ms) (\<lambda>((m, res), files).
      let m = m\<lparr>data := (data m)[2 := map (\<lambda>r. r / of_nat (length (xs # yss))) res]\<rparr>
      in rbind (PrintDec put m) (\<lambda>table. Inr (m, files @ [(dir @ ''avg.txt'', average_title (length (xs # yss)) n @ table)])))"
  unfolding coordGenerate_def list.case by (erule ssubst, subst rbind_Inr, erule ssubst, subst rbind_Inr, rule refl)

section \<open>The loop on default-constructed objects\<close>

definition flat_mesh :: "MeshCreator \<Rightarrow> bool" where
  "flat_mesh m \<longleftrightarrow> length (data m) = 3 \<and> data m ! 0 = replicate 175 0 \<and> data m ! 1 = replicate 175 0"

lemma flat_mesh_new: "flat_mesh (new_MeshCreator True)"
  by (simp add: flat_mesh_def new_MeshCreator_def kDefaultDims_def)

lemma integrate_flat:
  assumes "flat_mesh m"
  shows "\<exists>c. ApplyIntegrate gk f a b m = (Inr (), m\<lparr>data := (data m)[2 := replicate 175 c]\<rparr>)"
proof -
  have "ComputeFunction (data m ! 0) (data m ! 1) func = Inr (replicate 175 (func 0 0))" for func
    unfolding ComputeFunction_Inr using assms by (simp add: flat_mesh_def)
  then show ?thesis by (auto simp: ApplyIntegrate_def ApplyFunction_def)
qed

lemma sum_step_flat:
  assumes "usable d" and "xs \<noteq> []" and "flat_mesh m" and "has_pattern lu xs"
  shows "\<exists>d' m' c'. sum_step (solve_and_integrate gk lu) xs ((d, m), replicate 175 c) = Inr ((d', m'), replicate 175 c') \<and>
    usable d' \<and> flat_mesh m'"
proof -
  from assms(4) obtain d1 sol where d1: "Dipoles_of (Flat xs) = Inr d1" "Solve_EigenVec lu d1 = Inr sol" "function_readable (Flat xs) sol"
    by (auto simp: has_pattern_def pattern_def rbind_eq_Inr split: if_splits)
  have cap: "Solve_EigenVec lu (d1\<lparr>captured := x\<rparr>) = Solve_EigenVec lu d1" for x
    by (simp add: Solve_EigenVec_def Solve_halves_def get_n_def normal_matrix_def)
  have us: "usable (d1\<lparr>captured := x\<rparr>)" for x
    using Dipoles_of_Flat_inv [OF d1(1)] by (auto simp: usable_def dip_inv_def)
  obtain v where "ApplyIntegrate gk (ifunction_value (Flat xs) sol) 0 kRr m = (Inr (), m\<lparr>data := (data m)[2 := replicate 175 v]\<rparr>)"
    using integrate_flat [OF assms(3)] by blast
  moreover have "flat_mesh (m\<lparr>data := (data m)[2 := r]\<rparr>)" for r using assms(3) by (simp add: flat_mesh_def)
  moreover have "length (data m) = 3" using assms(3) by (simp add: flat_mesh_def)
  ultimately show ?thesis using us
    by (simp add: sum_step_def solve_and_integrate_def SetNewCoordinates_usable [OF assms(1,2)] d1 cap Let_def
        GetFullFunction_def GetIfunction_def AddMesh_def zip_replicate map_replicate_const)
qed

lemma sum_loop_flat:
  assumes "usable d" and "\<forall>xs\<in>set xss. xs \<noteq> [] \<and> has_pattern lu xs" and "flat_mesh m"
  shows "\<exists>dm c'. rfold (sum_step (solve_and_integrate gk lu)) xss ((d, m), replicate 175 c) = Inr (dm, replicate 175 c')"
  using assms
proof (induction xss arbitrary: d m c)
  case (Cons xs xss)
  then have x: "xs \<noteq> []" "has_pattern lu xs" by simp_all
  obtain d' m' c' where s: "sum_step (solve_and_integrate gk lu) xs ((d, m), replicate 175 c) = Inr ((d', m'), replicate 175 c')"
    "usable d'" "flat_mesh m'" using sum_step_flat [OF Cons.prems(1) x(1) Cons.prems(3) x(2)] by blast
  have "\<forall>xs\<in>set xss. xs \<noteq> [] \<and> has_pattern lu xs" using Cons.prems(2) by simp
  from Cons.IH [OF s(2) this s(3)] s(1) show ?case by simp
qed simp

section \<open>Properties\<close>

text \<open>C31: in the modes that use the integrated intensity (new, new with OpenMP, printing), a run
over at least one configuration succeeds exactly when every configuration has a radiation
pattern; the mesh written to the average file then holds, at each of its 175 directions, the mean
of the patterns, and the files are those of the configurations, in the printing mode, and the
average.\<close>

theorem experiment_average:
  assumes "xss \<noteq> []" and "\<forall>xs\<in>set xss. xs \<noteq> []" and "st \<in> {ST_NEW, ST_OPENMP_NEW, ST_PRINT}"
  shows "if \<forall>xs\<in>set xss. \<exists>p. pattern lu xs = Inr p
    then \<exists>m files. coordGenerate gk lu put dir st n xss = Inr (m, files) \<and>
      map fst files = (if st = ST_PRINT then map (\<lambda>k. GetString dir ''sim'' k ''txt'') [0..<length xss] else []) @ [dir @ ''avg.txt''] \<and>
      (\<forall>k<175. data m ! 2 ! k = (\<Sum>xs\<leftarrow>xss. projr (pattern lu xs) ! k) / of_nat (length xss))
    else \<exists>e. coordGenerate gk lu put dir st n xss = Inl e"
proof -
  obtain xs yss where xss: "xss = xs # yss" using assms(1) by (cases xss) auto
  obtain ms where ms: "start_mesh = Inr ms" "grid_ok ms" "data ms ! 2 = replicate 175 0" using start_mesh_ok by blast
  have hp: "(\<forall>xs\<in>set xss. \<exists>p. pattern lu xs = Inr p) = (\<forall>xs\<in>set xss. has_pattern lu xs)" by (simp add: has_pattern_def)
  show ?thesis
  proof (cases "Dipoles_of (Flat xs)")
    case (Inl e)
    then have "pattern lu xs = Inl e" by (simp add: pattern_def)
    then show ?thesis using Inl xss by (auto simp: coordGenerate_def)
  next
    case (Inr d)
    then have "usable d" using Dipoles_of_Flat_inv by (auto simp: usable_def)
    note rn = run_mode_new [OF this assms(2) ms(2,3) assms(3), of lu gk put dir]
    show ?thesis
    proof (cases "\<forall>xs\<in>set xss. has_pattern lu xs")
      case False
      with rn obtain e where "run_mode gk lu put dir st xss d ms = Inl e" by auto
      then have "coordGenerate gk lu put dir st n xss = Inl e"
        using coordGenerate_run [OF Inr ms(1), of gk lu put dir st n yss] by (simp add: xss)
      with False hp show ?thesis by (simp only: if_False) blast
    next
      case True
      let ?s = "foldl (map2 (+)) (replicate 175 0) (map (pat lu) xss)"
      from True rn obtain m fs where r: "run_mode gk lu put dir st xss d ms = Inr ((m, ?s), fs)" "grid_ok m"
        "map fst fs = (if st = ST_PRINT then map (\<lambda>k. GetString dir ''sim'' k ''txt'') [0..<length xss] else [])" by auto
      have "\<forall>p\<in>set (map (pat lu) xss). length p = 175" using True has_pattern_pat pattern_length by fastforce
      from foldl_map2_nth [OF this, of "replicate 175 0"]
      have sum: "length ?s = 175" "\<forall>k<175. ?s ! k = (\<Sum>xs\<leftarrow>xss. projr (pattern lu xs) ! k)"
        by (simp_all add: pat_def comp_def)
      let ?m = "m\<lparr>data := (data m)[2 := map (\<lambda>r. r / of_nat (length xss)) ?s]\<rparr>"
      have d2: "data ?m ! 2 = map (\<lambda>r. r / of_nat (length xss)) ?s" using grid_lengths [OF r(2)] by simp
      obtain t where t: "PrintDec put ?m = Inr t"
        using PrintDec_defined [OF grid_ok_update [OF r(2)], of "map (\<lambda>r. r / of_nat (length xss)) ?s" put] sum(1) d2 by auto
      have "coordGenerate gk lu put dir st n xss = Inr (?m, fs @ [(dir @ ''avg.txt'', average_title (length xss) n @ t)])"
        using coordGenerate_run [OF Inr ms(1), of gk lu put dir st n yss] r(1) t unfolding xss
        by (simp only: rbind_Inr prod.case Let_def)
      moreover have "\<forall>k<175. data ?m ! 2 ! k = (\<Sum>xs\<leftarrow>xss. projr (pattern lu xs) ! k) / of_nat (length xss)"
        using sum by (simp only: d2) simp
      ultimately show ?thesis using r(3) True hp by auto
    qed
  qed
qed

theorem experiment_average_witness:
  "\<exists>m files. coordGenerate (\<lambda>_ _ _ _ _ _. 0) (\<lambda>A b. b) undefined ''r/'' ST_PRINT 1 [[0, 1], [0, 1]] = Inr (m, files) \<and>
    map fst files = map (\<lambda>k. GetString ''r/'' ''sim'' k ''txt'') [0..<2] @ [''r/avg.txt''] \<and>
    data m ! 2 ! 3 = projr (pattern (\<lambda>A b. b) [0, 1]) ! 3"
proof -
  let ?c = "[[0, 1], [0, 1]] :: real list list"
  have ex: "\<forall>xs\<in>set ?c. \<exists>p. pattern (\<lambda>A b. b) xs = Inr p" using sample_pattern by simp
  have "if \<forall>xs\<in>set ?c. \<exists>p. pattern (\<lambda>A b. b) xs = Inr p
    then \<exists>m files. coordGenerate (\<lambda>_ _ _ _ _ _. 0) (\<lambda>A b. b) undefined ''r/'' ST_PRINT 1 ?c = Inr (m, files) \<and>
      map fst files = (if ST_PRINT = ST_PRINT then map (\<lambda>k. GetString ''r/'' ''sim'' k ''txt'') [0..<length ?c] else []) @ [''r/'' @ ''avg.txt''] \<and>
      (\<forall>k<175. data m ! 2 ! k = (\<Sum>xs\<leftarrow>?c. projr (pattern (\<lambda>A b. b) xs) ! k) / of_nat (length ?c))
    else \<exists>e. coordGenerate (\<lambda>_ _ _ _ _ _. 0) (\<lambda>A b. b) undefined ''r/'' ST_PRINT 1 ?c = Inl e"
    by (rule experiment_average) simp_all
  with ex have "\<exists>m files. coordGenerate (\<lambda>_ _ _ _ _ _. 0) (\<lambda>A b. b) undefined ''r/'' ST_PRINT 1 ?c = Inr (m, files) \<and>
      map fst files = map (\<lambda>k. GetString ''r/'' ''sim'' k ''txt'') [0..<2] @ [''r/avg.txt''] \<and>
      (\<forall>k<175. data m ! 2 ! k = (\<Sum>xs\<leftarrow>?c. projr (pattern (\<lambda>A b. b) xs) ! k) / 2)"
    by (simp only: if_True simp_thms) (simp add: numeral_2_eq_2)
  then show ?thesis by (elim exE conjE) (intro exI conjI, assumption, assumption, simp)
qed

text \<open>C32: the old mode under OpenMP computes on default-constructed objects, whose directions are all
zero: whatever the configurations, the run succeeds and every direction of the averaged mesh
holds one and the same value.\<close>

theorem old_openmp_flat:
  assumes "xss \<noteq> []" and "\<forall>xs\<in>set xss. xs \<noteq> [] \<and> (\<exists>p. pattern lu xs = Inr p)"
  shows "\<exists>m files c. coordGenerate gk lu put dir ST_OPENMP_OLD n xss = Inr (m, files) \<and>
    map fst files = [dir @ ''avg.txt''] \<and> data m ! 2 = replicate 175 c"
proof -
  obtain xs yss where xss: "xss = xs # yss" using assms(1) by (cases xss) auto
  obtain ms where ms: "start_mesh = Inr ms" "grid_ok ms" "data ms ! 2 = replicate 175 0" using start_mesh_ok by blast
  have "\<exists>p. pattern lu xs = Inr p" using assms(2) xss by simp
  then obtain d where d: "Dipoles_of (Flat xs) = Inr d" by (auto simp: pattern_def rbind_eq_Inr)
  have "\<forall>xs\<in>set xss. xs \<noteq> [] \<and> has_pattern lu xs" "usable new_Dipoles" using assms(2) by (simp_all add: has_pattern_def usable_def)
  from sum_loop_flat [OF this(2,1) flat_mesh_new, of gk 0] obtain dm c where
    "rfold (sum_step (solve_and_integrate gk lu)) xss ((new_Dipoles, new_MeshCreator True), replicate 175 0) = Inr (dm, replicate 175 c)"
    by blast
  then have r: "run_mode gk lu put dir ST_OPENMP_OLD xss d ms = Inr ((ms, replicate 175 c), [])"
    by (simp add: run_mode_def Let_def ms(3) in_parallel_def)
  let ?v = "replicate 175 (c / of_nat (length xss))"
  let ?m = "ms\<lparr>data := (data ms)[2 := map (\<lambda>r. r / of_nat (length xss)) (replicate 175 c)]\<rparr>"
  have d2: "data ?m ! 2 = ?v" using grid_lengths [OF ms(2)] by simp
  obtain t where t: "PrintDec put ?m = Inr t"
    using PrintDec_defined [OF grid_ok_update [OF ms(2)], of "map (\<lambda>r. r / of_nat (length xss)) (replicate 175 c)" put] d2 by auto
  have "coordGenerate gk lu put dir ST_OPENMP_OLD n xss = Inr (?m, [] @ [(dir @ ''avg.txt'', average_title (length xss) n @ t)])"
    using coordGenerate_run [OF d ms(1), of gk lu put dir ST_OPENMP_OLD n yss] r t unfolding xss
    by (simp only: rbind_Inr prod.case Let_def)
  with d2 show ?thesis by auto
qed

theorem old_openmp_flat_witness:
  "\<exists>m files c. coordGenerate (\<lambda>_ f _ _ _ _. f 0) (\<lambda>A b. b) undefined ''r/'' ST_OPENMP_OLD 1 [[0, 1]] = Inr (m, files) \<and>
    map fst files = [''r/'' @ ''avg.txt''] \<and> data m ! 2 = replicate 175 c"
  by (rule old_openmp_flat) (use sample_pattern in simp_all)

end
