(* ===== verification/FileHandler.thy ===== *)
theory FileHandler
  imports ErrorHandling
begin

text \<open>
  \<open>FileHandler.h\<close> and \<open>FileHandler.cpp\<close>: the helpers over \<open>std::filesystem\<close> and the class that
  keeps named output files open.  The file system is a list of entries by absolute location, with
  the working directory and the locations at which creating or opening is refused; symbolic links
  and refused removals are left out.  A stream writes at once, where the library may wait until
  \<open>close\<close>.
\<close>

section \<open>Paths\<close>

definition slash :: char where "slash = CHR ''/''"

fun split_slash :: "string \<Rightarrow> string list" where
  "split_slash [] = [[]]"
| "split_slash (c # cs) = (if c = slash then [] # split_slash cs
     else case split_slash cs of [] \<Rightarrow> [[c]] | s # ss \<Rightarrow> (c # s) # ss)"

definition is_absolute :: "string \<Rightarrow> bool" where
  "is_absolute p \<longleftrightarrow> p \<noteq> [] \<and> hd p = slash"

text \<open>\<open>operator/\<close> and \<open>parent_path\<close>.\<close>

definition path_div :: "string \<Rightarrow> string \<Rightarrow> string" where
  "path_div p q = (if is_absolute q then q
     else if p = [] \<or> last p = slash then p @ q else p @ [slash] @ q)"

definition parent_path :: "string \<Rightarrow> string" where
  "parent_path p = (let r = dropWhile (\<lambda>c. c \<noteq> slash) (rev p); s = dropWhile (\<lambda>c. c = slash) r
     in if r = [] then [] else if s = [] then [slash] else rev s)"

definition walk :: "string list \<Rightarrow> string \<Rightarrow> string list" where
  "walk = (\<lambda>ds p. foldl (\<lambda>ds c. if c = [] \<or> c = ''.'' then ds else if c = ''..'' then butlast ds else ds @ [c]) ds
     (split_slash p))"

section \<open>The file system\<close>

type_synonym location = "string list"

datatype entry = Dir | File string

record filesystem =
  nodes :: "(location \<times> entry) list"
  cwd :: location
  denied :: "location \<Rightarrow> bool"

definition node_at :: "filesystem \<Rightarrow> location \<Rightarrow> entry option" where
  "node_at fs q = (if q = [] then Some Dir else map_of (nodes fs) q)"

definition put_node :: "location \<Rightarrow> entry \<Rightarrow> filesystem \<Rightarrow> filesystem" where
  "put_node q e fs = fs\<lparr>nodes := aput q e (nodes fs)\<rparr>"

definition resolve :: "filesystem \<Rightarrow> string \<Rightarrow> location" where
  "resolve fs p = walk (if is_absolute p then [] else cwd fs) p"

text \<open>No path at all names nothing.\<close>

definition lookup :: "filesystem \<Rightarrow> string \<Rightarrow> entry option" where
  "lookup fs p = (if p = [] then None else node_at fs (resolve fs p))"

definition filesystem_error :: fault where
  "filesystem_error = Library ''filesystem_error''"

definition make_dir :: "location \<Rightarrow> (filesystem, fault, bool) action" where
  "make_dir q fs = (case node_at fs q of
     Some Dir \<Rightarrow> (Inr False, fs)
   | Some (File _) \<Rightarrow> (Inl filesystem_error, fs)
   | None \<Rightarrow> if denied fs q then (Inl filesystem_error, fs) else (Inr True, put_node q Dir fs))"

definition create_directories :: "string \<Rightarrow> (filesystem, fault, bool) action" where
  "create_directories p fs = (if p = [] then (Inl filesystem_error, fs)
     else sbind (smap make_dir (map (\<lambda>k. take (Suc k) (resolve fs p)) [0..<length (resolve fs p)]))
       (\<lambda>made. sret (made \<noteq> [] \<and> last made)) fs)"

section \<open>Output streams\<close>

datatype openmode = Out | App

text \<open>An open stream: where it writes, its mode and its position.\<close>

datatype stream = Closed | Opened location openmode nat

definition is_open :: "stream \<Rightarrow> bool" where
  "is_open st \<longleftrightarrow> st \<noteq> Closed"

definition open_stream :: "string \<Rightarrow> openmode \<Rightarrow> filesystem \<Rightarrow> stream \<times> filesystem" where
  "open_stream p mode fs = (let q = resolve fs p in
     if p = [] \<or> denied fs q then (Closed, fs)
     else case node_at fs q of
       Some Dir \<Rightarrow> (Closed, fs)
     | Some (File c) \<Rightarrow> (Opened q mode 0, if mode = Out then put_node q (File []) fs else fs)
     | None \<Rightarrow> if node_at fs (butlast q) = Some Dir then (Opened q mode 0, put_node q (File []) fs) else (Closed, fs))"

definition overwrite :: "nat \<Rightarrow> string \<Rightarrow> string \<Rightarrow> string" where
  "overwrite pos s c = take pos c @ replicate (pos - length c) (char_of (0 :: nat)) @ s @ drop (pos + length s) c"

definition write_stream :: "string \<Rightarrow> stream \<Rightarrow> filesystem \<Rightarrow> stream \<times> filesystem" where
  "write_stream s st fs = (case st of
     Closed \<Rightarrow> (Closed, fs)
   | Opened q mode pos \<Rightarrow>
       (case node_at fs q of
          Some (File c) \<Rightarrow> (Opened q mode (pos + length s),
            put_node q (File (if mode = App then c @ s else overwrite pos s c)) fs)
        | _ \<Rightarrow> (st, fs)))"

section \<open>The helpers\<close>

definition GetNormalAbs :: "filesystem \<Rightarrow> string \<Rightarrow> fault + string" where
  "GetNormalAbs fs path = (if path = [] then Inl filesystem_error
     else let a = (if is_absolute path then path else path_div (slash # join [slash] (cwd fs)) path); ds = walk [] a
          in Inr ([slash] @ join [slash] ds @
               (if ds \<noteq> [] \<and> last (split_slash a) \<in> {[], ''.'', ''..''} then [slash] else [])))"

definition CreateDirIfNotPresent :: "string \<Rightarrow> (filesystem, fault, bool) action" where
  "CreateDirIfNotPresent path fs = (if lookup fs path = None then create_directories path fs else (Inr False, fs))"

definition CreateFileIfNotPresent :: "string \<Rightarrow> bool \<Rightarrow> (filesystem, fault, bool) action" where
  "CreateFileIfNotPresent path force = sbind
     (\<lambda>fs. if force \<and> lookup fs (parent_path path) = None then create_directories (parent_path path) fs else (Inr False, fs))
     (\<lambda>_ fs. if lookup fs path = None then (let (st, fs') = open_stream path Out fs in (Inr (is_open st), fs')) else (Inr False, fs))"

definition FileExists :: "filesystem \<Rightarrow> string \<Rightarrow> bool" where
  "FileExists fs path \<longleftrightarrow> (case lookup fs path of Some (File _) \<Rightarrow> True | _ \<Rightarrow> False)"

definition DirectoryExists :: "filesystem \<Rightarrow> string \<Rightarrow> bool" where
  "DirectoryExists fs path \<longleftrightarrow> lookup fs path = Some Dir"

definition ReadFileToString :: "filesystem \<Rightarrow> string \<Rightarrow> string" where
  "ReadFileToString fs path = (if denied fs (resolve fs path) then []
     else case lookup fs path of Some (File c) \<Rightarrow> c | _ \<Rightarrow> [])"

definition below :: "location \<Rightarrow> location \<Rightarrow> bool" where
  "below r q \<longleftrightarrow> take (length r) q = r"

definition remove_below :: "location \<Rightarrow> filesystem \<Rightarrow> filesystem" where
  "remove_below r fs = fs\<lparr>nodes := filter (\<lambda>(q, _). \<not> below r q) (nodes fs)\<rparr>"

definition count_below :: "location \<Rightarrow> filesystem \<Rightarrow> nat" where
  "count_below r fs = length (filter (\<lambda>(q, _). below r q) (nodes fs))"

text \<open>\<open>remove\<close> takes a file or an empty directory away and fails on other directories.\<close>

definition DeleteEntry :: "string \<Rightarrow> filesystem \<Rightarrow> nat \<times> filesystem" where
  "DeleteEntry path fs = (let r = resolve fs path in
     case lookup fs path of
       None \<Rightarrow> (0, fs)
     | Some (File _) \<Rightarrow> (1, fs\<lparr>nodes := adel r (nodes fs)\<rparr>)
     | Some Dir \<Rightarrow> if count_below r fs = 1 \<and> r \<noteq> [] then (1, fs\<lparr>nodes := adel r (nodes fs)\<rparr>)
                   else (count_below r fs, remove_below r fs))"

section \<open>The class\<close>

record FileHandler =
  fh_parent :: string
  file_map :: "string \<Rightarrow> stream option"

type_synonym handled = "FileHandler \<times> filesystem"

definition new_FileHandler :: "string \<Rightarrow> (filesystem, fault, FileHandler) action" where
  "new_FileHandler path = sbind (CreateDirIfNotPresent path) (\<lambda>_. sret \<lparr>fh_parent = path, file_map = Map.empty\<rparr>)"

definition set_stream :: "string \<Rightarrow> stream option \<Rightarrow> FileHandler \<Rightarrow> FileHandler" where
  "set_stream p st fh = fh\<lparr>file_map := (file_map fh)(p := st)\<rparr>"

definition file_path :: "FileHandler \<Rightarrow> string \<Rightarrow> string" where
  "file_path fh filename = path_div (fh_parent fh) filename"

text \<open>\<open>Open\<close> answers true whether or not the file could be opened.\<close>

definition FH_Open :: "string \<Rightarrow> openmode \<Rightarrow> handled \<Rightarrow> bool \<times> handled" where
  "FH_Open filename mode = (\<lambda>(fh, fs). let p = file_path fh filename in
     case file_map fh p of
       Some Closed \<Rightarrow> (let (st, fs') = open_stream p mode fs in (True, set_stream p (Some st) fh, fs'))
     | _ \<Rightarrow> (False, fh, fs))"

definition FH_Close :: "string \<Rightarrow> handled \<Rightarrow> bool \<times> handled" where
  "FH_Close filename = (\<lambda>(fh, fs). let p = file_path fh filename in
     case file_map fh p of
       Some (Opened _ _ _) \<Rightarrow> (True, set_stream p (Some Closed) fh, fs)
     | _ \<Rightarrow> (False, fh, fs))"

definition FH_Delete :: "string \<Rightarrow> handled \<Rightarrow> bool \<times> handled" where
  "FH_Delete filename = (\<lambda>(fh, fs). let p = file_path fh filename in
     case file_map fh p of None \<Rightarrow> (False, fh, fs) | Some _ \<Rightarrow> (True, set_stream p None fh, fs))"

definition FH_Upsert :: "string \<Rightarrow> openmode \<Rightarrow> handled \<Rightarrow> bool \<times> handled" where
  "FH_Upsert filename mode = (\<lambda>(fh, fs).
     let p = file_path fh filename;
         st0 = (case file_map fh p of None \<Rightarrow> Closed | Some st \<Rightarrow> st);
         (st, fs') = (if is_open st0 then (st0, fs) else open_stream p mode fs)
     in (is_open st, set_stream p (Some st) fh, fs'))"

definition FH_Contains :: "string \<Rightarrow> handled \<Rightarrow> bool" where
  "FH_Contains filename = (\<lambda>(fh, _). file_map fh (file_path fh filename) \<noteq> None)"

definition FH_CloseFiles :: "handled \<Rightarrow> handled" where
  "FH_CloseFiles = (\<lambda>(fh, fs). (fh\<lparr>file_map := map_option (\<lambda>_. Closed) \<circ> file_map fh\<rparr>, fs))"

definition GetParentPath :: "FileHandler \<Rightarrow> string" where
  "GetParentPath fh = fh_parent fh"

text \<open>A missing key of \<open>operator[]\<close> becomes a null pointer, which both readers dereference.\<close>

definition FH_Print :: "string \<Rightarrow> string \<Rightarrow> (handled, fault, unit) action" where
  "FH_Print p s = (\<lambda>(fh, fs). case file_map fh p of
     None \<Rightarrow> (Inl (UB ''null pointer''), fh, fs)
   | Some st \<Rightarrow> (let (st', fs') = write_stream s st fs in (Inr (), set_stream p (Some st') fh, fs')))"

definition FH_Output :: "bool \<Rightarrow> string \<Rightarrow> string \<Rightarrow> (handled, fault, unit) action" where
  "FH_Output checks filename s = (\<lambda>(fh, fs). let p = file_path fh filename in
     if checks then
       (case file_map fh p of
          None \<Rightarrow> (Inl (UB ''null pointer''), fh, fs)
        | Some _ \<Rightarrow> (let (res, w) = FH_Upsert filename Out (fh, fs)
                     in if res then FH_Print p s w else (Inr (), w)))
     else FH_Print p s (fh, fs))"

section \<open>Entries after an update\<close>

lemma node_at_put [simp]: "node_at (put_node q e fs) r = (if r = [] then Some Dir else if r = q then Some e else node_at fs r)"
  by (simp add: node_at_def put_node_def)

lemma node_at_root [simp]: "node_at fs [] = Some Dir"
  by (simp add: node_at_def)

lemma put_node_simps [simp]: "cwd (put_node q e fs) = cwd fs" "denied (put_node q e fs) = denied fs"
  by (simp_all add: put_node_def)

lemma resolve_put [simp]: "resolve (put_node q e fs) p = resolve fs p"
  by (simp add: resolve_def)

lemma set_stream_simps [simp]:
  "file_map (set_stream p st fh) = (file_map fh)(p := st)" "fh_parent (set_stream p st fh) = fh_parent fh"
  "file_path (set_stream p st fh) name = file_path fh name"
  by (simp_all add: set_stream_def file_path_def)

lemma set_stream_twice [simp]: "set_stream p st' (set_stream p st fh) = set_stream p st' fh"
  by (simp add: set_stream_def)

lemma set_stream_same [simp]: "file_map fh p = st \<Longrightarrow> set_stream p st fh = fh"
  by (cases fh) (auto simp: set_stream_def)

lemma is_open_simps [simp]: "\<not> is_open Closed" "is_open (Opened q mode pos)"
  by (simp_all add: is_open_def)

lemma overwrite_end [simp]: "overwrite (length c) s c = c @ s"
  by (simp add: overwrite_def)

text \<open>What opening a stream does.\<close>

lemma open_stream_cases:
  assumes "open_stream p mode fs = (st, fs')"
  shows "(st = Closed \<and> fs' = fs) \<or>
    (\<exists>c. st = Opened (resolve fs p) mode 0 \<and> p \<noteq> [] \<and> \<not> denied fs (resolve fs p) \<and> resolve fs p \<noteq> [] \<and>
      c = (if mode = App then (case node_at fs (resolve fs p) of Some (File c) \<Rightarrow> c | _ \<Rightarrow> []) else []) \<and>
      node_at fs (resolve fs p) \<noteq> Some Dir \<and>
      node_at fs' (resolve fs p) = Some (File c) \<and> (\<forall>q. q \<noteq> resolve fs p \<longrightarrow> node_at fs' q = node_at fs q) \<and>
      cwd fs' = cwd fs \<and> denied fs' = denied fs)"
  using assms
  by (cases mode; cases "node_at fs (resolve fs p)")
    (auto simp: open_stream_def Let_def split: if_splits entry.splits)

section \<open>Writing\<close>

text \<open>\<open>ready w filename q pre\<close>: the stream of the file is open on \<open>q\<close>, which holds \<open>pre\<close>, and writes at its end.\<close>

definition ready :: "handled \<Rightarrow> string \<Rightarrow> location \<Rightarrow> string \<Rightarrow> bool" where
  "ready w filename q pre \<longleftrightarrow> (case w of (fh, fs) \<Rightarrow>
     (\<exists>mode pos. file_map fh (file_path fh filename) = Some (Opened q mode pos) \<and> (mode = App \<or> pos = length pre)) \<and>
     node_at fs q = Some (File pre) \<and> q \<noteq> [])"

definition others :: "location \<Rightarrow> handled \<Rightarrow> location \<Rightarrow> entry option" where
  "others q w r = (if r = q then None else node_at (snd w) r)"

definition place :: "handled \<Rightarrow> string \<times> location \<times> (location \<Rightarrow> bool)" where
  "place w = (fh_parent (fst w), cwd (snd w), denied (snd w))"

lemma Upsert_ready: "ready w filename q pre \<Longrightarrow> FH_Upsert filename mode w = (True, w)"
  by (auto simp: ready_def FH_Upsert_def Let_def split: prod.splits)

lemma Print_ready:
  assumes "ready w filename q pre"
  shows "\<exists>w'. FH_Print (file_path (fst w) filename) s w = (Inr (), w') \<and> ready w' filename q (pre @ s) \<and>
    others q w' = others q w \<and> place w' = place w"
proof -
  obtain fh fs where w: "w = (fh, fs)" by (cases w)
  from assms obtain mode pos where st: "file_map fh (file_path fh filename) = Some (Opened q mode pos)" "mode = App \<or> pos = length pre"
    and q: "node_at fs q = Some (File pre)" "q \<noteq> []" by (auto simp: ready_def w)
  have body: "(if mode = App then pre @ s else overwrite pos s pre) = pre @ s" using st(2) by auto
  show ?thesis
    using st q body
    by (auto simp: FH_Print_def w write_stream_def ready_def others_def place_def fun_eq_iff split: if_splits)
qed

lemma Output_ready:
  assumes "ready w filename q pre"
  shows "\<exists>w'. FH_Output checks filename s w = (Inr (), w') \<and> ready w' filename q (pre @ s) \<and>
    others q w' = others q w \<and> place w' = place w"
proof -
  have "FH_Output checks filename s w = FH_Print (file_path (fst w) filename) s w"
    using Upsert_ready [OF assms, of Out] assms by (auto simp: FH_Output_def ready_def Let_def split: prod.splits)
  with Print_ready [OF assms, of s] show ?thesis by simp
qed

lemma Outputs_ready:
  assumes "ready w filename q pre"
  shows "\<exists>us w'. smap (FH_Output checks filename) ss w = (Inr us, w') \<and> ready w' filename q (pre @ concat ss) \<and>
    others q w' = others q w \<and> place w' = place w"
  using assms
proof (induction ss arbitrary: w pre)
  case (Cons s ss)
  obtain w1 where w1: "FH_Output checks filename s w = (Inr (), w1)" "ready w1 filename q (pre @ s)"
    "others q w1 = others q w" "place w1 = place w" using Output_ready [OF Cons.prems] by blast
  from Cons.IH [OF w1(2)] w1 show ?case by (auto simp: sbind_apply)
qed (auto)

lemma Close_ready:
  assumes "ready w filename q pre"
  shows "\<exists>w'. FH_Close filename w = (True, w') \<and> snd w' = snd w \<and> fh_parent (fst w') = fh_parent (fst w) \<and>
    file_map (fst w') = (file_map (fst w))(file_path (fst w) filename \<mapsto> Closed)"
  using assms by (auto simp: ready_def FH_Close_def Let_def split: prod.splits)

text \<open>Opening a file that was not open makes it ready.\<close>

lemma Upsert_opens:
  assumes "FH_Upsert filename mode (fh, fs) = (True, w)" and "\<forall>st. file_map fh (file_path fh filename) = Some st \<longrightarrow> st = Closed"
    and "file_path fh filename = p"
  shows "ready w filename (resolve fs p)
      (if mode = App then (case node_at fs (resolve fs p) of Some (File c) \<Rightarrow> c | _ \<Rightarrow> []) else []) \<and>
    others (resolve fs p) w = others (resolve fs p) (fh, fs) \<and> place w = place (fh, fs) \<and> p \<noteq> [] \<and> \<not> denied fs (resolve fs p) \<and>
    node_at fs (resolve fs p) \<noteq> Some Dir"
proof -
  obtain st fs' where o: "open_stream p mode fs = (st, fs')" by fastforce
  have "(case file_map fh p of None \<Rightarrow> Closed | Some st \<Rightarrow> st) = Closed" using assms(2,3) by (auto split: option.splits)
  with assms(1,3) o have w: "is_open st" "w = (set_stream p (Some st) fh, fs')" by (auto simp: FH_Upsert_def Let_def)
  from open_stream_cases [OF o] w assms(3) show ?thesis
    by (auto simp: ready_def others_def place_def fun_eq_iff)
qed

lemma open_stream_again:
  "node_at fs (resolve fs p) = Some (File c) \<Longrightarrow> \<not> denied fs (resolve fs p) \<Longrightarrow> p \<noteq> [] \<Longrightarrow>
    open_stream p Out fs = (Opened (resolve fs p) Out 0, put_node (resolve fs p) (File []) fs)"
  by (simp add: open_stream_def Let_def)

section \<open>The tree\<close>

definition tree :: "filesystem \<Rightarrow> bool" where
  "tree fs \<longleftrightarrow> (\<forall>q. q \<noteq> [] \<and> node_at fs q \<noteq> None \<longrightarrow> node_at fs (butlast q) = Some Dir)"

text \<open>\<open>grown fs fs'\<close>: entries may be added and files rewritten, but nothing is lost.\<close>

definition grown :: "filesystem \<Rightarrow> filesystem \<Rightarrow> bool" where
  "grown fs fs' \<longleftrightarrow> cwd fs' = cwd fs \<and> denied fs' = denied fs \<and> (\<forall>q. node_at fs q = Some Dir \<longrightarrow> node_at fs' q = Some Dir) \<and>
    (\<forall>q c. node_at fs q = Some (File c) \<longrightarrow> (\<exists>c'. node_at fs' q = Some (File c')))"

lemma grown_refl [simp]: "grown fs fs"
  by (simp add: grown_def)

lemma grown_trans: "grown fs fs1 \<Longrightarrow> grown fs1 fs2 \<Longrightarrow> grown fs fs2"
  unfolding grown_def by metis

lemma grown_resolve: "grown fs fs' \<Longrightarrow> resolve fs' p = resolve fs p"
  by (simp add: grown_def resolve_def)

lemma tree_put: "tree fs \<Longrightarrow> node_at fs (butlast q) = Some Dir \<Longrightarrow> e = Dir \<or> (\<forall>r. butlast r = q \<longrightarrow> r \<noteq> [] \<longrightarrow> node_at fs r = None) \<Longrightarrow>
    q \<noteq> [] \<Longrightarrow> tree (put_node q e fs)"
  by (auto simp: tree_def)

lemma tree_leaf: "tree fs \<Longrightarrow> node_at fs q \<noteq> Some Dir \<Longrightarrow> r \<noteq> [] \<Longrightarrow> butlast r = q \<Longrightarrow> node_at fs r = None"
  by (auto simp: tree_def)

lemma tree_put_file: "tree fs \<Longrightarrow> node_at fs (butlast q) = Some Dir \<Longrightarrow> node_at fs q \<noteq> Some Dir \<Longrightarrow> tree (put_node q (File c) fs)"
  by (rule tree_put) (auto dest: tree_leaf)

lemma open_stream_grown:
  assumes "tree fs" and "open_stream p mode fs = (st, fs')"
  shows "tree fs' \<and> grown fs fs' \<and> (\<forall>r. r \<noteq> resolve fs p \<longrightarrow> node_at fs' r = node_at fs r) \<and>
    (is_open st \<longrightarrow> (\<exists>c. st = Opened (resolve fs p) mode 0 \<and> node_at fs' (resolve fs p) = Some (File c)))"
proof (cases "p = [] \<or> denied fs (resolve fs p)")
  case True
  with assms show ?thesis by (auto simp: open_stream_def Let_def)
next
  case False
  show ?thesis
  proof (cases "node_at fs (resolve fs p)")
    case None
    then show ?thesis
      using assms False tree_put_file [OF assms(1), of "resolve fs p"]
      by (auto simp: open_stream_def Let_def grown_def split: if_splits)
  next
    case (Some e)
    then have "resolve fs p \<noteq> [] \<Longrightarrow> node_at fs (butlast (resolve fs p)) = Some Dir" using assms(1) by (simp add: tree_def)
    then show ?thesis
      using assms False Some tree_put_file [OF assms(1), of "resolve fs p"]
      by (cases e; cases "resolve fs p = []") (auto simp: open_stream_def Let_def grown_def split: if_splits)
  qed
qed

lemma write_stream_grown:
  assumes "tree fs" and "write_stream s (Opened q mode pos) fs = (st, fs')"
  shows "tree fs' \<and> grown fs fs' \<and> (\<forall>r. r \<noteq> q \<longrightarrow> node_at fs' r = node_at fs r) \<and> (\<exists>pos'. st = Opened q mode pos')"
proof (cases "node_at fs q")
  case (Some e)
  then have "q \<noteq> [] \<Longrightarrow> node_at fs (butlast q) = Some Dir" using assms(1) by (simp add: tree_def)
  then show ?thesis
    using assms Some tree_put_file [OF assms(1), of q]
    by (cases e; cases "q = []") (auto simp: write_stream_def grown_def)
qed (use assms in \<open>auto simp: write_stream_def\<close>)

section \<open>The invariant of the handler\<close>

definition handler_inv :: "handled \<Rightarrow> bool" where
  "handler_inv = (\<lambda>(fh, fs). tree fs \<and> (\<forall>p q mode pos. file_map fh p = Some (Opened q mode pos) \<longrightarrow>
     q = resolve fs p \<and> (\<exists>c. node_at fs q = Some (File c))))"

lemma handler_invD:
  "handler_inv (fh, fs) \<Longrightarrow> file_map fh p = Some (Opened q mode pos) \<Longrightarrow> q = resolve fs p \<and> (\<exists>c. node_at fs q = Some (File c))"
  unfolding handler_inv_def prod.case by blast

lemma handler_invI:
  "tree fs \<Longrightarrow> (\<And>p q mode pos. file_map fh p = Some (Opened q mode pos) \<Longrightarrow> q = resolve fs p \<and> (\<exists>c. node_at fs q = Some (File c))) \<Longrightarrow>
    handler_inv (fh, fs)"
  unfolding handler_inv_def prod.case by blast

lemma handler_inv_tree: "handler_inv (fh, fs) \<Longrightarrow> tree fs"
  by (simp add: handler_inv_def)

text \<open>A use of the handler under a file name, whatever its outcome.\<close>

inductive fh_step :: "string \<Rightarrow> handled \<Rightarrow> handled \<Rightarrow> bool" where
  fh_open: "fh_step f w (snd (FH_Open f mode w))"
| fh_close: "fh_step f w (snd (FH_Close f w))"
| fh_delete: "fh_step f w (snd (FH_Delete f w))"
| fh_upsert: "fh_step f w (snd (FH_Upsert f mode w))"
| fh_output: "FH_Output checks f s w = (Inr u, w') \<Longrightarrow> fh_step f w w'"
| fh_close_all: "fh_step f w (FH_CloseFiles w)"

inductive fh_run :: "string list \<Rightarrow> handled \<Rightarrow> handled \<Rightarrow> bool" where
  fh_run_none: "fh_run [] w w"
| fh_run_step: "fh_step f w w1 \<Longrightarrow> fh_run fl w1 w2 \<Longrightarrow> fh_run (f # fl) w w2"

text \<open>A step touches one file: that of its name.\<close>

definition touches :: "location \<Rightarrow> handled \<Rightarrow> handled \<Rightarrow> bool" where
  "touches q w w' \<longleftrightarrow> handler_inv w' \<and> grown (snd w) (snd w') \<and> fh_parent (fst w') = fh_parent (fst w) \<and>
    (\<forall>r. r \<noteq> q \<longrightarrow> node_at (snd w') r = node_at (snd w) r)"

lemma touches_map:
  assumes "handler_inv (fh, fs)" and "\<forall>p. m p = file_map fh p \<or> m p = None \<or> m p = Some Closed"
  shows "touches q (fh, fs) (fh\<lparr>file_map := m\<rparr>, fs)"
proof -
  have "file_map fh p = Some (Opened q mode pos)" if "m p = Some (Opened q mode pos)" for p q mode pos
    using assms(2) [rule_format, of p] that by auto
  from handler_invD [OF assms(1) this] have "handler_inv (fh\<lparr>file_map := m\<rparr>, fs)"
    by (intro handler_invI handler_inv_tree [OF assms(1)]) simp
  then show ?thesis by (simp add: touches_def)
qed

lemma touches_set:
  "handler_inv (fh, fs) \<Longrightarrow> st = None \<or> st = Some Closed \<Longrightarrow> touches q (fh, fs) (set_stream p st fh, fs)"
  unfolding set_stream_def by (rule touches_map) auto

lemma touches_grown:
  assumes "handler_inv (fh, fs)" and "tree fs'" and "grown fs fs'" and "\<forall>r. r \<noteq> resolve fs p \<longrightarrow> node_at fs' r = node_at fs r"
    and "is_open st \<longrightarrow> (\<exists>c mode pos. st = Opened (resolve fs p) mode pos \<and> node_at fs' (resolve fs p) = Some (File c))"
  shows "touches (resolve fs p) (fh, fs) (set_stream p (Some st) fh, fs')"
proof -
  have "q = resolve fs r \<and> (\<exists>c. node_at fs' q = Some (File c))" if "file_map fh r = Some (Opened q mode pos)" for r q mode pos
  proof -
    from handler_invD [OF assms(1) that] obtain c where "q = resolve fs r" "node_at fs q = Some (File c)" by blast
    with assms(3) show ?thesis by (auto simp: grown_def)
  qed
  with assms(2,5) grown_resolve [OF assms(3)] have "handler_inv (set_stream p (Some st) fh, fs')"
    by (cases st) (auto intro!: handler_invI split: if_splits)
  with assms(3,4) show ?thesis by (simp add: touches_def)
qed

lemma touches_open:
  assumes "handler_inv (fh, fs)" and "open_stream p mode fs = (st, fs')"
  shows "touches (resolve fs p) (fh, fs) (set_stream p (Some st) fh, fs')"
  using open_stream_grown [OF handler_inv_tree [OF assms(1)] assms(2)] by (intro touches_grown [OF assms(1)]) auto

lemma touches_refl: "handler_inv (fh, fs) \<Longrightarrow> touches q (fh, fs) (fh, fs)"
  by (simp add: touches_def)

lemma touches_Upsert:
  assumes "handler_inv (fh, fs)"
  shows "touches (resolve fs (file_path fh f)) (fh, fs) (snd (FH_Upsert f mode (fh, fs)))"
proof -
  obtain st fs' where o: "open_stream (file_path fh f) mode fs = (st, fs')" by fastforce
  show ?thesis
    using touches_open [OF assms o] touches_refl [OF assms] o
    by (auto simp: FH_Upsert_def Let_def is_open_def split: option.splits)
qed

lemma touches_Print:
  assumes "handler_inv (fh, fs)" and "FH_Print p s (fh, fs) = (Inr u, w)"
  shows "touches (resolve fs p) (fh, fs) w"
proof -
  from assms(2) obtain st where st: "file_map fh p = Some st" by (auto simp: FH_Print_def split: option.splits)
  obtain st' fs' where wr: "write_stream s st fs = (st', fs')" by fastforce
  with assms(2) st have w: "w = (set_stream p (Some st') fh, fs')" by (simp add: FH_Print_def)
  show ?thesis
  proof (cases st)
    case Closed
    with wr w show ?thesis using touches_set [OF assms(1), of "Some Closed"] by (simp add: write_stream_def)
  next
    case (Opened q mode pos)
    have q: "q = resolve fs p \<and> (\<exists>c. node_at fs q = Some (File c))" using handler_invD [OF assms(1)] st Opened by blast
    from write_stream_grown [OF handler_inv_tree [OF assms(1)] wr [unfolded Opened]] q
    have "tree fs'" "grown fs fs'" "\<forall>r. r \<noteq> resolve fs p \<longrightarrow> node_at fs' r = node_at fs r" "\<exists>pos'. st' = Opened (resolve fs p) mode pos'"
      by simp_all
    moreover from this(2) q have "\<exists>c. node_at fs' (resolve fs p) = Some (File c)" by (auto simp: grown_def)
    ultimately show ?thesis unfolding w by (intro touches_grown [OF assms(1)]) blast+
  qed
qed

lemma touches_trans:
  "touches q w w1 \<Longrightarrow> touches q w1 w2 \<Longrightarrow> touches q w w2"
  by (auto simp: touches_def intro: grown_trans)

lemma touches_Output:
  assumes "handler_inv (fh, fs)" and "FH_Output checks f s (fh, fs) = (Inr u, w)"
  shows "touches (resolve fs (file_path fh f)) (fh, fs) w"
proof (cases checks)
  case False
  with assms touches_Print show ?thesis by (simp add: FH_Output_def)
next
  case True
  obtain res fh1 fs1 where up: "FH_Upsert f Out (fh, fs) = (res, fh1, fs1)" by (metis prod_cases3)
  with touches_Upsert [OF assms(1), of f Out] have t: "touches (resolve fs (file_path fh f)) (fh, fs) (fh1, fs1)" by simp
  then have i: "handler_inv (fh1, fs1)" "resolve fs1 p = resolve fs p" for p by (auto simp: touches_def grown_resolve)
  have "(if res then FH_Print (file_path fh f) s (fh1, fs1) else (Inr (), (fh1, fs1))) = (Inr u, w)"
    using assms(2) True by (cases "file_map fh (file_path fh f)") (simp_all add: FH_Output_def up)
  then consider "w = (fh1, fs1)" | "FH_Print (file_path fh f) s (fh1, fs1) = (Inr u, w)"
    by (cases res) simp_all
  then show ?thesis
  proof cases
    case 2
    from touches_Print [OF i(1) this] i(2) have "touches (resolve fs (file_path fh f)) (fh1, fs1) w" by simp
    with t show ?thesis by (rule touches_trans)
  qed (use t in simp)
qed

lemma fh_step_touches:
  assumes "fh_step f (fh, fs) w'" and "handler_inv (fh, fs)"
  shows "touches (resolve fs (file_path fh f)) (fh, fs) w'"
  using assms(1)
proof cases
  case (fh_open mode)
  obtain st fs' where o: "open_stream (file_path fh f) mode fs = (st, fs')" by fastforce
  with fh_open touches_open [OF assms(2) o] touches_refl [OF assms(2)] show ?thesis
    by (simp add: FH_Open_def Let_def split: option.splits stream.splits)
next
  case fh_close
  then show ?thesis using touches_set [OF assms(2)] touches_refl [OF assms(2)]
    by (simp add: FH_Close_def Let_def split: option.splits stream.splits)
next
  case fh_delete
  then show ?thesis using touches_set [OF assms(2)] touches_refl [OF assms(2)]
    by (simp add: FH_Delete_def Let_def split: option.splits)
next
  case (fh_upsert mode)
  then show ?thesis using touches_Upsert [OF assms(2)] by simp
next
  case (fh_output checks s u)
  then show ?thesis using touches_Output [OF assms(2)] by simp
next
  case fh_close_all
  have "touches (resolve fs (file_path fh f)) (fh, fs) (fh\<lparr>file_map := map_option (\<lambda>_. Closed) \<circ> file_map fh\<rparr>, fs)"
    using assms(2) by (rule touches_map) auto
  then show ?thesis by (simp add: fh_close_all FH_CloseFiles_def)
qed

lemma fh_run_touches:
  "fh_run fl w w' \<Longrightarrow> handler_inv w \<Longrightarrow> handler_inv w' \<and> grown (snd w) (snd w') \<and> fh_parent (fst w') = fh_parent (fst w) \<and>
    (\<forall>r. r \<notin> (\<lambda>f. resolve (snd w) (file_path (fst w) f)) ` set fl \<longrightarrow> node_at (snd w') r = node_at (snd w) r)"
proof (induction rule: fh_run.induct)
  case (fh_run_step f w w1 fl w2)
  have "touches (resolve (snd w) (file_path (fst w) f)) w w1"
    using fh_step_touches [of f "fst w" "snd w" w1] fh_run_step(1,4) by simp
  then have t: "handler_inv w1" "grown (snd w) (snd w1)" "fh_parent (fst w1) = fh_parent (fst w)"
    "\<forall>r. r \<noteq> resolve (snd w) (file_path (fst w) f) \<longrightarrow> node_at (snd w1) r = node_at (snd w) r" by (simp_all add: touches_def)
  have "resolve (snd w1) (file_path (fst w1) g) = resolve (snd w) (file_path (fst w) g)" for g
    using grown_resolve [OF t(2)] t(3) by (simp add: file_path_def)
  with fh_run_step(3) [OF t(1)] t show ?case by (auto intro: grown_trans)
qed simp

section \<open>Directories\<close>

lemma smap_snoc:
  "smap f (xs @ [x]) w = (case smap f xs w of (Inl e, w') \<Rightarrow> (Inl e, w') | (Inr ys, w') \<Rightarrow>
     (case f x w' of (Inl e, w'') \<Rightarrow> (Inl e, w'') | (Inr y, w'') \<Rightarrow> (Inr (ys @ [y]), w'')))"
  by (induction xs arbitrary: w) (auto simp: sbind_apply split: prod.splits sum.splits)

lemma make_dir_cases:
  assumes "make_dir q fs = (r, fs')" and "tree fs" and "node_at fs (butlast q) = Some Dir"
  shows "tree fs' \<and> grown fs fs' \<and> (\<forall>p. p \<noteq> q \<longrightarrow> node_at fs' p = node_at fs p) \<and>
    (\<forall>b. r = Inr b \<longrightarrow> node_at fs' q = Some Dir \<and> (b \<longleftrightarrow> node_at fs q = None))"
  using assms tree_put [OF assms(2,3), of Dir]
  by (cases "q = []") (auto simp: make_dir_def grown_def split: option.splits entry.splits if_splits)

lemma make_dirs:
  assumes "tree fs" and "n \<le> length q" and "smap make_dir (map (\<lambda>k. take (Suc k) q) [0..<n]) fs = (r, fs')"
  shows "tree fs' \<and> grown fs fs' \<and> (\<forall>p. (\<forall>k<n. p \<noteq> take (Suc k) q) \<longrightarrow> node_at fs' p = node_at fs p) \<and>
    (\<forall>ms. r = Inr ms \<longrightarrow> node_at fs' (take n q) = Some Dir \<and> length ms = n \<and> (n \<noteq> 0 \<longrightarrow> last ms = (node_at fs (take n q) = None)))"
  using assms(2,3)
proof (induction n arbitrary: r fs')
  case (Suc n)
  obtain r1 fs1 where s1: "smap make_dir (map (\<lambda>k. take (Suc k) q) [0..<n]) fs = (r1, fs1)" by fastforce
  note ih = Suc.IH [OF Suc_leD [OF Suc.prems(1)] s1]
  show ?case
  proof (cases r1)
    case (Inl e)
    with Suc.prems(2) s1 ih show ?thesis by (simp add: smap_snoc) auto
  next
    case (Inr ms)
    obtain r2 fs2 where s2: "make_dir (take (Suc n) q) fs1 = (r2, fs2)" by fastforce
    have b: "butlast (take (Suc n) q) = take n q" using Suc.prems(1) by (simp add: butlast_take)
    from ih Inr have t1: "tree fs1" "node_at fs1 (butlast (take (Suc n) q)) = Some Dir" by (simp_all add: b)
    note md = make_dir_cases [OF s2 t1]
    have fresh: "node_at fs1 (take (Suc n) q) = node_at fs (take (Suc n) q)"
    proof -
      have "take (Suc n) q \<noteq> take (Suc k) q" if "k < n" for k
      proof
        assume "take (Suc n) q = take (Suc k) q"
        then have "length (take (Suc n) q) = length (take (Suc k) q)" by simp
        with that Suc.prems(1) show False by simp
      qed
      with ih show ?thesis by blast
    qed
    from Suc.prems(2) s1 s2 Inr
    have res: "fs' = fs2" "r = (case r2 of Inl e \<Rightarrow> Inl e | Inr y \<Rightarrow> Inr (ms @ [y]))"
      by (simp_all add: smap_snoc split: sum.splits)
    have len: "length ms = n" using ih Inr by simp
    from ih md have "grown fs fs2" by (blast intro: grown_trans)
    with md ih fresh len res show ?thesis by (auto split: sum.splits simp: less_Suc_eq)
  qed
qed (use assms(1) in simp)

text \<open>Preparing a directory is idempotent, and answers whether it has created one.\<close>

lemma CreateDirIfNotPresent_Inr:
  assumes "tree fs" and "CreateDirIfNotPresent p fs = (Inr b, fs')"
  shows "(b \<longleftrightarrow> lookup fs p = None) \<and> (b \<longrightarrow> DirectoryExists fs' p) \<and> lookup fs' p \<noteq> None \<and> tree fs' \<and> grown fs fs' \<and>
    CreateDirIfNotPresent p fs' = (Inr False, fs')"
proof (cases "lookup fs p")
  case (Some e)
  with assms show ?thesis by (simp add: CreateDirIfNotPresent_def)
next
  case None
  let ?q = "resolve fs p"
  from None assms(2) have p: "p \<noteq> []" by (auto simp: CreateDirIfNotPresent_def create_directories_def)
  with None have q: "node_at fs ?q = None" by (simp add: lookup_def)
  then have "?q \<noteq> []" by auto
  from assms(2) None p obtain ms where
    m: "smap make_dir (map (\<lambda>k. take (Suc k) ?q) [0..<length ?q]) fs = (Inr ms, fs')" "b = (ms \<noteq> [] \<and> last ms)"
    by (auto simp: CreateDirIfNotPresent_def create_directories_def sbind_eq_Inr)
  from make_dirs [OF assms(1) order.refl m(1)] q \<open>?q \<noteq> []\<close>
  have r: "tree fs'" "grown fs fs'" "node_at fs' ?q = Some Dir" "length ms = length ?q" "last ms" by simp_all
  moreover from r(4) \<open>?q \<noteq> []\<close> have "ms \<noteq> []" by auto
  moreover have "lookup fs' p = Some Dir" using p r(3) grown_resolve [OF r(2)] by (simp add: lookup_def)
  ultimately show ?thesis using m(2) None by (simp add: DirectoryExists_def CreateDirIfNotPresent_def)
qed

lemma new_handler_inv: "tree fs \<Longrightarrow> new_FileHandler path fs = (Inr fh, fs') \<Longrightarrow> handler_inv (fh, fs') \<and> lookup fs' path \<noteq> None"
  using CreateDirIfNotPresent_Inr [of fs path]
  by (auto simp: new_FileHandler_def sbind_eq_Inr handler_inv_def)

text \<open>An empty path is refused: also a file without a directory part, when its directory is to be created.\<close>

lemma empty_path_refused:
  "CreateDirIfNotPresent [] fs = (Inl filesystem_error, fs)"
  "slash \<notin> set name \<Longrightarrow> CreateFileIfNotPresent name True fs = (Inl filesystem_error, fs)"
proof -
  show "CreateDirIfNotPresent [] fs = (Inl filesystem_error, fs)"
    by (simp add: CreateDirIfNotPresent_def create_directories_def lookup_def)
  assume "slash \<notin> set name"
  then have "dropWhile (\<lambda>c. c \<noteq> slash) (rev name) = []" by (auto simp: dropWhile_eq_Nil_conv)
  then have "parent_path name = []" by (simp add: parent_path_def Let_def)
  then show "CreateFileIfNotPresent name True fs = (Inl filesystem_error, fs)"
    by (simp add: CreateFileIfNotPresent_def sbind_apply create_directories_def lookup_def)
qed

text \<open>Deleting removes the entry with everything below it and counts what it removed.\<close>

lemma DeleteEntry_removes:
  assumes "tree fs" and "resolve fs p \<noteq> []"
  shows "lookup (snd (DeleteEntry p fs)) p = None \<and> (fst (DeleteEntry p fs) = 0 \<longleftrightarrow> lookup fs p = None) \<and>
    (\<forall>q. \<not> below (resolve fs p) q \<longrightarrow> node_at (snd (DeleteEntry p fs)) q = node_at fs q)"
proof -
  let ?r = "resolve fs p"
  have filt: "map_of (filter (\<lambda>(q, _). \<not> below ?r q) xs) q = (if below ?r q then None else map_of xs q)" for xs :: "(location \<times> entry) list" and q
    by (induction xs) auto
  have below: "below ?r ?r" by (simp add: below_def)
  have root: "\<not> below ?r []" using assms(2) by (simp add: below_def)
  have cnt: "count_below ?r fs \<noteq> 0" if "map_of (nodes fs) ?r = Some e" for e
  proof -
    have "(?r, e) \<in> set (filter (\<lambda>(q, _). below ?r q) (nodes fs))" using map_of_SomeD [OF that] below by auto
    then have "filter (\<lambda>(q, _). below ?r q) (nodes fs) \<noteq> []" by (metis empty_iff list.set(1))
    then show ?thesis by (simp add: count_below_def)
  qed
  have keep: "resolve (fs\<lparr>nodes := ns\<rparr>) p = ?r" for ns by (simp add: resolve_def)
  have ne: "q \<noteq> ?r" if "\<not> below ?r q" for q using that below by auto
  show ?thesis
  proof (cases "lookup fs p")
    case None
    then show ?thesis by (simp add: DeleteEntry_def Let_def)
  next
    case (Some e)
    then have e: "map_of (nodes fs) ?r = Some e" using assms(2) by (auto simp: lookup_def node_at_def split: if_splits)
    show ?thesis
      using Some cnt [OF e] assms(2) ne keep below root
      by (cases e) (auto simp: DeleteEntry_def Let_def lookup_def node_at_def remove_below_def filt)
  qed
qed

section \<open>Properties\<close>

text \<open>C35: from its construction on, whatever files a handler opens, writes, closes and deletes, each
open stream writes to an existing file at the place its key names; nothing of the file system is
lost, and only entries at the names used change.\<close>

theorem handler_invariant:
  assumes "tree fs" and "new_FileHandler path fs = (Inr fh, fs1)" and "fh_run fl (fh, fs1) w"
  shows "(\<forall>p q mode pos. file_map (fst w) p = Some (Opened q mode pos) \<longrightarrow>
      q = resolve (snd w) p \<and> (\<exists>c. node_at (snd w) q = Some (File c))) \<and>
    tree (snd w) \<and> grown fs (snd w) \<and> lookup fs1 path \<noteq> None \<and>
    (\<forall>r. r \<notin> (\<lambda>f. resolve fs (path_div path f)) ` set fl \<longrightarrow> node_at (snd w) r = node_at fs1 r)"
proof -
  note n = new_handler_inv [OF assms(1,2)]
  have g: "grown fs fs1" "fh_parent fh = path"
    using assms(2) CreateDirIfNotPresent_Inr [OF assms(1), of path] by (auto simp: new_FileHandler_def sbind_eq_Inr)
  note r = fh_run_touches [OF assms(3) conjunct1 [OF n]]
  from r g(1) have "grown fs (snd w)" by (auto intro: grown_trans)
  moreover have "resolve fs1 q = resolve fs q" for q by (rule grown_resolve [OF g(1)])
  moreover have "handler_inv (fst w, snd w)" using r by simp
  ultimately show ?thesis
    using r n g(2) handler_invD [of "fst w" "snd w"] handler_inv_tree [of "fst w" "snd w"]
    by (simp add: file_path_def)
qed

definition sample_fs :: filesystem where
  "sample_fs = \<lparr>nodes = [([''home''], Dir), ([''home'', ''log''], File ''old'')], cwd = [''home''], denied = (\<lambda>q. q = [''root''])\<rparr>"

lemma sample_tree: "tree sample_fs"
proof -
  have "node_at sample_fs q = (if q = [] then Some Dir else if q = [''home''] then Some Dir
      else if q = [''home'', ''log''] then Some (File ''old'') else None)" for q
    by (simp add: node_at_def sample_fs_def)
  then show ?thesis by (simp add: tree_def)
qed

theorem handler_invariant_witness:
  "\<exists>fh fs1 w. new_FileHandler ''out'' sample_fs = (Inr fh, fs1) \<and> w = snd (FH_Upsert ''a'' Out (fh, fs1)) \<and>
    file_map (fst w) ''out/a'' = Some (Opened [''home'', ''out'', ''a''] Out 0) \<and>
    (\<exists>c. node_at (snd w) [''home'', ''out'', ''a''] = Some (File c))"
proof -
  define fh where "fh = \<lparr>fh_parent = ''out'', file_map = Map.empty\<rparr>"
  define fs1 where "fs1 = put_node [''home'', ''out''] Dir sample_fs"
  have "resolve sample_fs ''out'' = [''home'', ''out'']" "lookup sample_fs ''out'' = None" by code_simp+
  then have n: "new_FileHandler ''out'' sample_fs = (Inr fh, fs1)"
    unfolding fh_def fs1_def
    by (simp add: new_FileHandler_def sbind_apply CreateDirIfNotPresent_def create_directories_def upt_rec make_dir_def
        node_at_def sample_fs_def)
  have o: "file_map (fst (snd (FH_Upsert ''a'' Out (fh, fs1)))) ''out/a'' = Some (Opened [''home'', ''out'', ''a''] Out 0)"
    unfolding fh_def fs1_def by code_simp
  have "fh_run [''a''] (fh, fs1) (snd (FH_Upsert ''a'' Out (fh, fs1)))" 
    by (rule fh_run_step [OF fh_upsert fh_run_none])
  from handler_invariant [OF sample_tree n this] o
  have "\<exists>c. node_at (snd (snd (FH_Upsert ''a'' Out (fh, fs1)))) [''home'', ''out'', ''a''] = Some (File c)" by blast
  with n o show ?thesis by blast
qed



end
