(* ===== verification/BenchHandler.thy ===== *)
theory BenchHandler
  imports FileHandler ClockArray PrintUtils
begin

text \<open>
  \<open>BenchmarkHandler.h\<close>: the cartesian product of the parameter arrays, and the class that runs a
  benchmark function on every combination and appends its times to one file per measured place.
  The values of a combination have one type here, with a text for each; the benchmark function
  and the name generator are arguments.
\<close>

section \<open>The cartesian product\<close>

definition wrap64 :: "nat \<Rightarrow> nat" where
  "wrap64 n = n mod 2 ^ 64"

text \<open>\<open>dims[i] *= dims[i - 1]\<close> for every index but the first.\<close>

fun running :: "nat \<Rightarrow> nat list \<Rightarrow> nat list" where
  "running acc [] = []"
| "running acc (d # ds) = wrap64 (d * acc) # running (wrap64 (d * acc)) ds"

definition product_dims :: "nat list \<Rightarrow> nat list" where
  "product_dims ds = (case ds of [] \<Rightarrow> [] | d # ds \<Rightarrow> d # running d ds)"

definition CartesianProduct :: "'a list list \<Rightarrow> 'a list list" where
  "CartesianProduct arrays =
    (let kN = foldl (\<lambda>n a. wrap64 (n * length a)) 1 arrays; dims = product_dims (map length arrays)
     in map (\<lambda>i. map (\<lambda>k. arrays ! k ! (wrap64 (i * dims ! k) div kN mod length (arrays ! k))) [0..<length arrays]) [0..<kN])"

section \<open>The handler\<close>

record BenchmarkHandler =
  bh_fh :: FileHandler
  benchmark_name :: string
  clk_arr :: ClockArray
  bh_mul :: nat

type_synonym bench_state = "BenchmarkHandler \<times> filesystem"

definition ddpath :: string where
  "ddpath = ''timers''"

definition new_BenchmarkHandler :: "string \<Rightarrow> string option \<Rightarrow> (filesystem, fault, BenchmarkHandler) action" where
  "new_BenchmarkHandler name path = (\<lambda>fs.
     sbind (slift (case path of None \<Rightarrow> Inr [] | Some p \<Rightarrow> GetNormalAbs fs p)) (\<lambda>dir.
     sbind (new_FileHandler dir) (\<lambda>fh.
       sret \<lparr>bh_fh = fh, benchmark_name = name, clk_arr = new_ClockArray, bh_mul = 1\<rparr>)) fs)"

text \<open>The product of a signed time and an unsigned factor is unsigned.\<close>

definition scaled_time :: "int \<Rightarrow> nat \<Rightarrow> string" where
  "scaled_time t multiplier = show_nat (nat ((t * int multiplier) mod 2 ^ 64))"

definition timer_file :: "LocationType \<Rightarrow> string" where
  "timer_file loc = path_div ddpath (loc_at loc 3 @ ''_'' @ loc_at loc 1)"

definition snapshot_one :: "string \<Rightarrow> string \<Rightarrow> nat \<Rightarrow> LocationType \<times> timeStore \<Rightarrow> (handled, fault, unit) action" where
  "snapshot_one preprint delim multiplier = (\<lambda>(loc, ts).
     sbind (\<lambda>w. (Inr (), snd (FH_Upsert (timer_file loc) App w))) (\<lambda>_.
     sbind (FH_Output True (timer_file loc) preprint) (\<lambda>_.
     sbind (FH_Output True (timer_file loc) (scaled_time (ts_time ts) multiplier)) (\<lambda>_.
     sbind (FH_Output True (timer_file loc) delim) (\<lambda>_ w. (Inr (), snd (FH_Close (timer_file loc) w)))))))"

definition SnapshotTimers :: "ClockArray \<Rightarrow> string \<Rightarrow> string \<Rightarrow> nat \<Rightarrow> (handled, fault, unit) action" where
  "SnapshotTimers clk preprint delim multiplier =
    sbind (smap (snapshot_one preprint delim multiplier) (timers clk)) (\<lambda>_. sret ())"

text \<open>Runs an operation of the file handler, or of the clock, on its part of the state.\<close>

definition on_files :: "(handled, fault, 'a) action \<Rightarrow> (bench_state, fault, 'a) action" where
  "on_files act = (\<lambda>(b, fs). case act (bh_fh b, fs) of (r, fh, fs') \<Rightarrow> (r, b\<lparr>bh_fh := fh\<rparr>, fs'))"

definition on_clock :: "(ClockArray, fault, 'a) action \<Rightarrow> (bench_state, fault, 'a) action" where
  "on_clock act = (\<lambda>(b, fs). case act (clk_arr b) of (r, c) \<Rightarrow> (r, b\<lparr>clk_arr := c\<rparr>, fs))"

definition bench_round ::
    "('a \<Rightarrow> string) \<Rightarrow> ('a list \<Rightarrow> (bench_state, fault, unit) action) \<Rightarrow> 'a list \<Rightarrow> ClockArray \<Rightarrow> (bench_state, fault, ClockArray) action" where
  "bench_round put bench_function tuple clkdc =
    sbind (bench_function tuple) (\<lambda>_.
    sbind (\<lambda>(b, fs). on_files (SnapshotTimers (clk_arr b) (TupleToString (map put tuple) tab [] [] @ tab) newline (bh_mul b)) (b, fs)) (\<lambda>_.
    sbind (\<lambda>(b, fs). (Inr (advance (clk_arr b) clkdc), b, fs)) (\<lambda>clkdc.
    sbind (on_clock Reset) (\<lambda>_. sret clkdc))))"

fun bench_rounds ::
    "('a \<Rightarrow> string) \<Rightarrow> ('a list \<Rightarrow> (bench_state, fault, unit) action) \<Rightarrow> 'a list list \<Rightarrow> ClockArray \<Rightarrow> (bench_state, fault, ClockArray) action" where
  "bench_rounds put bench_function [] clkdc = sret clkdc"
| "bench_rounds put bench_function (tuple # cart) clkdc =
    sbind (bench_round put bench_function tuple clkdc) (bench_rounds put bench_function cart)"

definition RunBenchmark ::
    "('a \<Rightarrow> string) \<Rightarrow> ('a list \<Rightarrow> (bench_state, fault, unit) action) \<Rightarrow> 'a list list \<Rightarrow> (bench_state, fault, unit) action" where
  "RunBenchmark put bench_function arrays = (\<lambda>(b, fs).
    sbind (on_files (\<lambda>(fh, fs). case CreateDirIfNotPresent (path_div (GetParentPath fh) ddpath) fs of (r, fs') \<Rightarrow> (r, fh, fs'))) (\<lambda>_.
    sbind (bench_rounds put bench_function (CartesianProduct arrays) (clk_arr b)) (\<lambda>clkdc (b, fs).
      (Inr (), b\<lparr>clk_arr := clkdc\<rparr>, fs))) (b, fs))"

definition PrintClocks :: "(bench_state, fault, unit) action" where
  "PrintClocks = (\<lambda>(b, fs). on_files (sbind (\<lambda>w. (Inr (), snd (FH_Upsert ''benchTimers.txt'' Out w))) (\<lambda>_.
     FH_Output True ''benchTimers.txt'' (print_clock (clk_arr b)))) (b, fs))"

definition delete_BenchmarkHandler :: "(bench_state, fault, unit) action" where
  "delete_BenchmarkHandler = sbind PrintClocks (\<lambda>_. on_files (\<lambda>w. (Inr (), FH_CloseFiles w)))"

text \<open>Without a path, which is documented as the current directory, the construction fails.\<close>

lemma default_path_refused: "new_BenchmarkHandler name None fs = (Inl filesystem_error, fs)"
  by (simp add: new_BenchmarkHandler_def new_FileHandler_def sbind_apply empty_path_refused)

section \<open>The product as a table\<close>

definition prod_len :: "'a list list \<Rightarrow> nat" where
  "prod_len xss = prod_list (map length xss)"

lemma prod_len_simps [simp]: "prod_len [] = 1" "prod_len (xs # xss) = length xs * prod_len xss"
  by (simp_all add: prod_len_def)

lemma prod_len_append: "prod_len (xss @ yss) = prod_len xss * prod_len yss"
  by (simp add: prod_len_def)

lemma prod_len_split: "k < length xss \<Longrightarrow> prod_len xss = prod_len (take (Suc k) xss) * prod_len (drop (Suc k) xss)"
  by (metis append_take_drop_id prod_len_append)

lemma prod_len_Suc: "k < length xss \<Longrightarrow> prod_len (take (Suc k) xss) = prod_len (take k xss) * length (xss ! k)"
  by (simp add: take_Suc_conv_app_nth prod_len_append)

lemma length_product_lists: "length (product_lists xss) = prod_len xss"
  by (induction xss) (simp_all add: length_concat comp_def sum_list_triv)

lemma mod_div_swap: "0 < (r :: nat) \<Longrightarrow> i mod (r * c) div r = i div r mod c"
  by (simp add: mod_mult2_eq)

lemma product_lists_nth:
  "i < prod_len xss \<Longrightarrow> product_lists xss ! i =
    map (\<lambda>k. xss ! k ! (i div prod_len (drop (Suc k) xss) mod length (xss ! k))) [0..<length xss]"
proof (induction xss arbitrary: i)
  case (Cons xs xss)
  let ?m = "prod_len xss"
  from Cons.prems have m: "0 < ?m" by (cases "?m = 0") simp_all
  then have im: "i mod ?m < ?m" by simp
  have d: "i div ?m < length xs" using Cons.prems by (simp add: less_mult_imp_div_less)
  have "product_lists (xs # xss) ! i = concat (map (\<lambda>x. map (Cons x) (product_lists xss)) xs) ! (i div ?m * ?m + i mod ?m)"
    by simp
  also have "\<dots> = map (\<lambda>x. map (Cons x) (product_lists xss)) xs ! (i div ?m) ! (i mod ?m)"
    by (rule nth_concat_uniform) (use d im in \<open>auto simp: length_product_lists\<close>)
  also have "\<dots> = xs ! (i div ?m) # product_lists xss ! (i mod ?m)"
    using d im by (simp add: length_product_lists)
  also have "product_lists xss ! (i mod ?m) =
      map (\<lambda>k. xss ! k ! (i mod ?m div prod_len (drop (Suc k) xss) mod length (xss ! k))) [0..<length xss]"
    by (rule Cons.IH [OF im])
  also have "\<dots> = map (\<lambda>k. xss ! k ! (i div prod_len (drop (Suc k) xss) mod length (xss ! k))) [0..<length xss]"
  proof (intro map_cong refl)
    fix k
    assume "k \<in> set [0..<length xss]"
    then have k: "k < length xss" by simp
    let ?r = "prod_len (drop (Suc k) xss)"
    have "?m = prod_len (take k xss) * (length (xss ! k) * ?r)"
      by (simp add: prod_len_split [OF k] prod_len_Suc [OF k] ac_simps)
    then have mr: "?m = ?r * (length (xss ! k) * prod_len (take k xss))" by (simp only: ac_simps)
    with m have "0 < ?r" by (cases "?r = 0") simp_all
    then have "i mod ?m div ?r = i div ?r mod (length (xss ! k) * prod_len (take k xss))"
      unfolding mr by (rule mod_div_swap)
    then show "xss ! k ! (i mod ?m div ?r mod length (xss ! k)) = xss ! k ! (i div ?r mod length (xss ! k))"
      by (simp add: mod_mod_cancel)
  qed
  finally show ?case
    using d by (simp add: upt_conv_Cons comp_def del: upt_Suc flip: map_Suc_upt)
qed simp

section \<open>The code's index computation\<close>

lemma wrap64_id: "n < 2 ^ 64 \<Longrightarrow> wrap64 n = n"
  by (simp add: wrap64_def)

lemma wrap64_0 [simp]: "wrap64 0 = 0"
  by (simp add: wrap64_def)

lemma size_fold_empty: "foldl (\<lambda>n a. wrap64 (n * length a)) 0 xss = 0"
  by (induction xss) simp_all

lemma size_fold_zero: "[] \<in> set xss \<Longrightarrow> foldl (\<lambda>n a. wrap64 (n * length a)) n xss = 0"
  by (induction xss arbitrary: n) (auto simp: size_fold_empty)

lemma prod_len_pos: "[] \<notin> set xss \<Longrightarrow> 0 < prod_len xss"
  by (induction xss) auto

lemma factor_bound: "a * (b * c) < (m :: nat) \<Longrightarrow> 0 < c \<Longrightarrow> a * b < m"
  by (metis le_less_trans mult.assoc mult.right_neutral mult_le_mono2 Suc_leI One_nat_def)

lemma size_fold: "[] \<notin> set xss \<Longrightarrow> n * prod_len xss < 2 ^ 64 \<Longrightarrow> foldl (\<lambda>n a. wrap64 (n * length a)) n xss = n * prod_len xss"
proof (induction xss arbitrary: n)
  case (Cons xs xss)
  then have "n * length xs < 2 ^ 64" using factor_bound [of n "length xs" "prod_len xss"] prod_len_pos [of xss] by simp
  with Cons show ?case by (simp add: wrap64_id mult.assoc)
qed simp

lemma running_nth:
  "[] \<notin> set xss \<Longrightarrow> acc * prod_len xss < 2 ^ 64 \<Longrightarrow> k < length xss \<Longrightarrow>
    running acc (map length xss) ! k = acc * prod_len (take (Suc k) xss)"
proof (induction xss arbitrary: acc k)
  case (Cons xs xss)
  then have "acc * length xs < 2 ^ 64" using factor_bound [of acc "length xs" "prod_len xss"] prod_len_pos [of xss] by simp
  then have w: "wrap64 (length xs * acc) = acc * length xs" by (simp add: wrap64_id mult.commute)
  with Cons show ?case by (cases k) (simp_all add: mult.assoc)
qed simp

lemma product_dims_nth:
  assumes "[] \<notin> set xss" and "prod_len xss < 2 ^ 64" and "k < length xss"
  shows "product_dims (map length xss) ! k = prod_len (take (Suc k) xss)"
proof (cases xss)
  case (Cons xs yss)
  with assms running_nth [of yss "length xs" "k - 1"] show ?thesis
    by (cases k) (auto simp: product_dims_def)
qed (use assms in simp)

section \<open>What a run writes\<close>

definition content :: "filesystem \<Rightarrow> location \<Rightarrow> string" where
  "content fs q = (case node_at fs q of Some (File c) \<Rightarrow> c | _ \<Rightarrow> [])"

definition timer_at :: "handled \<Rightarrow> LocationType \<Rightarrow> location" where
  "timer_at = (\<lambda>(fh, fs) loc. resolve fs (file_path fh (timer_file loc)))"

text \<open>The file of a place can be opened for appending.\<close>

definition can_append :: "handled \<Rightarrow> LocationType \<Rightarrow> bool" where
  "can_append w loc \<longleftrightarrow> (case w of (fh, fs) \<Rightarrow> let p = file_path fh (timer_file loc); q = timer_at w loc in
     (file_map fh p = None \<or> file_map fh p = Some Closed) \<and> p \<noteq> [] \<and> node_at fs (butlast q) = Some Dir \<and>
     node_at fs q \<noteq> Some Dir \<and> \<not> denied fs q)"

definition timer_line :: "string \<Rightarrow> string \<Rightarrow> nat \<Rightarrow> timeStore \<Rightarrow> string" where
  "timer_line preprint delim multiplier ts = preprint @ scaled_time (ts_time ts) multiplier @ delim"

definition lines_for :: "handled \<Rightarrow> (timeStore \<Rightarrow> string) \<Rightarrow> (LocationType \<times> timeStore) list \<Rightarrow> location \<Rightarrow> string" where
  "lines_for w line ts r = concat (map (\<lambda>(loc, ts). if timer_at w loc = r then line ts else []) ts)"

lemma put_node_twice [simp]: "put_node q e (put_node q e' fs) = put_node q e fs"
proof -
  have "aput q e (aput q e' m) = aput q e m" for m :: "(location \<times> entry) list" by (induction m) auto
  then show ?thesis by (simp add: put_node_def)
qed

lemma snapshot_one_eq:
  assumes "can_append (fh, fs) loc"
  shows "snapshot_one preprint delim multiplier (loc, ts) (fh, fs) =
    (Inr (), set_stream (file_path fh (timer_file loc)) (Some Closed) fh,
      put_node (timer_at (fh, fs) loc) (File (content fs (timer_at (fh, fs) loc) @ timer_line preprint delim multiplier ts)) fs)"
proof -
  let ?p = "file_path fh (timer_file loc)"
  let ?q = "resolve fs ?p"
  from assms have c: "file_map fh ?p = None \<or> file_map fh ?p = Some Closed" "?p \<noteq> []" "node_at fs (butlast ?q) = Some Dir"
    "node_at fs ?q \<noteq> Some Dir" "\<not> denied fs ?q" by (auto simp: can_append_def timer_at_def Let_def)
  then have q: "?q \<noteq> []" by auto
  have op: "open_stream ?p App fs = (Opened ?q App 0, if node_at fs ?q = None then put_node ?q (File []) fs else fs)"
    using c by (auto simp: open_stream_def Let_def split: option.splits entry.splits)
  have "(case file_map fh ?p of None \<Rightarrow> Closed | Some st \<Rightarrow> st) = Closed" using c(1) by auto
  then have up: "snd (FH_Upsert (timer_file loc) App (fh, fs)) =
      (set_stream ?p (Some (Opened ?q App 0)) fh, if node_at fs ?q = None then put_node ?q (File []) fs else fs)"
    by (simp add: FH_Upsert_def Let_def op)
  have out: "FH_Output True (timer_file loc) s (set_stream ?p (Some (Opened ?q App pos)) fh, fs') =
      (Inr (), set_stream ?p (Some (Opened ?q App (pos + length s))) fh, put_node ?q (File (c @ s)) fs')"
    if "node_at fs' ?q = Some (File c)" for s pos fs' c
    using that by (simp add: FH_Output_def FH_Upsert_def Let_def FH_Print_def write_stream_def)
  obtain c where n: "node_at (if node_at fs ?q = None then put_node ?q (File []) fs else fs) ?q = Some (File c)" "content fs ?q = c"
    using c(4) q by (cases "node_at fs ?q"; cases "the (node_at fs ?q)") (auto simp: content_def)
  show ?thesis
    using q by (simp add: snapshot_one_def sbind_apply up out [OF n(1)] out FH_Close_def timer_at_def timer_line_def n(2))
qed

text \<open>Writing at one place leaves the others as they were.\<close>

definition same_place :: "handled \<Rightarrow> handled \<Rightarrow> bool" where
  "same_place w w' \<longleftrightarrow> timer_at w' = timer_at w \<and> (\<forall>loc. can_append w loc \<longrightarrow> can_append w' loc)"

lemma same_place_put:
  assumes "can_append (fh, fs) loc"
  shows "same_place (fh, fs) (set_stream (file_path fh (timer_file loc)) (Some Closed) fh, put_node (timer_at (fh, fs) loc) (File c) fs)"
  using assms by (auto simp: same_place_def can_append_def timer_at_def Let_def fun_eq_iff)

lemma content_put: "r \<noteq> [] \<Longrightarrow> content (put_node r (File c) fs) q = (if q = r then c else content fs q)"
  by (simp add: content_def)

lemma can_append_located: "can_append w loc \<Longrightarrow> timer_at w loc \<noteq> []"
  by (auto simp: can_append_def Let_def split: prod.splits)

lemma snapshot_all:
  assumes "\<forall>(loc, t)\<in>set ts. can_append w loc"
  shows "\<exists>us w'. smap (snapshot_one preprint delim multiplier) ts w = (Inr us, w') \<and> same_place w w' \<and>
    content (snd w') = (\<lambda>r. content (snd w) r @ lines_for w (timer_line preprint delim multiplier) ts r)"
  using assms
proof (induction ts arbitrary: w)
  case (Cons x ts)
  obtain fh fs loc t where w: "w = (fh, fs)" "x = (loc, t)" by (metis surj_pair)
  with Cons.prems have c: "can_append (fh, fs) loc" by auto
  let ?w1 = "(set_stream (file_path fh (timer_file loc)) (Some Closed) fh, put_node (timer_at (fh, fs) loc)
      (File (content fs (timer_at (fh, fs) loc) @ timer_line preprint delim multiplier t)) fs)"
  note sp = same_place_put [OF c, of "content fs (timer_at (fh, fs) loc) @ timer_line preprint delim multiplier t"]
  have "\<forall>(loc, t)\<in>set ts. can_append ?w1 loc" using Cons.prems sp w by (auto simp: same_place_def)
  from Cons.IH [OF this] obtain us w' where w': "smap (snapshot_one preprint delim multiplier) ts ?w1 = (Inr us, w')" "same_place ?w1 w'"
    "content (snd w') = (\<lambda>r. content (snd ?w1) r @ lines_for ?w1 (timer_line preprint delim multiplier) ts r)" by blast
  have "timer_at ?w1 = timer_at (fh, fs)" using sp by (simp add: same_place_def)
  then have "content (snd w') = (\<lambda>r. content (snd w) r @ lines_for w (timer_line preprint delim multiplier) (x # ts) r)"
    using can_append_located [OF c] by (simp add: w'(3) w lines_for_def content_put fun_eq_iff)
  moreover have "same_place w w'" using sp w'(2) by (simp add: same_place_def w)
  moreover have "smap (snapshot_one preprint delim multiplier) (x # ts) w = (Inr (() # us), w')"
    using w'(1) by (simp add: w sbind_apply snapshot_one_eq [OF c])
  ultimately show ?case by blast
qed (simp add: same_place_def lines_for_def)

definition bh_files :: "bench_state \<Rightarrow> handled" where
  "bh_files = (\<lambda>(b, fs). (bh_fh b, fs))"

section \<open>The clock over a run\<close>

lemma ordered_ext:
  assumes "ordered m" and "ordered m'" and "map_of m = map_of m'"
  shows "m = m'"
proof -
  have table: "n = map (\<lambda>k. (k, the (map_of n k))) (map fst n)" if "ordered n" for n :: "('a \<times> 'b) list"
  proof (intro nth_equalityI)
    fix i
    assume i: "i < length n"
    then have "map_of n (fst (n ! i)) = Some (snd (n ! i))"
      by (intro map_of_is_SomeI ordered_distinct [OF that]) simp
    with i show "n ! i = map (\<lambda>k. (k, the (map_of n k))) (map fst n) ! i" by (simp add: prod_eq_iff)
  qed simp
  have "dom (map_of m) = dom (map_of m')" by (simp only: assms(3))
  then have "set (map fst m) = set (map fst m')" by (simp add: dom_map_of_conv_image_fst)
  then have keys: "map fst m = map fst m'"
    using assms(1,2) by (intro sorted_distinct_set_unique ordered_distinct) (auto simp: ordered_def strict_sorted_iff)
  have "m = map (\<lambda>k. (k, the (map_of m k))) (map fst m)" by (rule table [OF assms(1)])
  also have "\<dots> = map (\<lambda>k. (k, the (map_of m' k))) (map fst m')" by (simp only: keys assms(3))
  also have "\<dots> = m'" by (rule table [OF assms(2), symmetric])
  finally show ?thesis .
qed

definition time_of :: "ClockArray \<Rightarrow> LocationType \<Rightarrow> int" where
  "time_of c k = (case map_of (timers c) k of None \<Rightarrow> 0 | Some ts \<Rightarrow> ts_time ts)"

lemma advance_keeps [simp]: "to_tak (advance other c) = to_tak c" "starting (advance other c) = starting c"
proof -
  have "to_tak (fold (\<lambda>(loc, ts). add_time loc ts) m c) = to_tak c \<and> starting (fold (\<lambda>(loc, ts). add_time loc ts) m c) = starting c" for m
    by (induction m arbitrary: c) auto
  then show "to_tak (advance other c) = to_tak c" "starting (advance other c) = starting c" by (simp_all add: advance_def)
qed

lemma advance_inv:
  assumes "clock_inv c" and "clock_inv other"
  shows "clock_inv (advance other c) \<and> time_of (advance other c) k = time_of c k + time_of other k \<and>
    (map_of (timers (advance other c)) k = None \<longleftrightarrow> map_of (timers c) k = None \<and> map_of (timers other) k = None)"
proof -
  have "distinct (map fst (timers other))" using assms(2) by (simp add: clock_inv_def ordered_distinct)
  from advance_lookup [OF assms(1) this, of k] show ?thesis
    by (auto simp: advance_def [symmetric] time_of_def split: option.splits)
qed

lemma advance_empty:
  assumes "clock_inv c" and "clock_inv other" and "timers c = []"
  shows "timers (advance other c) = timers other"
proof (rule ordered_ext)
  have d: "distinct (map fst (timers other))" using assms(2) by (simp add: clock_inv_def ordered_distinct)
  show "map_of (timers (advance other c)) = map_of (timers other)"
  proof
    fix k
    from advance_lookup [OF assms(1) d, of k] assms(3) show "map_of (timers (advance other c)) k = map_of (timers other) k"
      by (simp add: advance_def [symmetric] split: option.splits)
  qed
qed (use advance_inv [OF assms(1,2)] assms(2) in \<open>simp_all add: clock_inv_def\<close>)

text \<open>A benchmark function that only measures: it adds the measurements \<open>c tuple\<close> to the clock.\<close>

definition only_measures :: "('a list \<Rightarrow> (bench_state, fault, unit) action) \<Rightarrow> ('a list \<Rightarrow> ClockArray) \<Rightarrow> handled \<Rightarrow> 'a list \<Rightarrow> bool" where
  "only_measures bench_function c w tuple \<longleftrightarrow>
    (\<forall>b fs. bench_function tuple (b, fs) = (Inr (), b\<lparr>clk_arr := advance (c tuple) (clk_arr b)\<rparr>, fs)) \<and>
    clock_inv (c tuple) \<and> (\<forall>(loc, ts)\<in>set (timers (c tuple)). can_append w loc)"

definition round_lines :: "handled \<Rightarrow> ('a \<Rightarrow> string) \<Rightarrow> nat \<Rightarrow> 'a list \<Rightarrow> ClockArray \<Rightarrow> location \<Rightarrow> string" where
  "round_lines w put multiplier tuple clk =
    lines_for w (timer_line (TupleToString (map put tuple) tab [] [] @ tab) newline multiplier) (timers clk)"

definition idle_clock :: "ClockArray \<Rightarrow> bool" where
  "idle_clock c \<longleftrightarrow> clock_inv c \<and> to_tak c = []"

lemma bench_round_eq:
  assumes "only_measures bench_function c (bh_files (b, fs)) tuple" and "idle_clock (clk_arr b)"
    and "\<forall>(loc, ts)\<in>set (timers (clk_arr b)). can_append (bh_files (b, fs)) loc"
  shows "\<exists>b' fs'. bench_round put bench_function tuple clkdc (b, fs) =
      (Inr (advance (advance (c tuple) (clk_arr b)) clkdc), b', fs') \<and> same_place (bh_files (b, fs)) (bh_files (b', fs')) \<and>
    content fs' = (\<lambda>r. content fs r @ round_lines (bh_files (b, fs)) put (bh_mul b) tuple (advance (c tuple) (clk_arr b)) r) \<and>
    bh_mul b' = bh_mul b \<and> idle_clock (clk_arr b') \<and> timers (clk_arr b') = []"
proof -
  let ?clk = "advance (c tuple) (clk_arr b)" and ?w = "bh_files (b, fs)"
  let ?pre = "TupleToString (map put tuple) tab [] [] @ tab"
  have bf: "bench_function tuple (b, fs) = (Inr (), b\<lparr>clk_arr := ?clk\<rparr>, fs)" and ci: "clock_inv (c tuple)"
    using assms(1) by (auto simp: only_measures_def)
  have "can_append ?w loc" if "(loc, ts) \<in> set (timers ?clk)" for loc ts
  proof -
    have "map_of (timers ?clk) loc \<noteq> None" using weak_map_of_SomeI [OF that] by auto
    then have "map_of (timers (clk_arr b)) loc \<noteq> None \<or> map_of (timers (c tuple)) loc \<noteq> None"
      using advance_inv [OF _ ci, of "clk_arr b" loc] assms(2) by (auto simp: idle_clock_def)
    with assms(1,3) show ?thesis by (fastforce simp: only_measures_def dest: map_of_SomeD)
  qed
  then have "\<forall>(loc, t)\<in>set (timers ?clk). can_append ?w loc" by auto
  from snapshot_all [OF this, of ?pre newline "bh_mul b"] obtain us fh' fs' where
    sn: "smap (snapshot_one ?pre newline (bh_mul b)) (timers ?clk) ?w = (Inr us, fh', fs')" "same_place ?w (fh', fs')"
      "content fs' = (\<lambda>r. content fs r @ lines_for ?w (timer_line ?pre newline (bh_mul b)) (timers ?clk) r)"
    by (auto simp: bh_files_def)
  have idle: "to_tak ?clk = []" using assms(2) by (simp add: idle_clock_def)
  have "bench_round put bench_function tuple clkdc (b, fs) =
      (Inr (advance ?clk clkdc), b\<lparr>clk_arr := ?clk\<lparr>timers := [], starting := []\<rparr>, bh_fh := fh'\<rparr>, fs')"
    using sn(1) idle by (simp add: bench_round_def sbind_apply bf on_files_def on_clock_def SnapshotTimers_def bh_files_def Reset_def)
  with sn(2,3) idle show ?thesis by (simp add: bh_files_def round_lines_def idle_clock_def clock_inv_def)
qed

lemma same_place_measures:
  "same_place w w' \<Longrightarrow> only_measures bench_function c w t \<Longrightarrow> only_measures bench_function c w' t"
  unfolding only_measures_def same_place_def by fast

lemma round_lines_place: "same_place w w' \<Longrightarrow> round_lines w' put m t clk = round_lines w put m t clk"
  by (simp add: round_lines_def lines_for_def same_place_def fun_eq_iff)

lemma same_place_trans: "same_place w w1 \<Longrightarrow> same_place w1 w2 \<Longrightarrow> same_place w w2"
  by (simp add: same_place_def)

lemma bench_rounds_eq:
  assumes "\<forall>t\<in>set cart. only_measures bench_function c (bh_files (b, fs)) t" and "idle_clock (clk_arr b)" and "timers (clk_arr b) = []"
    and "clock_inv clkdc"
  shows "\<exists>clkdc' b' fs'. bench_rounds put bench_function cart clkdc (b, fs) = (Inr clkdc', b', fs') \<and>
    (\<forall>k. time_of clkdc' k = time_of clkdc k + (\<Sum>t\<leftarrow>cart. time_of (c t) k)) \<and>
    content fs' = (\<lambda>r. content fs r @ concat (map (\<lambda>t. round_lines (bh_files (b, fs)) put (bh_mul b) t (c t) r) cart))"
  using assms
proof (induction cart arbitrary: b fs clkdc)
  case (Cons t cart)
  then have m: "only_measures bench_function c (bh_files (b, fs)) t" by simp
  then have ci: "clock_inv (c t)" by (simp add: only_measures_def)
  have cb: "clock_inv (clk_arr b)" using Cons.prems(2) by (simp add: idle_clock_def)
  have tm: "timers (advance (c t) (clk_arr b)) = timers (c t)" by (rule advance_empty [OF cb ci Cons.prems(3)])
  have "\<forall>(loc, ts)\<in>set (timers (clk_arr b)). can_append (bh_files (b, fs)) loc" using Cons.prems(3) by simp
  from bench_round_eq [OF m Cons.prems(2) this, of put clkdc] obtain b1 fs1 where
    r: "bench_round put bench_function t clkdc (b, fs) = (Inr (advance (advance (c t) (clk_arr b)) clkdc), b1, fs1)"
      "same_place (bh_files (b, fs)) (bh_files (b1, fs1))"
      "content fs1 = (\<lambda>r. content fs r @ round_lines (bh_files (b, fs)) put (bh_mul b) t (advance (c t) (clk_arr b)) r)"
      "bh_mul b1 = bh_mul b" "idle_clock (clk_arr b1)" "timers (clk_arr b1) = []" by blast
  have rl: "round_lines w put m t (advance (c t) (clk_arr b)) r = round_lines w put m t (c t) r" for w m r
    by (simp add: round_lines_def tm)
  have inv: "clock_inv (advance (c t) (clk_arr b))" "clock_inv (advance (advance (c t) (clk_arr b)) clkdc)"
    using advance_inv [OF cb ci] advance_inv [OF Cons.prems(4), of "advance (c t) (clk_arr b)"] by blast+
  have time: "time_of (advance (advance (c t) (clk_arr b)) clkdc) k = time_of clkdc k + time_of (c t) k" for k
    using advance_inv [OF Cons.prems(4) inv(1), of k] tm by (simp add: time_of_def)
  have "\<forall>t\<in>set cart. only_measures bench_function c (bh_files (b1, fs1)) t"
    using Cons.prems(1) by (auto intro: same_place_measures [OF r(2)])
  from Cons.IH [OF this r(5,6) inv(2)] r(1) show ?case
    by (auto simp: sbind_apply time r(3,4) round_lines_place [OF r(2)] rl add.assoc)
qed simp

section \<open>Properties\<close>

text \<open>C33: the index arithmetic of the product enumerates every combination exactly once, in
lexicographic order, as long as the square of their number fits 64 bits: the result is the
product of lists of the library.\<close>

theorem cartesian_product:
  assumes "prod_list (map length arrays) * prod_list (map length arrays) \<le> 2 ^ 64"
  shows "CartesianProduct arrays = product_lists arrays"
proof (cases "[] \<in> set arrays")
  case True
  then have "prod_len arrays = 0" by (auto simp: prod_len_def prod_list_zero_iff)
  then have "product_lists arrays = []" by (metis length_0_conv length_product_lists)
  with size_fold_zero [OF True, of 1] show ?thesis by (simp add: CartesianProduct_def)
next
  case False
  let ?n = "prod_len arrays"
  have sq: "?n * ?n \<le> 2 ^ 64" using assms by (simp add: prod_len_def)
  have pos: "0 < ?n" using False by (rule prod_len_pos)
  have n: "?n < 2 ^ 64"
  proof (rule ccontr)
    assume "\<not> ?n < 2 ^ 64"
    then have "2 ^ 64 * 2 ^ 64 \<le> ?n * ?n" by (intro mult_le_mono) simp_all
    with sq show False by simp
  qed
  have "foldl (\<lambda>n a. wrap64 (n * length a)) 1 arrays = ?n" using size_fold [OF False, of 1] n by simp
  moreover have "map (\<lambda>k. arrays ! k ! (wrap64 (i * product_dims (map length arrays) ! k) div ?n mod length (arrays ! k))) [0..<length arrays] =
      product_lists arrays ! i" if i: "i < ?n" for i
  proof -
    have "wrap64 (i * product_dims (map length arrays) ! k) div ?n = i div prod_len (drop (Suc k) arrays)" if k: "k < length arrays" for k
    proof -
      let ?p = "prod_len (take (Suc k) arrays)" and ?r = "prod_len (drop (Suc k) arrays)"
      have split: "?n = ?p * ?r" by (rule prod_len_split [OF k])
      with pos have "0 < ?r" "0 < ?p" by (simp_all add: zero_less_mult_iff split)
      have "i * ?p < ?n * ?n"
        by (rule mult_less_le_imp_less) (use i \<open>0 < ?r\<close> \<open>0 < ?p\<close> split in auto)
      then have "wrap64 (i * ?p) = i * ?p" using sq by (intro wrap64_id) linarith
      then show ?thesis using \<open>0 < ?p\<close> by (simp add: product_dims_nth [OF False n k] split)
    qed
    then show ?thesis by (simp add: product_lists_nth [OF i])
  qed
  ultimately show ?thesis
    by (intro nth_equalityI) (simp_all add: CartesianProduct_def Let_def length_product_lists)
qed

theorem cartesian_product_witness:
  "CartesianProduct [[1, 2], [3], [5, 6 :: nat]] = [[1, 3, 5], [1, 3, 6], [2, 3, 5], [2, 3, 6]]"
  by (subst cartesian_product) simp_all


definition sample_measurement :: "nat list \<Rightarrow> ClockArray" where
  "sample_measurement t = \<lparr>timers = [(Loc ''f'' ''1'' ''2'' ''b.cpp'' ''7'', \<lparr>ts_time = 5, ts_count = 1\<rparr>)], starting = [], to_tak = []\<rparr>"

definition sample_function :: "nat list \<Rightarrow> (bench_state, fault, unit) action" where
  "sample_function t = (\<lambda>(b, fs). (Inr (), b\<lparr>clk_arr := advance (sample_measurement t) (clk_arr b)\<rparr>, fs))"


end
