(* ===== verification/Plots.thy ===== *)
theory Plots
  imports PrintParse
begin

text \<open>
  The data the client plots: \<open>plotingUtils.cpp\<close> (surfaces and points for matplot++),
  \<open>MeshPlot.cpp\<close> (the rows of the Qt surface) and the meshes \<open>createPlotQt.cpp\<close> reads.  Drawing
  itself belongs to the libraries: an operation is the data it hands over.
\<close>

section \<open>Surfaces and points\<close>

definition PlotFunction :: "MeshCreator \<Rightarrow> fault + real list list \<times> real list list \<times> real list list" where
  "PlotFunction mesh =
    rbind (SphericalTransformation mesh) (\<lambda>data_arr.
    rbind (Unflatten (data_arr ! 0) (dimensions mesh)) (\<lambda>x.
    rbind (Unflatten (data_arr ! 1) (dimensions mesh)) (\<lambda>y.
    rbind (Unflatten (data_arr ! 2) (dimensions mesh)) (\<lambda>z. Inr (x, y, z)))))"

text \<open>The coordinates and the limit of both axes.\<close>

definition PlotCoordinates :: "real \<Rightarrow> real list \<Rightarrow> (real list \<times> real list) \<times> real" where
  "PlotCoordinates ar xi = ((take (length xi div 2) xi, drop (length xi div 2) xi), 8 * ar)"

text \<open>The vertical axis of the Qt surface is its second one.\<close>

definition Plot :: "mesh_storage list \<Rightarrow> nat \<times> nat \<Rightarrow> fault + (real \<times> real \<times> real) list list" where
  "Plot rr dims = rmap (\<lambda>i. rmap (\<lambda>j.
     rbind (va_get (rr ! 1) (i * snd dims + j)) (\<lambda>x.
     rbind (va_get (rr ! 2) (i * snd dims + j)) (\<lambda>y.
     rbind (va_get (rr ! 0) (i * snd dims + j)) (\<lambda>z. Inr (x, y, z))))) [0..<snd dims]) [0..<fst dims]"

definition Replot :: "MeshCreator \<Rightarrow> fault + (real \<times> real \<times> real) list list" where
  "Replot mesh = rbind (SphericalTransformation mesh) (\<lambda>rr. Plot rr (dimensions mesh))"

section \<open>The stored meshes\<close>

text \<open>
  The number of meshes is not initialised: it is read only from a good stream.  A negative one is
  converted to an unsigned capacity.
\<close>

definition GetMeshes ::
    "(string \<Rightarrow> (real \<times> string) option) \<Rightarrow> EFormat \<Rightarrow> (istream, fault, MeshCreator list) action" where
  "GetMeshes rd default_format = (\<lambda>meshes.
    if \<not> good meshes \<or> skip_ws (is_text meshes) = [] then (Inl (UB ''read of the uninitialised nn''), meshes)
    else let (nn, meshes) = get_value scan_int 0 0 meshes
         in if nn < 0 then (Inl (Library ''length_error''), meshes)
            else sbind get_IoFormat (\<lambda>_ meshes.
              let (ef, meshes) = get_EFormat default_format meshes
              in smap (\<lambda>_. ParseMeshFrom rd default_format SERIALIZABLE None None default_format) [0..<nat nn] meshes) meshes)"

section \<open>The plotted points\<close>

lemma rmap_table:
  assumes "\<And>i j. i < m \<Longrightarrow> j < n \<Longrightarrow> f i j = Inr (g i j)"
  shows "rmap (\<lambda>i. rmap (f i) [0..<n]) [0..<m] = Inr (mk_mat m n g)"
  unfolding mk_mat_def
proof (rule rmap_all_Inr)
  show "rmap (f i) [0..<n] = Inr (map (g i) [0..<n])" if "i \<in> set [0..<m]" for i
    by (rule rmap_all_Inr) (use that assms in simp)
qed

definition spherical :: "real \<Rightarrow> real \<Rightarrow> real \<Rightarrow> real \<times> real \<times> real" where
  "spherical r theta phi = (r * sin theta * cos phi, r * sin theta * sin phi, r * cos theta)"

lemma spherical_norm: "spherical r theta phi = (x, y, z) \<Longrightarrow> x\<^sup>2 + y\<^sup>2 + z\<^sup>2 = r\<^sup>2"
proof -
  assume "spherical r theta phi = (x, y, z)"
  then have xyz: "x = r * sin theta * cos phi" "y = r * sin theta * sin phi" "z = r * cos theta" by (simp_all add: spherical_def)
  have "x\<^sup>2 + y\<^sup>2 + z\<^sup>2 = r\<^sup>2 * ((sin theta)\<^sup>2 * ((cos phi)\<^sup>2 + (sin phi)\<^sup>2) + (cos theta)\<^sup>2)"
    unfolding xyz power2_eq_square by (simp only: algebra_simps)
  then show ?thesis by simp
qed

text \<open>The Cartesian arrays of a mesh on a grid.\<close>

lemma SphericalTransformation_on_grid:
  assumes "on_grid (d0, d1) lims m" and "data m ! 2 = mesh_values (d0, d1) lims func"
  defines "pt \<equiv> \<lambda>i j. let phi = lin (lims ! 2) (lims ! 3) d1 j; theta = lin (lims ! 0) (lims ! 1) d0 i in spherical (func phi theta) theta phi"
  shows "\<exists>x y z. SphericalTransformation m = Inr [x, y, z] \<and> length x = d0 * d1 \<and> length y = d0 * d1 \<and> length z = d0 * d1 \<and>
    (\<forall>i<d0. \<forall>j<d1. (x ! (i * d1 + j), y ! (i * d1 + j), z ! (i * d1 + j)) = pt i j)"
proof -
  note d = assms(1) [unfolded on_grid_def]
  let ?phi = "\<lambda>k. lin (lims ! 2) (lims ! 3) d1 (k mod d1)" and ?theta = "\<lambda>k. lin (lims ! 0) (lims ! 1) d0 (k div d1)"
  have p: "data m ! 0 = map ?phi [0..<d0 * d1]" "data m ! 1 = map ?theta [0..<d0 * d1]" using d by simp_all
  have r: "data m ! 2 = map (\<lambda>k. func (?phi k) (?theta k)) [0..<d0 * d1]" by (simp add: assms(2) mesh_values_def)
  have "SphericalTransformation m = Inr [map (\<lambda>k. func (?phi k) (?theta k) * sin (?theta k) * cos (?phi k)) [0..<d0 * d1],
      map (\<lambda>k. func (?phi k) (?theta k) * sin (?theta k) * sin (?phi k)) [0..<d0 * d1],
      map (\<lambda>k. func (?phi k) (?theta k) * cos (?theta k)) [0..<d0 * d1]]"
    unfolding SphericalTransformation_def p r by (simp add: map2_map_map comp_def)
  moreover have "i * d1 + j < d0 * d1 \<and> (i * d1 + j) mod d1 = j \<and> (i * d1 + j) div d1 = i" if "i < d0" "j < d1" for i j
    using grid_index [OF that] that by simp
  ultimately show ?thesis by (auto simp: pt_def spherical_def Let_def)
qed

section \<open>Properties\<close>

text \<open>C37: a function applied to a fresh mesh is plotted, by either library, as the points at its value
from the origin in each direction of the grid, one row per theta; the Qt surface turns the axes
so that its second one is the height.\<close>

theorem plotted_surface:
  assumes "2 \<le> d0" and "2 \<le> d1" and "lims ! 0 \<noteq> lims ! 1" and "lims ! 2 \<noteq> lims ! 3" and "length (data m) = 3"
  shows "\<exists>m1 m2 x y z. ConstructMeshes (d0, d1) lims m = (Inr (), m1) \<and> ApplyFunction func m1 = (Inr (), m2) \<and>
    PlotFunction m2 = Inr (mk_mat d0 d1 x, mk_mat d0 d1 y, mk_mat d0 d1 z) \<and>
    Replot m2 = Inr (mk_mat d0 d1 (\<lambda>i j. (y i j, z i j, x i j))) \<and>
    (\<forall>i<d0. \<forall>j<d1. let phi = lin (lims ! 2) (lims ! 3) d1 j; theta = lin (lims ! 0) (lims ! 1) d0 i in
      (x i j, y i j, z i j) = spherical (func phi theta) theta phi \<and>
      (x i j)\<^sup>2 + (y i j)\<^sup>2 + (z i j)\<^sup>2 = (func phi theta)\<^sup>2)"
proof -
  obtain m1 where m1: "ConstructMeshes (d0, d1) lims m = (Inr (), m1)" using assms by (simp add: ConstructMeshes_Inr)
  note a = ApplyFunction_constructed [OF m1 assms(5)]
  let ?m2 = "m1\<lparr>data := (data m1)[2 := mesh_values (d0, d1) lims func]\<rparr>"
  have g: "on_grid (d0, d1) lims ?m2" by (rule ApplyFunction_on_grid(2) [OF ConstructMeshes_on_grid [OF m1 assms(5)]])
  have dims: "dimensions ?m2 = (d0, d1)" using a(3) by simp
  have "data ?m2 ! 2 = mesh_values (d0, d1) lims func" using a(2) by simp
  from SphericalTransformation_on_grid [OF g this] obtain xs ys zs where
    st: "SphericalTransformation ?m2 = Inr [xs, ys, zs]" "length xs = d0 * d1" "length ys = d0 * d1" "length zs = d0 * d1"
    and pts: "\<forall>i<d0. \<forall>j<d1. (xs ! (i * d1 + j), ys ! (i * d1 + j), zs ! (i * d1 + j)) =
      (let phi = lin (lims ! 2) (lims ! 3) d1 j; theta = lin (lims ! 0) (lims ! 1) d0 i in spherical (func phi theta) theta phi)"
    by blast
  let ?x = "\<lambda>i j. xs ! (i * d1 + j)" and ?y = "\<lambda>i j. ys ! (i * d1 + j)" and ?z = "\<lambda>i j. zs ! (i * d1 + j)"
  have "PlotFunction ?m2 = Inr (mk_mat d0 d1 ?x, mk_mat d0 d1 ?y, mk_mat d0 d1 ?z)"
    unfolding PlotFunction_def st(1) dims using st(2-4) by (simp add: Unflatten_eq)
  moreover have "Replot ?m2 = Inr (mk_mat d0 d1 (\<lambda>i j. (?y i j, ?z i j, ?x i j)))"
    unfolding Replot_def st(1) dims rbind_Inr Plot_def fst_conv snd_conv
    by (rule rmap_table) (use grid_index st(2-4) in simp)
  moreover have "\<forall>i<d0. \<forall>j<d1. let phi = lin (lims ! 2) (lims ! 3) d1 j; theta = lin (lims ! 0) (lims ! 1) d0 i in
      (?x i j, ?y i j, ?z i j) = spherical (func phi theta) theta phi \<and> (?x i j)\<^sup>2 + (?y i j)\<^sup>2 + (?z i j)\<^sup>2 = (func phi theta)\<^sup>2"
    using pts spherical_norm by (simp add: Let_def)
  ultimately show ?thesis using m1 a(1) by blast
qed

theorem plotted_surface_witness:
  "\<exists>m1 m2 x y z. ConstructMeshes (2, 3) [0, 1, 0, 2] (new_MeshCreator True) = (Inr (), m1) \<and>
    ApplyFunction (\<lambda>x y. 10 * y + x) m1 = (Inr (), m2) \<and>
    Replot m2 = Inr (mk_mat 2 3 (\<lambda>i j. (y i j, z i j, x i j))) \<and> (x 1 2)\<^sup>2 + (y 1 2)\<^sup>2 + (z 1 2)\<^sup>2 = (12 :: real)\<^sup>2"
proof -
  have l: "lin 0 2 3 2 = 2" "lin 0 1 2 1 = 1" by (simp_all add: lin_def)
  have "length (data (new_MeshCreator True)) = 3" by (simp add: new_MeshCreator_def)
  from plotted_surface [of 2 3 "[0, 1, 0, 2]", OF _ _ _ _ this, of "\<lambda>x y. 10 * y + x"] obtain m1 m2 x y z where
    "ConstructMeshes (2, 3) [0, 1, 0, 2] (new_MeshCreator True) = (Inr (), m1)" "ApplyFunction (\<lambda>x y. 10 * y + x) m1 = (Inr (), m2)"
    "Replot m2 = Inr (mk_mat 2 3 (\<lambda>i j. (y i j, z i j, x i j)))" and
    p: "\<forall>i<2. \<forall>j<3. let phi = lin 0 2 3 j; theta = lin 0 1 2 i in
      (x i j, y i j, z i j) = spherical (10 * theta + phi) theta phi \<and> (x i j)\<^sup>2 + (y i j)\<^sup>2 + (z i j)\<^sup>2 = (10 * theta + phi)\<^sup>2"
    by auto
  moreover have "(x 1 2)\<^sup>2 + (y 1 2)\<^sup>2 + (z 1 2)\<^sup>2 = (10 * 1 + 2)\<^sup>2"
    using p [rule_format, of 1 2] unfolding Let_def l by simp
  ultimately show ?thesis by auto
qed

end
