(* ===== verification/ClientApps.thy ===== *)
theory ClientApps
  imports Plots
begin

text \<open>
  Two programs of the client: \<open>createPlotQt.cpp\<close>, a window with a sample surface, the stored
  meshes and two sliders, and \<open>FetchData\<close> of \<open>requestInformation.cpp\<close>, which asks a server for
  solutions and prints them.  The window is the data its plots show; Qt's JSON accessors and
  the formatting of a double are arguments.
\<close>

section \<open>The sample surface\<close>

text \<open>\<open>surf1\<close>, with the captured sample counts as arguments; the sliders never set them below 2.\<close>

definition sample_height :: "real \<Rightarrow> real \<Rightarrow> real" where
  "sample_height x z = (let r = sqrt (z * z + x * x) + 1 / 100 in (sin r / r + 24 / 100) * (161 / 100))"

definition sample_at :: "nat \<Rightarrow> nat \<Rightarrow> real" where
  "sample_at count i = min 8 (real i * ((8 - - 8) / (real count - 1)) + - 8)"

definition surf1 :: "nat \<Rightarrow> nat \<Rightarrow> fault + (real \<times> real \<times> real) list list" where
  "surf1 sample_count_x sample_count_z =
    (if sample_count_x = 1 \<or> sample_count_z = 1 then Inl (NonFinite ''step of a single sample'')
     else Inr (map (\<lambda>i. map (\<lambda>j. let z = sample_at sample_count_z i; x = sample_at sample_count_x j
                              in (x, sample_height x z, z)) [0..<sample_count_x]) [0..<sample_count_z]))"

section \<open>The window\<close>

text \<open>The saved images are the surfaces they show.\<close>

record viewer =
  sample_surface :: "(real \<times> real \<times> real) list list"
  shown_surface :: "(real \<times> real \<times> real) list list"
  plot_png :: "(real list list \<times> real list list \<times> real list list) option"
  images :: "(real \<times> real \<times> real) list list list"

datatype viewer_event = Samples_changed int | Mesh_changed int | Save_clicked

text \<open>Indexing the stored meshes is unchecked.\<close>

definition mesh_at :: "MeshCreator list \<Rightarrow> int \<Rightarrow> fault + MeshCreator" where
  "mesh_at res val = (if 0 \<le> val then va_get res (nat val) else Inl (UB ''vector index out of bounds''))"

definition PlotAndSave :: "('m \<Rightarrow> fault + 'p) \<Rightarrow> 'm \<Rightarrow> fault + 'p" where
  "PlotAndSave plot_callback mesh = plot_callback mesh"

definition open_viewer :: "MeshCreator list \<Rightarrow> fault + viewer" where
  "open_viewer res =
    rbind (surf1 5 5) (\<lambda>s. rbind (mesh_at res 0) (\<lambda>m. rbind (Replot m) (\<lambda>p.
      Inr \<lparr>sample_surface = s, shown_surface = p, plot_png = None, images = []\<rparr>)))"

fun viewer_step :: "MeshCreator list \<Rightarrow> viewer_event \<Rightarrow> viewer \<Rightarrow> fault + viewer" where
  "viewer_step res (Samples_changed val) v =
     rbind (surf1 (nat val) (nat val)) (\<lambda>s. Inr (v\<lparr>sample_surface := s\<rparr>))"
| "viewer_step res (Mesh_changed val) v =
     rbind (mesh_at res val) (\<lambda>rr1. rbind (PlotAndSave PlotFunction rr1) (\<lambda>png. rbind (Replot rr1) (\<lambda>p.
       Inr (v\<lparr>plot_png := Some png, shown_surface := p\<rparr>))))"
| "viewer_step res Save_clicked v = Inr (v\<lparr>images := images v @ [shown_surface v]\<rparr>)"

text \<open>The bounds given to the two sliders.\<close>

fun slider_event :: "MeshCreator list \<Rightarrow> viewer_event \<Rightarrow> bool" where
  "slider_event res (Samples_changed val) \<longleftrightarrow> 2 \<le> val \<and> val \<le> 500"
| "slider_event res (Mesh_changed val) \<longleftrightarrow> 0 \<le> val \<and> val \<le> int (length res) - 1"
| "slider_event res Save_clicked \<longleftrightarrow> True"

lemma surf1_grid:
  assumes "2 \<le> m" and "2 \<le> n"
  shows "\<exists>rows. surf1 m n = Inr rows \<and> length rows = n \<and> (\<forall>row\<in>set rows. length row = m) \<and>
    rows ! 0 ! 0 = (- 8, sample_height (- 8) (- 8), - 8) \<and> rows ! (n - 1) ! (m - 1) = (8, sample_height 8 8, 8)"
proof -
  have "sample_at k 0 = - 8" and "sample_at k (k - 1) = 8" if "2 \<le> k" for k
  proof -
    have k: "real (k - 1) = real k - 1" "real k - 1 \<noteq> 0" using that by (simp_all add: of_nat_diff)
    have step: "a * ((8 - - 8) / a) = 16" if "a \<noteq> 0" for a :: real using that by simp
    have "real (k - 1) * ((8 - - 8) / (real k - 1)) = 16" unfolding k(1) by (rule step [OF k(2)])
    then show "sample_at k (k - 1) = 8" by (simp only: sample_at_def)
  qed (simp add: sample_at_def)
  with assms show ?thesis by (auto simp: surf1_def Let_def)
qed

text \<open>Within the slider bounds the window never leaves its stored meshes.\<close>

lemma viewer_step_runs:
  assumes "slider_event res ev" and "\<forall>m\<in>set res. \<exists>png p. PlotFunction m = Inr png \<and> Replot m = Inr p"
  shows "\<exists>v'. viewer_step res ev v = Inr v'"
proof (cases ev)
  case (Samples_changed val)
  with assms(1) show ?thesis using surf1_grid [of "nat val" "nat val"] by (auto simp: le_nat_iff)
next
  case (Mesh_changed val)
  with assms(1) have val: "0 \<le> val" "nat val < length res" by auto
  then have "mesh_at res val = Inr (res ! nat val)" "res ! nat val \<in> set res"
    by (simp_all add: mesh_at_def va_get_def)
  with assms(2) Mesh_changed show ?thesis by (auto simp: PlotAndSave_def)
qed simp

lemma viewer_runs:
  assumes "\<forall>ev\<in>set evs. slider_event res ev" and "\<forall>m\<in>set res. \<exists>png p. PlotFunction m = Inr png \<and> Replot m = Inr p"
  shows "\<exists>v'. rfold (viewer_step res) evs v = Inr v'"
  using assms(1)
proof (induction evs arbitrary: v)
  case (Cons ev evs)
  with viewer_step_runs [OF _ assms(2), of ev v] obtain v1 where "viewer_step res ev v = Inr v1" by auto
  with Cons show ?case by simp
qed simp

lemma empty_store: "open_viewer [] = Inl (UB ''valarray index out of bounds'')"
  by (simp add: open_viewer_def mesh_at_def va_get_def surf1_def)

section \<open>Fetching solutions\<close>

record 'q qt_json =
  q_member :: "'q \<Rightarrow> string \<Rightarrow> 'q"
  q_toInt :: "'q \<Rightarrow> int"
  q_toArray :: "'q \<Rightarrow> 'q list"
  q_toDouble :: "'q \<Rightarrow> real"

definition fetch_url :: "(real \<Rightarrow> string) \<Rightarrow> int \<Rightarrow> int \<Rightarrow> real \<Rightarrow> string" where
  "fetch_url qnum n ns a =
    fmt_format ''http://localhost:18080/calculate/{}/{}/{}'' [show_int n, show_int ns, qnum a]"

text \<open>A coefficient of a new vector is \<open>None\<close> until it is assigned.\<close>

fun fill_row :: "real list \<Rightarrow> nat \<Rightarrow> real option list \<Rightarrow> fault + real option list" where
  "fill_row [] i row = Inr row"
| "fill_row (v # vs) i row =
    (if i < length row then fill_row vs (Suc i) (row[i := Some v]) else Inl (UB ''vector index out of bounds''))"

text \<open>A row that holds no values is not looked up.\<close>

fun fill_rows :: "real list list \<Rightarrow> nat \<Rightarrow> real option list list \<Rightarrow> fault + real option list list" where
  "fill_rows [] index res = Inr res"
| "fill_rows (vs # rows) index res =
    (if vs = [] then fill_rows rows (Suc index) res
     else if index < length res
     then rbind (fill_row vs 0 (res ! index)) (\<lambda>row. fill_rows rows (Suc index) (res[index := row]))
     else Inl (UB ''vector index out of bounds''))"

definition print_fetched :: "(real \<Rightarrow> string) \<Rightarrow> real option list \<Rightarrow> fault + string" where
  "print_fetched put row =
    (if None \<in> set row then Inl (UB ''read of an uninitialised coefficient'')
     else Inr (PrintSolutionFormat1 put (map the row)))"

definition fetched_texts :: "(real \<Rightarrow> string) \<Rightarrow> int \<Rightarrow> int \<Rightarrow> real list list \<Rightarrow> fault + string list" where
  "fetched_texts put nss n_in rows =
    (if nss < 0 then Inl (Library ''length_error'')
     else if n_in < 0 then Inl (UB ''negative vector size'')
     else rbind (fill_rows rows 0 (replicate (nat nss) (replicate (4 * nat n_in) None)))
            (rmap (print_fetched put)))"

text \<open>The callback of a finished request, as the texts handed to the debug output.\<close>

definition FetchData :: "'q qt_json \<Rightarrow> (real \<Rightarrow> string) \<Rightarrow> string + 'q \<Rightarrow> fault + string list" where
  "FetchData Q put reply =
    (case reply of
       Inl errorString \<Rightarrow> Inr [''Error:'', errorString]
     | Inr json_obj \<Rightarrow>
         let ret_struct = q_member Q json_obj ''retStruct'';
             nss = q_toInt Q (q_member Q ret_struct ''Ns'');
             n_in = q_toInt Q (q_member Q ret_struct ''N'');
             data_array = q_toArray Q (q_member Q ret_struct ''data'')
         in fetched_texts put nss n_in (map (\<lambda>row. map (q_toDouble Q) (q_toArray Q row)) data_array))"

text \<open>
  \<open>main\<close>: a number of requests, then their arguments, from the standard input.  A variable that a
  read leaves alone is still uninitialised when it is used, except the number of requests, which
  is 10.
\<close>

definition read_new :: "(string \<Rightarrow> ('a \<times> string) option) \<Rightarrow> 'a \<Rightarrow> istream \<Rightarrow> 'a option \<times> istream" where
  "read_new rd zero i = get_value (\<lambda>s. map_option (apfst Some) (rd s)) (Some zero) None i"

fun request_urls ::
    "(string \<Rightarrow> (real \<times> string) option) \<Rightarrow> (real \<Rightarrow> string) \<Rightarrow> nat \<Rightarrow> istream \<Rightarrow> fault + string list" where
  "request_urls rd qnum 0 cin = Inr []"
| "request_urls rd qnum (Suc k) cin =
    (let (n, cin) = read_new scan_int 0 cin; (ns, cin) = read_new scan_int 0 cin; (a, cin) = read_new rd 0 cin
     in case (n, ns, a) of
          (Some n, Some ns, Some a) \<Rightarrow>
            rbind (request_urls rd qnum k cin) (\<lambda>urls. Inr (fetch_url qnum n ns a # urls))
        | _ \<Rightarrow> Inl (UB ''use of an uninitialised variable''))"

definition request_main ::
    "(string \<Rightarrow> (real \<times> string) option) \<Rightarrow> (real \<Rightarrow> string) \<Rightarrow> istream \<Rightarrow> fault + string list" where
  "request_main rd qnum cin =
    (let (t, cin) = get_value scan_int 0 10 cin in request_urls rd qnum (nat t) cin)"

lemma read_new_empty: "good i \<Longrightarrow> skip_ws (is_text i) = [] \<Longrightarrow> fst (read_new rd zero i) = None"
  by (simp add: read_new_def get_value_def Let_def)

text \<open>Without any input ten requests are attempted, the first of them with uninitialised arguments.\<close>

lemma no_input: "request_main rd qnum (istringstream []) = Inl (UB ''use of an uninitialised variable'')"
proof -
  have t: "get_value scan_int 0 10 (istringstream []) = (10, \<lparr>is_text = [], is_fail = True, is_eof = True\<rparr>)"
    by (simp add: get_value_def istringstream_def good_def skip_ws_def)
  have n: "read_new rd zero \<lparr>is_text = [], is_fail = True, is_eof = True\<rparr> = (None, \<lparr>is_text = [], is_fail = True, is_eof = True\<rparr>)"
    for rd :: "string \<Rightarrow> ('a \<times> string) option" and zero
    by (simp add: read_new_def get_value_def good_def setfail_def)
  have "nat 10 = Suc 9" by simp
  then show ?thesis by (simp only: request_main_def t Let_def prod.case request_urls.simps n option.case)
qed

lemma fill_row_full:
  "fill_row vs (length pre) (pre @ replicate (length vs) None) = Inr (pre @ map Some vs)"
proof (induction vs arbitrary: pre)
  case (Cons v vs)
  have "(pre @ None # replicate (length vs) None)[length pre := Some v] = (pre @ [Some v]) @ replicate (length vs) None"
    by (simp add: list_update_append)
  with Cons.IH [of "pre @ [Some v]"] show ?case by simp
qed simp

lemma fill_rows_full:
  assumes "\<forall>row\<in>set rows. length row = w"
  shows "fill_rows rows (length pre) (pre @ replicate (length rows) (replicate w None)) = Inr (pre @ map (map Some) rows)"
  using assms
proof (induction rows arbitrary: pre)
  case (Cons row rows)
  have row: "fill_row row 0 (replicate w None) = Inr (map Some row)" using fill_row_full [of row "[]"] Cons.prems by simp
  have upd: "(pre @ replicate w None # replicate (length rows) (replicate w None))[length pre := map Some row] =
      (pre @ [map Some row]) @ replicate (length rows) (replicate w None)"
    by (simp add: list_update_append)
  have "fill_rows rows (Suc (length pre)) ((pre @ [map Some row]) @ replicate (length rows) (replicate w None)) =
      Inr (pre @ map (map Some) (row # rows))"
    using Cons.IH [of "pre @ [map Some row]"] Cons.prems by simp
  with row upd Cons.prems show ?case by auto
qed simp

text \<open>An answer of the announced shape is printed solution by solution.\<close>

lemma fetched_texts_full:
  assumes "int (length rows) = nss" and "\<forall>row\<in>set rows. length row = 4 * nat n_in" and "0 \<le> n_in"
  shows "fetched_texts put nss n_in rows = Inr (map (PrintSolutionFormat1 put) rows)"
proof -
  have "fill_rows rows 0 (replicate (nat nss) (replicate (4 * nat n_in) None)) = Inr (map (map Some) rows)"
    using fill_rows_full [OF assms(2), of "[]"] assms(1) by auto
  moreover have "rmap (print_fetched put) (map (map Some) rows) = Inr (map (\<lambda>r. PrintSolutionFormat1 put (map the r)) (map (map Some) rows))"
    by (rule rmap_all_Inr) (auto simp: print_fetched_def)
  ultimately show ?thesis using assms by (auto simp: fetched_texts_def comp_def)
qed

end
