(* ===== verification/Demos.thy ===== *)
theory Demos
  imports ServiceCalls Timing Json
begin

text \<open>
  The programs around the services: \<open>aqmpProd.cpp\<close>, which fills a number of queues,
  \<open>aqmpCons.cpp\<close>, which prints the delivery tags of a queue, and \<open>main\<close> of the computational
  node, which reads its port.  A program is a function of its arguments and of the answers of
  its environment: the connection attempt, the two clocks at each publication, and the values
  the signal flag has each time the waiting loop looks at it.
\<close>

section \<open>Arguments\<close>

text \<open>\<open>std::stoi\<close> skips white space, reads a signed decimal and ignores the text after it.\<close>

definition stoi :: "string \<Rightarrow> fault + int" where
  "stoi s =
    (case scan_decimal s of
       None \<Rightarrow> Inl (Std (invalid_argument ''stoi''))
     | Some (v, _) \<Rightarrow> if - (2 ^ 31) \<le> v \<and> v < 2 ^ 31 then Inr v else Inl (Std (out_of_range ''stoi'')))"

fun arg_what :: "fault \<Rightarrow> string" where
  "arg_what (Std (invalid_argument m)) = m"
| "arg_what (Std (out_of_range m)) = m"
| "arg_what _ = []"

definition demo_args :: "string \<Rightarrow> string \<Rightarrow> fault + int \<times> int" where
  "demo_args messages queues =
    rbind (stoi messages) (\<lambda>num_messages. rbind (stoi queues) (\<lambda>numb_queues.
      if num_messages \<le> 0 then Inl (Std (invalid_argument ''Number of messages must be positive.''))
      else if numb_queues \<le> 0 then Inl (Std (invalid_argument ''Number of queues must be positive.''))
      else Inr (num_messages, numb_queues)))"

lemma stoi_show: "n < 2 ^ 31 \<Longrightarrow> stoi (show_nat n) = Inr (int n)"
proof -
  assume n: "n < 2 ^ 31"
  have "scan_decimal (show_nat n @ []) = Some (int (read_digits (show_nat n)), [])"
    by (rule scan_decimal_digits) (simp_all add: show_nat_digits)
  with n show ?thesis by (simp add: stoi_def)
qed

lemma demo_args_positive: "demo_args m q = Inr (n, k) \<Longrightarrow> 0 < n \<and> 0 < k"
  by (auto simp: demo_args_def rbind_eq_Inr split: if_splits)

section \<open>Waiting for the signal\<close>

text \<open>
  \<open>while (!signalReceived) sleep\<close>: the n-th look at the flag sees \<open>flag n\<close>.  The loop may
  run forever; the value is the number of looks that saw it unset.
\<close>

partial_function (option) await_signal :: "(nat \<Rightarrow> bool) \<Rightarrow> nat \<Rightarrow> nat option" where
  "await_signal flag n = (if flag n then Some n else await_signal flag (Suc n))"

lemma await_returns: "n \<le> k \<Longrightarrow> flag k \<Longrightarrow> \<exists>m. await_signal flag n = Some m"
  by (induction n rule: inc_induct) (auto simp: await_signal.simps)

lemma await_Some: "await_signal flag n = Some m \<Longrightarrow> flag m"
  by (rule await_signal.raw_induct [where P = "\<lambda>f n m. f m"]) (auto split: if_splits)

section \<open>The producer\<close>

text \<open>The message as handed to the channel: the priority is one octet.\<close>

record demo_envelope =
  de_body :: string
  de_persistent :: bool
  de_priority :: "8 word"
  de_messageNum :: nat
  de_tt :: string
  de_timestamp :: u64

record producer =
  prod_service :: "demo_envelope publisher"
  prod_requests :: "channel_request list"
  prod_err :: string

definition construct_publisher :: "AMQPSQLCStr \<Rightarrow> string \<Rightarrow> 'm publisher" where
  "construct_publisher c exch = new_publisher\<lparr>c_string := c, default_exchange := exch\<rparr>"

text \<open>\<open>put_time\<close> with \<open>%d-%m-%Y %H-%M-%S\<close>.\<close>

definition demo_stamp :: "tm \<Rightarrow> string" where
  "demo_stamp t = pad 2 (nat (tm_mday t)) @ ''-'' @ pad 2 (nat (tm_mon t + 1)) @ ''-'' @ show_int (tm_year t + 1900) @ '' ''
     @ pad 2 (nat (tm_hour t)) @ ''-'' @ pad 2 (nat (tm_min t)) @ ''-'' @ pad 2 (nat (tm_sec t))"

definition demo_queue :: "nat \<Rightarrow> string" where
  "demo_queue i = fmt_format ''queue{}'' [show_nat i]"

definition demo_message ::
    "('j, 'f) jsoncpp \<Rightarrow> time_zone \<Rightarrow> int \<times> u64 \<Rightarrow> int \<Rightarrow> nat \<Rightarrow> nat \<Rightarrow> demo_envelope" where
  "demo_message J tz now num_messages i j =
    (let stamp = demo_stamp (localtime_r tz (fst now));
         message = j_sets J (j_null J) [(''number'', j_ofInt64 J (of_nat i)), (''timestamp'', j_ofString J stamp)]
     in \<lparr>de_body = j_styled J message, de_persistent = True, de_priority = word_of_int (num_messages - int j),
         de_messageNum = j, de_tt = stamp, de_timestamp = snd now\<rparr>)"

text \<open>
  The two loops over the queues: all are declared first, then each is filled.  \<open>clock n\<close> is
  what the two clocks show at the n-th publication.
\<close>

definition demo_declare :: "nat \<Rightarrow> 'm publisher \<Rightarrow> fault + channel_request list" where
  "demo_declare numb_queues p =
    rbind (rmap (\<lambda>i. AddQueue (demo_queue i) True p) [0..<numb_queues]) (\<lambda>rs. Inr (concat rs))"

definition demo_fill ::
    "('j, 'f) jsoncpp \<Rightarrow> time_zone \<Rightarrow> (nat \<Rightarrow> int \<times> u64) \<Rightarrow> int \<Rightarrow> nat \<Rightarrow>
     demo_envelope publisher \<Rightarrow> fault + demo_envelope publisher" where
  "demo_fill J tz clock num_messages i =
    rfold (\<lambda>j p. Publish (demo_message J tz (clock (length (published p))) num_messages i j) (demo_queue i) p)
      [0..<nat num_messages]"

definition demo_publish ::
    "('j, 'f) jsoncpp \<Rightarrow> time_zone \<Rightarrow> (nat \<Rightarrow> int \<times> u64) \<Rightarrow> int \<Rightarrow> nat \<Rightarrow>
     demo_envelope publisher \<Rightarrow> fault + demo_envelope publisher" where
  "demo_publish J tz clock num_messages numb_queues =
    rfold (demo_fill J tz clock num_messages) [0..<numb_queues]"

text \<open>
  \<open>main\<close>: \<open>None\<close> when it waits forever, \<open>Some (Inl e)\<close> when the exception \<open>e\<close> leaves it,
  otherwise the exit code.
\<close>

definition demo_serve ::
    "('j, 'f) jsoncpp \<Rightarrow> time_zone \<Rightarrow> (nat \<Rightarrow> int \<times> u64) \<Rightarrow> (nat \<Rightarrow> bool) \<Rightarrow> int \<Rightarrow> int \<Rightarrow>
     producer \<Rightarrow> (fault + int) option \<times> producer" where
  "demo_serve J tz clock flag num_messages numb_queues w =
    (case rbind (demo_declare (nat numb_queues) (prod_service w)) (\<lambda>rs.
            rbind (demo_publish J tz clock num_messages (nat numb_queues) (prod_service w)) (\<lambda>p. Inr (rs, p))) of
       Inl e \<Rightarrow> (Some (Inl e), w)
     | Inr (rs, p) \<Rightarrow>
         (case await_signal flag 0 of
            None \<Rightarrow> (None, w\<lparr>prod_service := p, prod_requests := rs\<rparr>)
          | Some _ \<Rightarrow> (Some (Inr 0), w\<lparr>prod_service := Service_Disconnect p, prod_requests := rs\<rparr>)))"

definition aqmpProd_main ::
    "('j, 'f) jsoncpp \<Rightarrow> scn_scan \<Rightarrow> time_zone \<Rightarrow> (nat \<Rightarrow> int \<times> u64) \<Rightarrow> connect_env \<Rightarrow> (nat \<Rightarrow> bool) \<Rightarrow>
     string list \<Rightarrow> producer \<Rightarrow> (fault + int) option \<times> producer" where
  "aqmpProd_main J scan tz clock env flag argv w =
    (case argv of
       [_, cs, messages, queues] \<Rightarrow>
         (case demo_args messages queues of
            Inl e \<Rightarrow> (Some (Inr 1), w\<lparr>prod_err := ''Error: Invalid number of messages - '' @ arg_what e @ newline\<rparr>)
          | Inr (num_messages, numb_queues) \<Rightarrow>
              (case am_FromString scan cs default_amqp of
                 Inl e \<Rightarrow> (Some (Inl e), w)
               | Inr s \<Rightarrow>
                   (case Service_Connect pub_Reconnect pub_ServiceName env (construct_publisher s ''testexch'') of
                      (Inl e, p) \<Rightarrow> (Some (Inl e), w\<lparr>prod_service := p\<rparr>)
                    | (Inr _, p) \<Rightarrow> demo_serve J tz clock flag num_messages numb_queues (w\<lparr>prod_service := p\<rparr>))))
     | _ \<Rightarrow> (Some (Inr 1), w\<lparr>prod_err :=
              ''Usage: '' @ hd argv @ '' <cString> <number_of_messages>  <number_of_queues>'' @ newline\<rparr>))"

section \<open>The consumer\<close>

text \<open>
  The callback prints the delivery tag of each message; the base class then acknowledges it.
  The world is the service and the text on the standard output.
\<close>

definition tag_callback :: "'m \<Rightarrow> fault + unit" where
  "tag_callback m = Inr ()"

definition demo_deliver :: "'m \<Rightarrow> u64 \<Rightarrow> 'm consumer \<times> string \<Rightarrow> fault + 'm consumer \<times> string" where
  "demo_deliver m tag = (\<lambda>(s, out).
    rbind (onReceived m tag s) (\<lambda>s'. Inr (s', out @ show_nat (unat tag) @ newline)))"

definition construct_consumer :: "AMQPSQLCStr \<Rightarrow> string \<Rightarrow> 'm consumer" where
  "construct_consumer c q = new_consumer\<lparr>c_string := c, queue_name := q\<rparr>"

text \<open>\<open>deliveries\<close> are the messages that arrive before the signal is seen.\<close>

definition aqmpCons_main ::
    "scn_scan \<Rightarrow> connect_env \<Rightarrow> (nat \<Rightarrow> bool) \<Rightarrow> ('m \<times> u64) list \<Rightarrow> string list \<Rightarrow>
     (fault + int) option \<times> 'm consumer option \<times> string" where
  "aqmpCons_main scan env flag deliveries argv =
    (case argv of
       [_, cs, qname] \<Rightarrow>
         (case am_FromString scan cs default_amqp of
            Inl e \<Rightarrow> (Some (Inl e), None, [])
          | Inr s \<Rightarrow>
              (case Service_Connect con_Reconnect con_ServiceName env
                      (con_SetMessageCallback tag_callback (construct_consumer s qname)) of
                 (Inl e, c) \<Rightarrow> (Some (Inl e), Some c, [])
               | (Inr _, c) \<Rightarrow>
                   (case rfold (\<lambda>(m, tag). demo_deliver m tag) deliveries (c, []) of
                      Inl e \<Rightarrow> (Some (Inl e), Some c, [])
                    | Inr (c', out) \<Rightarrow>
                        (case await_signal flag 0 of
                           None \<Rightarrow> (None, Some c', out)
                         | Some _ \<Rightarrow> (Some (Inr 0), Some (Service_Disconnect c'), out)))))
     | _ \<Rightarrow> (Some (Inr 1), None, ''Usage: '' @ hd argv @ '' <cString> <queue_name>'' @ newline))"

section \<open>The computational node\<close>

text \<open>
  \<open>main\<close> either starts the server on a port, which the framework takes as 16 bits, or ends
  with an exit code.  Only \<open>std::invalid_argument\<close> is caught.
\<close>

datatype node_start = Listen "16 word" | Exit_code int

definition CompNode_main :: "string list \<Rightarrow> (fault + node_start) \<times> string" where
  "CompNode_main argv =
    (case argv of
       [_, arg] \<Rightarrow>
         (case stoi arg of
            Inr port \<Rightarrow> (Inr (Listen (word_of_int port)), show_int port @ newline)
          | Inl (Std (invalid_argument m)) \<Rightarrow>
              (Inr (Exit_code (- 1)),
               fmt_format (''Invalid argument  exception {} occurred '' @ newline @ '' argv[1] = {} '') [m, arg])
          | Inl e \<Rightarrow> (Inl e, []))
     | _ \<Rightarrow> (Inr (Exit_code (- 1)), []))"

section \<open>What the programs do\<close>

lemma publish_upt:
  assumes "has_channel p"
  shows "rfold (\<lambda>j p. Publish (g (length (published p)) j) q p) [0..<k] p =
    Inr (p\<lparr>published := published p @ map (\<lambda>j. (default_exchange p, q, g (length (published p) + j) j)) [0..<k]\<rparr>)"
  using assms by (induction k) (simp_all add: rfold_append Publish_def)

definition demo_log ::
    "('j, 'f) jsoncpp \<Rightarrow> time_zone \<Rightarrow> (nat \<Rightarrow> int \<times> u64) \<Rightarrow> nat \<Rightarrow> nat \<Rightarrow> (string \<times> string \<times> demo_envelope) list" where
  "demo_log J tz clock n k =
    concat (map (\<lambda>i. map (\<lambda>j. (''testexch'', demo_queue i, demo_message J tz (clock (i * n + j)) (int n) i j)) [0..<n]) [0..<k])"

lemma demo_log_length: "length (demo_log J tz clock n k) = k * n"
  by (simp add: demo_log_def length_concat comp_def sum_list_triv)

lemma demo_log_Suc: "demo_log J tz clock n (Suc k) = demo_log J tz clock n k @
    map (\<lambda>j. (''testexch'', demo_queue k, demo_message J tz (clock (k * n + j)) (int n) k j)) [0..<n]"
  by (simp add: demo_log_def)

lemma demo_fill_run:
  assumes "has_channel p" and "default_exchange p = ''testexch''" and "length (published p) = i * n"
  shows "demo_fill J tz clock (int n) i p = Inr (p\<lparr>published := published p @
    map (\<lambda>j. (''testexch'', demo_queue i, demo_message J tz (clock (i * n + j)) (int n) i j)) [0..<n]\<rparr>)"
  using publish_upt [OF assms(1), of "\<lambda>l j. demo_message J tz (clock l) (int n) i j"] assms(2,3)
  by (simp add: demo_fill_def)

lemma demo_publish_run:
  assumes "has_channel p" and "default_exchange p = ''testexch''" and "published p = []"
  shows "demo_publish J tz clock (int n) k p = Inr (p\<lparr>published := demo_log J tz clock n k\<rparr>)"
proof (induction k)
  case 0
  show ?case using assms(3) by (simp add: demo_publish_def demo_log_def)
next
  case (Suc k)
  let ?p = "p\<lparr>published := demo_log J tz clock n k\<rparr>"
  have "demo_fill J tz clock (int n) k ?p = Inr (?p\<lparr>published := published ?p @
    map (\<lambda>j. (''testexch'', demo_queue k, demo_message J tz (clock (k * n + j)) (int n) k j)) [0..<n]\<rparr>)"
    by (rule demo_fill_run) (use assms in \<open>simp_all add: demo_log_length\<close>)
  with Suc.IH show ?case by (simp add: demo_publish_def rfold_append demo_log_Suc)
qed

lemma demo_declare_run:
  assumes "has_channel p" and "default_exchange p = ''testexch''"
  shows "demo_declare k p = Inr (concat (map (\<lambda>i. DeclareQueue (demo_queue i) ''testexch'') [0..<k]))"
proof -
  have "rmap (\<lambda>i. AddQueue (demo_queue i) True p) [0..<k]
      = Inr (map (\<lambda>i. DeclareQueue (demo_queue i) ''testexch'') [0..<k])"
    by (rule rmap_all_Inr) (simp add: AddQueue_def assms)
  then show ?thesis by (simp add: demo_declare_def)
qed

lemma am_formatted_nonempty: "am_FromString scan cs a = Inr s \<Longrightarrow> am_formatted s \<noteq> []"
  by (auto simp: am_FromString_def am_UpdateFormat_def split: sum.splits list.splits scn_value.splits if_splits)

lemma connect_producer:
  assumes "am_formatted s \<noteq> []" and "ce_message env = []"
  obtains p where "Service_Connect pub_Reconnect pub_ServiceName env (construct_publisher s exch) = (Inr (), p)"
    and "has_channel p" and "default_exchange p = exch" and "published p = []"
    and "joinable p" and "IsConnected p"
  using assms by (simp add: Service_Connect_def Connect_begin_def construct_publisher_def new_publisher_def
      new_service_def service.defs IsConnected_def pub_Reconnect_def open_channel_def Let_def
      Connect_end_def MyHandler_onConnected_def)

lemma disconnect_log:
  "published (Service_Disconnect p) = published p"
  "joinable p \<Longrightarrow> \<not> IsConnected (Service_Disconnect p)"
  by (simp_all add: Service_Disconnect_def Disconnect_begin_def Disconnect_end_def MyHandler_onClosed_def
      MyHandler_ResetLoop_def IsConnected_def Let_def)

lemma demo_serve_run:
  assumes p: "has_channel p" "default_exchange p = ''testexch''" "published p = []"
  shows "demo_serve J tz clock flag (int n) (int k) (w\<lparr>prod_service := p\<rparr>) =
    (let p' = p\<lparr>published := demo_log J tz clock n k\<rparr>;
         w' = w\<lparr>prod_service := p',
                prod_requests := concat (map (\<lambda>i. DeclareQueue (demo_queue i) ''testexch'') [0..<k])\<rparr>
     in if \<exists>j. flag j then (Some (Inr 0), w'\<lparr>prod_service := Service_Disconnect p'\<rparr>) else (None, w'))"
proof (cases "await_signal flag 0")
  case None
  then have "\<not> (\<exists>j. flag j)" using await_returns [of 0 _ flag] by fastforce
  with None show ?thesis by (simp add: demo_serve_def demo_declare_run [OF p(1,2)] demo_publish_run [OF p] Let_def)
next
  case (Some m)
  then have "\<exists>j. flag j" using await_Some by blast
  with Some show ?thesis by (simp add: demo_serve_def demo_declare_run [OF p(1,2)] demo_publish_run [OF p] Let_def)
qed

text \<open>C38: the producer declares every queue and then fills them one after another, each with the
requested number of messages in order, numbered from zero and with falling priorities; it ends,
disconnected and with code 0, exactly when the signal arrives, and waits forever otherwise.\<close>

theorem producer_run:
  assumes "demo_args m q = Inr (int n, int k)" and "am_FromString scan cs default_amqp = Inr s"
    and "ce_message env = []"
  shows "let (r, w') = aqmpProd_main J scan tz clock env flag [prog, cs, m, q] w in
    r = (if \<exists>j. flag j then Some (Inr 0) else None) \<and>
    prod_requests w' = concat (map (\<lambda>i. [Declare_queue (demo_queue i),
      Bind_queue ''testexch'' (demo_queue i) (demo_queue i)]) [0..<k]) \<and>
    published (prod_service w') = concat (map (\<lambda>i. map (\<lambda>j. (''testexch'', demo_queue i,
      demo_message J tz (clock (i * n + j)) (int n) i j)) [0..<n]) [0..<k]) \<and>
    (IsConnected (prod_service w') \<longleftrightarrow> \<not> (\<exists>j. flag j))"
proof -
  obtain p :: "demo_envelope publisher"
    where call: "Service_Connect pub_Reconnect pub_ServiceName env (construct_publisher s ''testexch'') = (Inr (), p)"
    and p: "has_channel p" "default_exchange p = ''testexch''" "published p = []" "joinable p" "IsConnected p"
    by (rule connect_producer [OF am_formatted_nonempty [OF assms(2)] assms(3)]) blast
  have "aqmpProd_main J scan tz clock env flag [prog, cs, m, q] w
      = demo_serve J tz clock flag (int n) (int k) (w\<lparr>prod_service := p\<rparr>)"
    using assms(1,2) call by (simp add: aqmpProd_main_def)
  also note demo_serve_run [OF p(1,2,3)]
  finally have run: "aqmpProd_main J scan tz clock env flag [prog, cs, m, q] w =
    (let p' = p\<lparr>published := demo_log J tz clock n k\<rparr>;
         w' = w\<lparr>prod_service := p',
                prod_requests := concat (map (\<lambda>i. DeclareQueue (demo_queue i) ''testexch'') [0..<k])\<rparr>
     in if \<exists>j. flag j then (Some (Inr 0), w'\<lparr>prod_service := Service_Disconnect p'\<rparr>) else (None, w'))" .
  show ?thesis
  proof (cases "\<exists>j. flag j")
    case True
    have "\<not> IsConnected (Service_Disconnect (p\<lparr>published := demo_log J tz clock n k\<rparr>))"
      by (rule disconnect_log) (simp add: p)
    with True show ?thesis by (simp add: run Let_def disconnect_log(1) DeclareQueue_def demo_log_def)
  next
    case False
    have "IsConnected (p\<lparr>published := demo_log J tz clock n k\<rparr>)" using p(5) by (simp add: IsConnected_def)
    with False show ?thesis by (simp add: run Let_def DeclareQueue_def demo_log_def)
  qed
qed

definition sample_start :: producer where
  "sample_start = \<lparr>prod_service = new_publisher, prod_requests = [], prod_err = []\<rparr>"

lemma sample_digits: "show_nat 0 = ''0''" "show_nat 1 = ''1''" "show_nat 2 = ''2''"
  by code_simp+

lemma sample_args: "demo_args ''2'' ''1'' = Inr (int 2, int 1)"
  using stoi_show [of 2, unfolded sample_digits] stoi_show [of 1, unfolded sample_digits]
  by (simp add: demo_args_def)

lemma sample_string:
  "am_FromString scan_model (am_formatted (make_amqp ''h:5672'' ''u'' ''p'' False)) default_amqp
    = Inr (make_amqp ''h:5672'' ''u'' ''p'' False)"
proof -
  have "am.in_step (make_amqp ''h:5672'' ''u'' ''p'' False)" by (simp add: make_amqp_def)
  then show ?thesis
    using am_FromString_render [OF scan_model.scn_laws_axioms, of "make_amqp ''h:5672'' ''u'' ''p'' False" "''h''" "''5672''" default_amqp]
      am_update_self
    by (simp add: am.in_step_def make_amqp_def am_UpdateFormat_def clean_def word_text_def isspace_def kDelimiters_def)
qed

theorem producer_run_witness:
  "let (r, w') = aqmpProd_main (json_model :: (nat json, nat) jsoncpp) scan_model
      \<lparr>localtime_r = (\<lambda>_. \<lparr>tm_year = 124, tm_mon = 0, tm_mday = 1, tm_hour = 0, tm_min = 0, tm_sec = 0\<rparr>), mktime = (\<lambda>_. 0)\<rparr>
      (\<lambda>k. (int k, of_nat k)) \<lparr>ce_ready = False, ce_message = []\<rparr> (\<lambda>k. k = 3)
      [''aqmpProd'', am_formatted (make_amqp ''h:5672'' ''u'' ''p'' False), ''2'', ''1''] sample_start
   in r = Some (Inr 0) \<and> map (fst \<circ> snd) (published (prod_service w')) = [''queue0'', ''queue0'']"
  using producer_run [OF sample_args sample_string, of "\<lparr>ce_ready = False, ce_message = []\<rparr>"
      "json_model :: (nat json, nat) jsoncpp"
      "\<lparr>localtime_r = (\<lambda>_. \<lparr>tm_year = 124, tm_mon = 0, tm_mday = 1, tm_hour = 0, tm_min = 0, tm_sec = 0\<rparr>), mktime = (\<lambda>_. 0)\<rparr>"
      "\<lambda>k. (int k, of_nat k)" "\<lambda>k. k = 3" "''aqmpProd''" sample_start]
  by (simp add: demo_queue_def case_prod_unfold Let_def upt_rec sample_digits)

text \<open>
  The priority is an octet: it falls from one message to the next as long as there are at most
  255, and the first of 256 messages has the lowest.
\<close>

lemma priorities_fall:
  assumes "n \<le> 255" and "j < j'" and "j' < n"
  shows "de_priority (demo_message J tz now' (int n) i j') < de_priority (demo_message J tz now (int n) i j)"
proof -
  have "uint (word_of_int (int n - int k) :: 8 word) = int n - int k" if "k < n" for k
    by (subst uint_word_of_int) (use that assms(1) in simp)
  from this [of j] this [of j'] assms show ?thesis by (simp add: demo_message_def Let_def word_less_def)
qed

lemma first_of_256: "de_priority (demo_message J tz now 256 i 0) = 0"
  by (simp add: demo_message_def Let_def)

text \<open>The consumer acknowledges and prints what it is sent, in order.\<close>

lemma demo_consumes:
  assumes "has_channel s" and "message_callback s = Some tag_callback"
  shows "rfold (\<lambda>(m, tag). demo_deliver m tag) ds (s, out) = Inr (s\<lparr>acked := acked s @ map snd ds\<rparr>,
    out @ concat (map (\<lambda>(m, tag). show_nat (unat tag) @ newline) ds))"
  using assms
proof (induction ds arbitrary: s out)
  case (Cons d ds)
  obtain m tag where d: "d = (m, tag)" by fastforce
  have "demo_deliver m tag (s, out) = Inr (s\<lparr>acked := acked s @ [tag]\<rparr>, out @ show_nat (unat tag) @ newline)"
    using Cons.prems by (simp add: demo_deliver_def onReceived_def tag_callback_def)
  with Cons.IH [of "s\<lparr>acked := acked s @ [tag]\<rparr>"] Cons.prems show ?case by (simp add: d)
qed simp

lemma CompNode_main_outcomes:
  "length argv \<noteq> 2 \<Longrightarrow> CompNode_main argv = (Inr (Exit_code (- 1)), [])"
  "n < 2 ^ 16 \<Longrightarrow> CompNode_main [prog, show_nat n] = (Inr (Listen (of_nat n)), show_nat n @ newline)"
  "scan_decimal arg = Some (v, r) \<Longrightarrow> 2 ^ 31 \<le> v \<Longrightarrow> CompNode_main [prog, arg] = (Inl (Std (out_of_range ''stoi'')), [])"
proof -
  show "CompNode_main argv = (Inr (Exit_code (- 1)), [])" if "length argv \<noteq> 2"
    using that by (auto simp: CompNode_main_def split: list.splits)
  show "CompNode_main [prog, show_nat n] = (Inr (Listen (of_nat n)), show_nat n @ newline)" if "n < 2 ^ 16"
    using that by (simp add: CompNode_main_def stoi_show show_int_def)
  show "CompNode_main [prog, arg] = (Inl (Std (out_of_range ''stoi'')), [])"
    if "scan_decimal arg = Some (v, r)" "2 ^ 31 \<le> v"
    using that by (simp add: CompNode_main_def stoi_def)
qed

end
