(* ===== verification/TestUtils.thy ===== *)
theory TestUtils
  imports Matrices PrintUtils
begin

text \<open>
  \<open>GoogleCommon.h\<close>: the helpers the test suites share.  They poll a condition until a
  deadline, compare collections and matrices element by element, check the parameters of
  exceptions and turn type names into test names.  A check that gtest fails is a value of
  \<open>failure\<close>; a fatal one (the \<open>ASSERT\<close> macros) also leaves the helper.
\<close>

section \<open>Polling\<close>

text \<open>
  \<open>now n\<close> is the n-th reading of the steady clock and \<open>cond n\<close> what the n-th call of the
  condition returns.  Reading 0 is the start, reading \<open>k + 1\<close> opens round \<open>k\<close>.
\<close>

partial_function (option) wait_rounds :: "(nat \<Rightarrow> bool) \<Rightarrow> (nat \<Rightarrow> int) \<Rightarrow> int \<Rightarrow> nat \<Rightarrow> bool option" where
  "wait_rounds cond now timeout k =
    (if now (Suc k) - now 0 < timeout
     then (if cond k then Some True else wait_rounds cond now timeout (Suc k))
     else Some False)"

definition WaitFor :: "(nat \<Rightarrow> bool) \<Rightarrow> (nat \<Rightarrow> int) \<Rightarrow> int \<Rightarrow> bool option" where
  "WaitFor cond now timeout = wait_rounds cond now timeout 0"

section \<open>Comparisons\<close>

definition kTool :: real where
  "kTool = 1 / 2 ^ 52"

definition IsNear :: "real \<Rightarrow> real \<Rightarrow> real \<Rightarrow> bool" where
  "IsNear val1 val2 abs_error \<longleftrightarrow> \<bar>val1 - val2\<bar> \<le> abs_error"

text \<open>\<open>ASSERT_NEAR_REL\<close>, with the tolerance in percent of the first value.\<close>

definition near_rel :: "real \<Rightarrow> real \<Rightarrow> real \<Rightarrow> bool" where
  "near_rel val1 val2 rel_error = IsNear val1 val2 (rel_error * val1 / 100)"

definition arrayEqualComparator :: "'a \<Rightarrow> 'a \<Rightarrow> nat \<Rightarrow> 't \<Rightarrow> bool" where
  "arrayEqualComparator a b i tol \<longleftrightarrow> a = b"

definition arrayDoubleComparator :: "real \<Rightarrow> real \<Rightarrow> nat \<Rightarrow> real \<Rightarrow> bool" where
  "arrayDoubleComparator a b i tol = IsNear a b tol"

definition twoDArrayDoubleComparator :: "real \<Rightarrow> real \<Rightarrow> nat \<Rightarrow> nat \<Rightarrow> real \<Rightarrow> bool" where
  "twoDArrayDoubleComparator a b i j tol = IsNear a b tol"

datatype failure = Sizes nat nat | Row_counts int int | Column_counts int int | At nat | At2 nat nat

text \<open>A loop of checks: the first failed assertion ends it, failed expectations are collected.\<close>

fun check_loop :: "bool \<Rightarrow> ('i \<Rightarrow> fault + bool) \<Rightarrow> ('i \<Rightarrow> failure) \<Rightarrow> 'i list \<Rightarrow> fault + failure list" where
  "check_loop Expect ok report [] = Inr []"
| "check_loop Expect ok report (i # js) =
    rbind (ok i) (\<lambda>b.
      if b then check_loop Expect ok report js
      else if Expect then rbind (check_loop Expect ok report js) (\<lambda>fs. Inr (report i # fs))
      else Inr [report i])"

definition CompareArrays ::
    "bool \<Rightarrow> 'a list \<Rightarrow> 'b list \<Rightarrow> ('a \<Rightarrow> 'b \<Rightarrow> nat \<Rightarrow> real \<Rightarrow> bool) \<Rightarrow> real \<Rightarrow> fault + failure list" where
  "CompareArrays Expect solution solution2 eq_operator tol =
    (if length solution \<noteq> length solution2 then Inr [Sizes (length solution) (length solution2)]
     else check_loop Expect
            (\<lambda>i. rbind (va_get solution i) (\<lambda>a. rbind (va_get solution2 i) (\<lambda>b. Inr (eq_operator a b i tol))))
            At [0..<length solution])"

text \<open>Two nested containers, whose shapes are read from their first rows.\<close>

definition Compare2DArrays ::
    "bool \<Rightarrow> real list list \<Rightarrow> real list list \<Rightarrow> (real \<Rightarrow> real \<Rightarrow> nat \<Rightarrow> nat \<Rightarrow> real \<Rightarrow> bool) \<Rightarrow> real \<Rightarrow>
     fault + failure list" where
  "Compare2DArrays Expect mat1 mat2 eq_operator tol =
    rbind (GetShape mat1) (\<lambda>(rows, cols). rbind (GetShape mat2) (\<lambda>(rows2, cols2).
      if rows \<noteq> rows2 then Inr [Row_counts rows rows2]
      else if cols \<noteq> cols2 then Inr [Column_counts cols cols2]
      else check_loop Expect
             (\<lambda>(i, j). rbind (GetMatrElement mat1 i j) (\<lambda>a. rbind (GetMatrElement mat2 i j) (\<lambda>b.
                Inr (eq_operator a b i j tol))))
             (\<lambda>(i, j). At2 i j) (List.product [0..<nat rows] [0..<nat cols])))"

section \<open>Exceptions\<close>

text \<open>
  \<open>EXPECT_EXCEPTION_WITH_ARGS\<close>: the statement must throw an exception of the given class
  whose parameters are the expected ones.
\<close>

datatype exception_failure = Nothing_thrown | Different_exception | Different_args "exc_param list"

definition expect_exception ::
    "(my_exception \<Rightarrow> bool) \<Rightarrow> exc_param list \<Rightarrow> fault + 'a \<Rightarrow> exception_failure option" where
  "expect_exception exception_type expected_tuple outcome =
    (case outcome of
       Inr _ \<Rightarrow> Some Nothing_thrown
     | Inl (Thrown e) \<Rightarrow>
         if exception_type e
         then (if getParams e = expected_tuple then None else Some (Different_args (getParams e)))
         else Some Different_exception
     | Inl _ \<Rightarrow> Some Different_exception)"

section \<open>Names of tests\<close>

text \<open>\<open>abi::__cxa_demangle\<close> is an argument: the readable name, or nothing on failure.\<close>

definition Demangle :: "(string \<Rightarrow> string option) \<Rightarrow> string \<Rightarrow> string" where
  "Demangle cxa_demangle mangled_name = (case cxa_demangle mangled_name of Some s \<Rightarrow> s | None \<Rightarrow> [])"

text \<open>The array has four elements: the three characters and the terminating zero.\<close>

definition kToReplace :: string where
  "kToReplace = CHR '':'' # CHR '' '' # tab @ [char_of (0 :: nat)]"

definition DemangledName :: "(string \<Rightarrow> string option) \<Rightarrow> string \<Rightarrow> string" where
  "DemangledName cxa_demangle mangled_name =
    map (\<lambda>c. if c \<in> set kToReplace then CHR ''_'' else c) (Demangle cxa_demangle mangled_name)"

definition test_TupleToString :: "string list \<Rightarrow> string" where
  "test_TupleToString param = TupleToString param ''_'' [] []"

definition FirstValueTuplePrinter :: "'a \<times> 'b \<Rightarrow> 'a" where
  "FirstValueTuplePrinter param = fst param"

section \<open>Polling ends\<close>

lemma wait_rounds_iff:
  assumes "0 < interval" and "\<And>n. now n + interval \<le> now (Suc n)"
  shows "wait_rounds cond now timeout k =
    Some (\<exists>n\<ge>k. cond n \<and> now (Suc n) - now 0 < timeout)"
proof (induction "nat (now 0 + timeout - now (Suc k))" arbitrary: k rule: less_induct)
  case less
  have later: "now (Suc k) \<le> now (Suc n)" if "k \<le> n" for n
    using that
  proof (induction n rule: dec_induct)
    case (step n)
    from step(3) assms(1) assms(2) [of "Suc n"] show ?case by linarith
  qed simp
  show ?case
  proof (cases "now (Suc k) - now 0 < timeout")
    case False
    then have "\<not> now (Suc n) - now 0 < timeout" if "k \<le> n" for n using later [OF that] by linarith
    with False show ?thesis by (subst wait_rounds.simps) auto
  next
    case True
    show ?thesis
    proof (cases "cond k")
      case True
      with \<open>now (Suc k) - now 0 < timeout\<close> show ?thesis by (subst wait_rounds.simps) auto
    next
      case False
      have "nat (now 0 + timeout - now (Suc (Suc k))) < nat (now 0 + timeout - now (Suc k))"
        using True assms(1) assms(2) [of "Suc k"] by linarith
      from less [OF this] have "wait_rounds cond now timeout k = Some (\<exists>n\<ge>Suc k. cond n \<and> now (Suc n) - now 0 < timeout)"
        using True False by (subst wait_rounds.simps) simp
      moreover have "(\<exists>n\<ge>Suc k. cond n \<and> now (Suc n) - now 0 < timeout) \<longleftrightarrow> (\<exists>n\<ge>k. cond n \<and> now (Suc n) - now 0 < timeout)"
        using False by (metis Suc_leD le_antisym not_less_eq_eq)
      ultimately show ?thesis by simp
    qed
  qed
qed

text \<open>C40: polling a condition always ends when every round takes at least the sleeping interval;
it returns true exactly when the condition held in a round that began before the deadline.\<close>

theorem wait_for_exact:
  assumes "0 < interval" and "\<forall>n. now n + interval \<le> now (Suc n)"
  shows "WaitFor cond now timeout = Some (\<exists>n. cond n \<and> now (Suc n) - now 0 < timeout)"
  using wait_rounds_iff [OF assms(1), of now cond timeout 0] assms(2) by (simp add: WaitFor_def)

text \<open>The condition may come true while the caller sleeps past the deadline; it is not asked again.\<close>

theorem wait_for_exact_witness:
  "WaitFor (\<lambda>n. 3 \<le> n) (\<lambda>n. 2 * int n) 5 = Some (\<exists>n. 3 \<le> n \<and> 2 * int (Suc n) - 2 * int 0 < (5 :: int))"
  by (rule wait_for_exact [of 2]) simp_all

section \<open>What the comparisons report\<close>

lemma check_loop_total:
  assumes "\<And>i. i \<in> set js \<Longrightarrow> ok i = Inr (holds i)"
  shows "check_loop Expect ok report js =
    (let failed = filter (\<lambda>i. \<not> holds i) js in Inr (map report (if Expect then failed else take 1 failed)))"
  using assms by (induction js) (auto simp: Let_def)

lemma CompareArrays_report:
  assumes "length a = length b"
  shows "CompareArrays Expect a b eq tol = (let failed = filter (\<lambda>i. \<not> eq (a ! i) (b ! i) i tol) [0..<length a]
    in Inr (map At (if Expect then failed else take 1 failed)))"
proof -
  have "check_loop Expect (\<lambda>i. rbind (va_get a i) (\<lambda>x. rbind (va_get b i) (\<lambda>y. Inr (eq x y i tol)))) At [0..<length a]
    = (let failed = filter (\<lambda>i. \<not> eq (a ! i) (b ! i) i tol) [0..<length a]
       in Inr (map At (if Expect then failed else take 1 failed)))"
    by (rule check_loop_total [where holds = "\<lambda>i. eq (a ! i) (b ! i) i tol"]) (simp add: va_get_def assms)
  with assms show ?thesis by (simp add: CompareArrays_def)
qed

lemma CompareArrays_passes:
  "CompareArrays Expect a b eq tol = Inr [] \<longleftrightarrow> length a = length b \<and> (\<forall>i<length a. eq (a ! i) (b ! i) i tol)"
proof (cases "length a = length b")
  case True
  then show ?thesis by (simp add: CompareArrays_report Let_def filter_empty_conv Ball_def)
next
  case False
  then show ?thesis by (simp add: CompareArrays_def)
qed

text \<open>
  With a negative first value the relative tolerance is negative and even equal values fail.
\<close>

lemma near_rel_negative: "val1 < 0 \<Longrightarrow> 0 < rel_error \<Longrightarrow> \<not> near_rel val1 val2 rel_error"
proof -
  assume "val1 < 0" "0 < rel_error"
  then have "rel_error * val1 / 100 < 0" by (simp add: mult_pos_neg)
  then show ?thesis unfolding near_rel_def IsNear_def by linarith
qed

text \<open>Template brackets and commas stay in a test name.\<close>

lemma DemangledName_keeps:
  "DemangledName (\<lambda>_. Some ''std::vector<int, A>'') m = ''std__vector<int,_A>''"
  by code_simp

lemma expect_exception_passes:
  "expect_exception ty args outcome = None \<longleftrightarrow> (\<exists>e. outcome = Inl (Thrown e) \<and> ty e \<and> getParams e = args)"
  by (auto simp: expect_exception_def split: sum.splits fault.splits)

end
