(* ===== verification/Startup.thy ===== *)
theory Startup
  imports Experiments FileHandler
begin

text \<open>
  \<open>main\<close> of \<open>coordGenerate.cpp\<close> around the simulation: its arguments, the directories it
  creates one level at a time, the drawn coordinates and the files it leaves.  \<open>strtod\<close>, the
  text of a double and the random numbers are arguments.
\<close>

section \<open>Arguments\<close>

text \<open>\<open>strtol\<close> gives zero without a number, stays within \<open>long\<close> and is narrowed to \<open>int\<close>.\<close>

definition strtol_int :: "string \<Rightarrow> int" where
  "strtol_int s = (case scan_decimal s of
     None \<Rightarrow> 0
   | Some (v, _) \<Rightarrow> sint (word_of_int (max (- (2 ^ 63)) (min (2 ^ 63 - 1) v)) :: u32))"

record sim_args =
  sa_n :: int
  sa_nsym :: int
  sa_range :: real
  sa_state :: StateT
  sa_subdirectory :: string

definition read_sim_args :: "(string \<Rightarrow> real) \<Rightarrow> string list \<Rightarrow> fault + sim_args" where
  "read_sim_args strtod argv =
    rbind (mode_of (if 5 \<le> length argv then Some (argv ! 4) else None)) (\<lambda>state.
      Inr \<lparr>sa_n = (if 3 \<le> length argv then strtol_int (argv ! 1) else 5),
           sa_nsym = (if 3 \<le> length argv then strtol_int (argv ! 2) else 1000),
           sa_range = (if 4 \<le> length argv then strtod (argv ! 3) else 1 / 10 ^ 6),
           sa_state = state,
           sa_subdirectory = (if 6 \<le> length argv then (argv ! 5) @ ''/'' else [])\<rparr>)"

section \<open>Directories\<close>

text \<open>\<open>std::filesystem::create_directory\<close> needs the directory above.\<close>

definition create_directory :: "string \<Rightarrow> (filesystem, fault, bool) action" where
  "create_directory p fs =
    (if p = [] \<or> node_at fs (butlast (resolve fs p)) \<noteq> Some Dir then (Inl filesystem_error, fs)
     else make_dir (resolve fs p) fs)"

definition ensure_directory :: "string \<Rightarrow> (filesystem, fault, unit) action" where
  "ensure_directory p fs =
    (if lookup fs p = None then sbind (create_directory p) (\<lambda>_. sret ()) fs else (Inr (), fs))"

definition prepare_directories :: "string \<Rightarrow> string \<Rightarrow> (filesystem, fault, unit) action" where
  "prepare_directories subdirectory dirname =
    sbind (ensure_directory ''results/'') (\<lambda>_.
    sbind (if subdirectory \<noteq> [] then ensure_directory (''results/'' @ subdirectory) else sret ()) (\<lambda>_.
      ensure_directory dirname))"

section \<open>The program\<close>

definition draw_coordinates :: "(nat \<Rightarrow> real) \<Rightarrow> nat \<Rightarrow> nat \<Rightarrow> real list list" where
  "draw_coordinates gen n nsym = map (\<lambda>i. map (\<lambda>j. gen (i * (2 * n) + j)) [0..<2 * n]) [0..<nsym]"

text \<open>Files that cannot be opened are skipped silently.\<close>

definition write_files :: "(string \<times> string) list \<Rightarrow> filesystem \<Rightarrow> filesystem" where
  "write_files files fs =
    foldl (\<lambda>fs (name, text). let (st, fs) = open_stream name Out fs in snd (write_stream text st fs)) fs files"

definition coordGenerate_main ::
    "quadrature \<Rightarrow> lu_solver \<Rightarrow> (real \<Rightarrow> string) \<Rightarrow> (string \<Rightarrow> real) \<Rightarrow> (real \<Rightarrow> nat \<Rightarrow> real) \<Rightarrow> string list \<Rightarrow>
     (filesystem, fault, MeshCreator) action" where
  "coordGenerate_main gk lu put strtod normal argv =
    sbind (slift (read_sim_args strtod argv)) (\<lambda>a.
    sbind (slift (EnumToStr (sa_state a) kStateToStr)) (\<lambda>mode.
      let dirname = experiment_dir (sa_subdirectory a) (sa_n a) (sa_nsym a) (put (sa_range a)) mode
      in sbind (prepare_directories (sa_subdirectory a) dirname) (\<lambda>_.
         sbind (slift (require (- (2 ^ 30) \<le> sa_n a \<and> sa_n a < 2 ^ 30) (UB ''signed integer overflow''))) (\<lambda>_.
         sbind (slift (require (0 \<le> sa_n a \<and> 0 \<le> sa_nsym a) (Library ''length_error''))) (\<lambda>_.
         sbind (slift (coordGenerate gk lu put dirname (sa_state a) (nat (sa_n a))
                  (draw_coordinates (normal (sa_range a * sqrt 2)) (nat (sa_n a)) (nat (sa_nsym a)))))
           (\<lambda>(mesh, files) fs. (Inr mesh, write_files files fs)))))))"

section \<open>What can go wrong before the simulation\<close>

lemma strtol_int_show: "n < 2 ^ 31 \<Longrightarrow> strtol_int (show_nat n) = int n"
proof -
  assume n: "n < 2 ^ 31"
  have "scan_decimal (show_nat n @ []) = Some (int (read_digits (show_nat n)), [])"
    by (rule scan_decimal_digits) (simp_all add: show_nat_digits)
  moreover have "sint (word_of_int (int n) :: u32) = int n"
    by (subst sint_sbintrunc') (use n in \<open>simp add: signed_take_bit_int_eq_self\<close>)
  ultimately show ?thesis using n by (simp add: strtol_int_def)
qed

lemma draw_shape: "length (draw_coordinates gen n nsym) = nsym \<and> (\<forall>xs\<in>set (draw_coordinates gen n nsym). length xs = 2 * n)"
  by (auto simp: draw_coordinates_def)

lemma ensure_directory_keeps:
  assumes "tree fs" and "ensure_directory p fs = (r, fs')"
  shows "tree fs' \<and> grown fs fs' \<and> (r = Inr () \<longrightarrow> lookup fs' p \<noteq> None)"
proof (cases "lookup fs p = None \<and> p \<noteq> [] \<and> node_at fs (butlast (resolve fs p)) = Some Dir")
  case True
  obtain b fs1 where md: "make_dir (resolve fs p) fs = (b, fs1)" by fastforce
  note c = make_dir_cases [OF md assms(1)]
  from True md assms(2) have fs': "fs' = fs1" and r: "r = Inr () \<longrightarrow> (\<exists>x. b = Inr x)"
    by (auto simp: ensure_directory_def create_directory_def sbind_apply split: sum.splits)
  have "resolve fs1 p = resolve fs p" using c True by (intro grown_resolve) simp
  with c True fs' r show ?thesis by (auto simp: lookup_def)
next
  case False
  with assms show ?thesis
    by (auto simp: ensure_directory_def create_directory_def sbind_apply lookup_def split: if_splits)
qed

lemma grown_lookup: "grown fs fs' \<Longrightarrow> lookup fs p \<noteq> None \<Longrightarrow> lookup fs' p \<noteq> None"
proof -
  assume g: "grown fs fs'" and p: "lookup fs p \<noteq> None"
  then obtain e where "p \<noteq> []" "node_at fs (resolve fs p) = Some e" by (auto simp: lookup_def split: if_splits)
  with g grown_resolve [OF g] show "lookup fs' p \<noteq> None" by (cases e) (auto simp: lookup_def grown_def)
qed

text \<open>When the directories are prepared, all of them are there and nothing is lost.\<close>

lemma prepare_directories_keeps:
  assumes "tree fs" and "prepare_directories sub dirname fs = (r, fs')"
  shows "tree fs' \<and> grown fs fs' \<and> (r = Inr () \<longrightarrow> lookup fs' ''results/'' \<noteq> None \<and> lookup fs' dirname \<noteq> None)"
proof -
  obtain r1 fs1 where e1: "ensure_directory ''results/'' fs = (r1, fs1)" by fastforce
  note k1 = ensure_directory_keeps [OF assms(1) e1]
  let ?second = "if sub \<noteq> [] then ensure_directory (''results/'' @ sub) else sret ()"
  obtain r2 fs2 where e2: "?second fs1 = (r2, fs2)" by fastforce
  have k2: "tree fs2 \<and> grown fs1 fs2" using k1 e2 ensure_directory_keeps [of fs1 "''results/'' @ sub"]
    by (auto split: if_splits)
  obtain r3 fs3 where e3: "ensure_directory dirname fs2 = (r3, fs3)" by fastforce
  from k2 have k3: "tree fs3 \<and> grown fs2 fs3 \<and> (r3 = Inr () \<longrightarrow> lookup fs3 dirname \<noteq> None)"
    by (intro ensure_directory_keeps [OF _ e3]) simp
  have g: "grown fs fs2" "grown fs fs3" "grown fs1 fs3" using k1 k2 k3 by (blast intro: grown_trans)+
  have eq: "prepare_directories sub dirname fs = (case r1 of Inl e \<Rightarrow> (Inl e, fs1) | Inr _ \<Rightarrow>
      (case r2 of Inl e \<Rightarrow> (Inl e, fs2) | Inr _ \<Rightarrow> (r3, fs3)))"
    by (simp only: prepare_directories_def sbind_apply e1 e2 e3 prod.case)
  from assms(2) show ?thesis unfolding eq using k1 k2 k3 g grown_lookup [OF g(3), of "''results/''"]
    by (auto split: sum.splits)
qed

text \<open>A subdirectory of two levels whose first one is missing is refused.\<close>

lemma nested_subdirectory_refused:
  assumes "DirectoryExists fs ''results/''" and "lookup fs (''results/'' @ sub) = None"
    and "node_at fs (butlast (resolve fs (''results/'' @ sub))) = None" and "sub \<noteq> []"
  shows "prepare_directories sub dirname fs = (Inl filesystem_error, fs)"
  using assms by (simp add: prepare_directories_def sbind_apply ensure_directory_def create_directory_def DirectoryExists_def)

end
