(* ===== verification/Spec2Isabelle.thy ===== *)
theory Spec2Isabelle
  imports Cluster DbNodes Experiments BenchHandler Plots ClientApps Demos TestUtils Startup
begin

text \<open>
  Verification of a distributed computation of dipole radiation patterns, written in C++.

  The program.  A main node (\<open>src/mainNode\<close>) accepts workers and tasks over HTTP.  It keeps a
  registry of workers with their benchmark scores, cuts a task into slices proportional to those
  scores and publishes one slice per worker to RabbitMQ; it administers the broker through its
  REST interface.  A computational node (\<open>src/computationalNode\<close>) measures itself with a
  benchmark on a thread of its own, announces itself to the main node, consumes its queue and
  computes each task it receives: it draws coordinates from a random distribution, places
  dipoles, solves their linear system and adds up the radiation patterns on a mesh of
  directions.  \<open>src/computationalLib\<close> holds the dipole mathematics, the task and broker types,
  connection strings, the AMQP clients, the REST client and the database service;
  \<open>src/utilLib\<close> holds errors, enumeration tables, printing and parsing, meshes, random
  generators, timing, files and test helpers; \<open>src/client\<close> holds simulation and plotting
  programs on top of both libraries.

  How the theories follow the code.  A definition has the name of the function it translates;
  prefixes such as \<open>pg_\<close>, \<open>am_\<close>, \<open>pub_\<close>, \<open>con_\<close>, \<open>Node_\<close>, \<open>Worker_\<close>, \<open>Comp_\<close> and \<open>FH_\<close> tell methods of
  different classes apart.  Objects are records, enumerations are datatypes, exceptions and undefined
  behaviour are values of \<open>fault\<close>, and an operation that changes an object and may throw returns
  both the outcome and the state reached.

  \<^item> \<open>Prelude\<close>: sequencing of fallible computations, loops over lists, maps in the order of
    their keys, decimal text, placeholder formatting.  It owns the collections \<open>alist_simps\<close> and
    \<open>result_simps\<close>.
  \<^item> \<open>ErrorHandling\<close>, \<open>EnumUtils\<close>, \<open>Valarray\<close>, \<open>SharedConstants\<close>: \<open>errorHandling.h\<close>,
    \<open>enumUtils.h\<close>, arithmetic of \<open>std::valarray\<close>, \<open>sharedConstants.h\<close>.
  \<^item> \<open>Json\<close>, \<open>JsonContainers\<close>: what the code uses of jsoncpp, and arrays in JSON.
  \<^item> \<open>NetworkTypes\<close>: \<open>networkTypes.h/.cpp\<close>, tasks and broker resources with their JSON forms.
  \<^item> \<open>ConnectionString\<close>, \<open>RestService\<close>, \<open>Amqp\<close>, \<open>ServiceCalls\<close>: \<open>connectionString\<close>,
    \<open>restUtils\<close> and \<open>amqpRestService\<close>, \<open>amqpCommon\<close> with its two subclasses, and the blocking
    calls of a subclass with the answers of the event loop in between.
  \<^item> \<open>Workers\<close>, \<open>MainNode\<close>, \<open>Cluster\<close>: \<open>WorkerManagementService\<close>, \<open>MainNodeService\<close> with its
    controller, and main node and workers together.
  \<^item> \<open>Benchmark\<close>, \<open>CompNode\<close>: \<open>BenchmarkRunnerService\<close> and the task callback;
    \<open>CompNodeService\<close> with its controller.
  \<^item> \<open>Matrices\<close>, \<open>Mesh\<close>, \<open>Dipoles\<close>, \<open>Generators\<close>: \<open>typeCasts.h\<close> and \<open>myConcepts.h\<close>,
    \<open>MeshCreator\<close>, \<open>Dipoles\<close>, \<open>Generator\<close>.
  \<^item> \<open>Timing\<close>, \<open>ClockArray\<close>: \<open>timingUtils\<close> and \<open>chronoClock.cpp\<close>, \<open>ClockArray\<close>.
  \<^item> \<open>PrintUtils\<close>, \<open>PrintParse\<close>, \<open>FileHandler\<close>, \<open>BenchHandler\<close>, \<open>TestUtils\<close>: \<open>printUtils\<close>,
    \<open>Printers\<close> and \<open>Parsers\<close>, \<open>FileHandler\<close>, \<open>BenchmarkHandler.h\<close>, \<open>GoogleCommon.h\<close>.
  \<^item> \<open>Db\<close>, \<open>Dao\<close>, \<open>DbService\<close>, \<open>DbNodes\<close>: \<open>dbCommon\<close>, \<open>daoClasses\<close>, \<open>DbService\<close> and its
    operations on nodes and their scores.
  \<^item> \<open>Experiments\<close> and \<open>Startup\<close>, \<open>Plots\<close>, \<open>ClientApps\<close>, \<open>Demos\<close>: \<open>coordGenerate.cpp\<close> and \<open>avgsTest.cpp\<close>,
    \<open>plotingUtils.cpp\<close> and \<open>MeshPlot.cpp\<close>, \<open>createPlotQt.cpp\<close> and \<open>requestInformation.cpp\<close>,
    \<open>aqmpProd.cpp\<close>, \<open>aqmpCons.cpp\<close> and the \<open>main\<close> of a computational node.
\<close>

text \<open>
  Interfaces.  A contract between components is a locale, interpreted on the definitions that
  provide it:

  \<^item> \<open>enum_table\<close> (two-way lookup), for each table of enumerators and strings;
  \<^item> \<open>connection_string\<close> (setters keep the text in step with the fields), for PostgreSQL and
    AMQP strings;
  \<^item> \<open>amqp_client\<close> (what \<open>Connect\<close> relies on in \<open>Reconnect\<close>), for publisher and consumer;
  \<^item> \<open>balanced_pool\<close> (weights follow membership), for the worker registry;
  \<^item> \<open>pqxx_store\<close>, \<open>node_table\<close>, \<open>user_table\<close> (committed and pending data of a server), for a
    model of a transactional server;
  \<^item> \<open>jsoncpp_laws\<close>, \<open>scn_laws\<close>, \<open>eigen_io\<close>, \<open>pqxx_laws\<close>: documented behaviour of jsoncpp, scnlib,
    Eigen's stream output and libpqxx.  These libraries are arguments of the definitions; an
    executable model of each discharges the laws and evaluates the examples.

  \<open>LocationType\<close> is an instance of \<open>linorder\<close>, the order the section clock's map uses.

  What is shown.

  \<^item> End to end (\<open>Cluster\<close>): the slices published for a task are understood by the workers, and
    their answers add up to the undivided result, up to the phi grid that each worker adds.
  \<^item> Division of tasks (\<open>MainNode\<close>): the slices are consecutive, one per active node, and cover
    the task exactly; a task whose shares fit is dispatched completely.
  \<^item> Invariants: of the main node and its registry, of a worker, of the AMQP life cycle (as
    reachability of a step relation), of the open files of a file handler.
  \<^item> Blocking calls: from every reachable state a caller blocked in \<open>Connect\<close> or \<open>Disconnect\<close> can
    return within four steps; the polling helper of the tests always returns; a producer returns
    exactly when it is signalled.
  \<^item> Mathematics: solving by half-size blocks solves the full system when the blocks commute, and
    a system for which it does not; the pattern as a quadratic form; reuse of an object against
    a fresh one; averages over configurations; plotted points.
  \<^item> Round trips: tasks in JSON, connection strings, printed vectors, benchmark scores in
    the database, text files, tables of coordinates and solutions.
  \<^item> The database: every writing operation is one atomic action on the committed data,
    authentication, paging, rows that cannot be read.
  \<^item> Errors: the outcome of every distribution type, the HTTP codes of a worker, a close handler
    left over from an earlier \<open>Disconnect\<close>, the first registration of a worker.

  Loops and bounds.  Loops over containers and counters are structural recursion
  (\<open>for_loop\<close>, \<open>rfold\<close>, \<open>rmap\<close>, \<open>smap\<close>); no definition takes fuel.  The two loops that may run
  forever, waiting for a signal and polling until a deadline, are partial functions whose value
  \<open>None\<close> stands for not returning.  Counters, identifiers and benchmark scores are words of 64
  or 32 bits where the code can overflow, and wrap; container sizes and indices are natural
  numbers, with reads out of range as undefined behaviour.

  Idealisations.  Doubles are real numbers: rounding is not modelled, and an operation that
  gives an infinity or not-a-number in C++ ends the computation with \<open>NonFinite\<close>.  OpenMP loops
  run in order, apart from the private copies of \<open>coordGenerate.cpp\<close>, which are modelled because they
  change the result.  HTTP handlers run one after another: they take
  no lock, but \<open>server_config.json\<close> gives the server of either node a single thread.  The callbacks of the event loop interleave with the client thread in \<open>svc_step\<close>.  The
  clocks, the time zone, drawn random numbers, HTTP answers, the results of libcurl and
  libpqxx, LU decomposition and quadrature are arguments.

  Not modelled.  Concepts (\<open>myConcepts.h\<close>) are compile-time predicates.  Layout, cameras, styles
  and image files of the client belong to Qt and matplot++; \<open>eigenTest.cpp\<close> is one fixed plot.
  Stack traces, log lines on the console, routing tables and configuration files of the HTTP
  framework, symbolic links, memory exhaustion and the individual state bits of streams beyond
  good, end and failure are left out.  The test suites are not modelled; their shared
  helpers are (\<open>TestUtils\<close>).
\<close>

end
